(* ===== verification/Prelude.thy ===== *)
theory Prelude
  imports
    Complex_Main
    "HOL-Library.AList"
    "HOL-Library.Sublist"
    "HOL-Library.Multiset"
begin

text \<open>
  Shared vocabulary of the FluxGraph development: Go maps, Go's \<open>strings\<close> functions on byte
  strings, the truncating conversions between Go's numeric types, and the generic lemmas the
  component theories use.

  \<^bold>\<open>Go maps.\<close> A Go map is an association list with distinct keys. Lookup is \<open>map_of\<close>,
  assignment \<open>AList.update\<close>, \<open>delete\<close> \<open>AList.delete\<close>. The order of the list stands for
  the iteration order of a \<open>range\<close> loop, which Go leaves open: a theorem that holds for every
  list holds for every iteration order.

  \<^bold>\<open>Strings.\<close> A Go string is a sequence of bytes, as is \<open>string\<close>.

  \<^bold>\<open>Time.\<close> \<open>time.Time\<close> and \<open>time.Duration\<close> are \<open>int\<close>s counting nanoseconds.
\<close>

named_theorems gomap_simps
  \<open>lookup, update and key lemmas of Go maps\<close>

named_theorems model_defs
  \<open>definitions of small accessors that proofs unfold together\<close>

type_synonym ('k, 'v) gomap = "('k \<times> 'v) list"
type_synonym time = int
type_synonym duration = int

abbreviation glookup :: "('k, 'v) gomap \<Rightarrow> 'k \<Rightarrow> 'v option" where
  "glookup \<equiv> map_of"

abbreviation gset :: "'k \<Rightarrow> 'v \<Rightarrow> ('k, 'v) gomap \<Rightarrow> ('k, 'v) gomap" where
  "gset \<equiv> AList.update"

abbreviation gdelete :: "'k \<Rightarrow> ('k, 'v) gomap \<Rightarrow> ('k, 'v) gomap" where
  "gdelete \<equiv> AList.delete"

abbreviation gkeys :: "('k, 'v) gomap \<Rightarrow> 'k list" where
  "gkeys m \<equiv> map fst m"

abbreviation gomap_ok :: "('k, 'v) gomap \<Rightarrow> bool" where
  "gomap_ok m \<equiv> distinct (map fst m)"

lemma glookup_gset [simp, gomap_simps]:
  "glookup (gset k v m) k' = (if k' = k then Some v else glookup m k')"
  by (simp add: update_conv')

lemma glookup_gdelete [simp, gomap_simps]:
  "glookup (gdelete k m) k' = (if k' = k then None else glookup m k')"
  by (simp add: AList.delete_conv')

lemma gomap_ok_gset [simp, intro]: "gomap_ok m \<Longrightarrow> gomap_ok (gset k v m)"
  by (rule distinct_update)

lemma gomap_ok_gdelete [simp, intro]: "gomap_ok m \<Longrightarrow> gomap_ok (gdelete k m)"
  by (rule distinct_delete)

lemma gkeys_gset: "set (gkeys (gset k v m)) = insert k (set (gkeys m))"
  by (induction m) auto

lemma glookup_None_iff: "glookup m k = None \<longleftrightarrow> k \<notin> set (gkeys m)"
  by (simp add: map_of_eq_None_iff)

lemma glookup_map_values [simp]:
  "glookup (map (\<lambda>(k, v). (k, f v)) m) k = map_option f (glookup m k)"
  by (induction m) auto

text \<open>Assigning all pairs of a map in iteration order: with distinct keys the order is irrelevant.\<close>

lemma glookup_fold_gset:
  assumes "gomap_ok upds"
  shows "glookup (fold (\<lambda>(k, v). gset k v) upds m) x
    = (case glookup upds x of None \<Rightarrow> glookup m x | Some v \<Rightarrow> Some v)"
  using assms
proof (induction upds arbitrary: m)
  case Nil
  then show ?case by simp
next
  case (Cons kv upds)
  obtain k v where kv: "kv = (k, v)" by (cases kv)
  with Cons.prems have "glookup upds k = None"
    by (simp add: map_of_eq_None_iff)
  with Cons kv show ?case by (simp split: option.splits)
qed

subsection \<open>The strings package\<close>

definition HasPrefix :: "string \<Rightarrow> string \<Rightarrow> bool" where
  "HasPrefix s p \<longleftrightarrow> take (length p) s = p"

definition HasSuffix :: "string \<Rightarrow> string \<Rightarrow> bool" where
  "HasSuffix s p \<longleftrightarrow> length p \<le> length s \<and> drop (length s - length p) s = p"

definition TrimPrefix :: "string \<Rightarrow> string \<Rightarrow> string" where
  "TrimPrefix s p = (if HasPrefix s p then drop (length p) s else s)"

definition TrimSuffix :: "string \<Rightarrow> string \<Rightarrow> string" where
  "TrimSuffix s p = (if HasSuffix s p then take (length s - length p) s else s)"

fun Contains :: "string \<Rightarrow> string \<Rightarrow> bool" where
  "Contains s sub = (HasPrefix s sub \<or> (case s of [] \<Rightarrow> False | _ # s' \<Rightarrow> Contains s' sub))"

declare Contains.simps [simp del]

text \<open>\<open>strings.Split\<close> for a one-byte separator.\<close>

fun Split :: "string \<Rightarrow> char \<Rightarrow> string list" where
  "Split [] c = [[]]"
| "Split (x # s) c =
     (if x = c then [] # Split s c
      else (case Split s c of [] \<Rightarrow> [[x]] | w # ws \<Rightarrow> (x # w) # ws))"

definition byte_lower :: "char \<Rightarrow> char" where
  "byte_lower c = (let n = of_char c :: nat in if 65 \<le> n \<and> n \<le> 90 then char_of (n + 32) else c)"

definition ToLower :: "string \<Rightarrow> string" where
  "ToLower = map byte_lower"

lemma HasPrefix_iff: "HasPrefix s p \<longleftrightarrow> (\<exists>r. s = p @ r)"
  unfolding HasPrefix_def by (metis append_eq_conv_conj append_take_drop_id)

lemma HasSuffix_iff: "HasSuffix s p \<longleftrightarrow> (\<exists>r. s = r @ p)"
proof
  assume "HasSuffix s p"
  then show "\<exists>r. s = r @ p"
    unfolding HasSuffix_def by (metis append_take_drop_id)
qed (auto simp: HasSuffix_def)

lemma HasPrefix_append [simp]: "HasPrefix (p @ r) p"
  by (simp add: HasPrefix_iff)

lemma HasSuffix_append [simp]: "HasSuffix (r @ p) p"
  by (simp add: HasSuffix_iff)

lemma TrimSuffix_append [simp]: "TrimSuffix (r @ p) p = r"
  by (simp add: TrimSuffix_def)

lemma TrimPrefix_append [simp]: "TrimPrefix (p @ r) p = r"
  by (simp add: TrimPrefix_def)

lemma Contains_iff: "Contains s sub \<longleftrightarrow> (\<exists>a b. s = a @ sub @ b)"
proof (induction s)
  case Nil
  show ?case by (subst Contains.simps) (auto simp: HasPrefix_iff)
next
  case (Cons x s)
  have "(\<exists>a b. x # s = a @ sub @ b)
      \<longleftrightarrow> (\<exists>b. x # s = sub @ b) \<or> (\<exists>a b. s = a @ sub @ b)"
    by (metis append_Cons append_Nil list.sel(3) tl_append2 neq_Nil_conv)
  with Cons show ?case by (subst Contains.simps) (auto simp: HasPrefix_iff)
qed

subsection \<open>UTF-8\<close>

text \<open>
  \<open>for _, r := range s\<close>: the runes of a byte string, each as the bytes of \<open>string(r)\<close>. A byte
  that does not start a valid encoding counts as one \<open>utf8.RuneError\<close> (U+FFFD).
\<close>

definition rune_error :: string where
  "rune_error = [CHR 0xEF, CHR 0xBF, CHR 0xBD]"

definition byte_in :: "nat \<Rightarrow> nat \<Rightarrow> char \<Rightarrow> bool" where
  "byte_in lo hi c \<longleftrightarrow> lo \<le> of_char c \<and> of_char c \<le> hi"

text \<open>The length of the valid encoding at the start of a string, or zero.\<close>

fun rune_width :: "string \<Rightarrow> nat" where
  "rune_width [] = 0"
| "rune_width (b # s) =
     (let cont = byte_in 128 191 in
      if byte_in 0 127 b then 1
      else if byte_in 194 223 b then (case s of c # _ \<Rightarrow> if cont c then 2 else 0 | _ \<Rightarrow> 0)
      else if byte_in 224 239 b then
        (case s of c # d # _ \<Rightarrow>
           if byte_in (if of_char b = (224 :: nat) then 160 else 128) (if of_char b = (237 :: nat) then 159 else 191) c
             \<and> cont d then 3 else 0
         | _ \<Rightarrow> 0)
      else if byte_in 240 244 b then
        (case s of c # d # e # _ \<Rightarrow>
           if byte_in (if of_char b = (240 :: nat) then 144 else 128) (if of_char b = (244 :: nat) then 143 else 191) c
             \<and> cont d \<and> cont e then 4 else 0
         | _ \<Rightarrow> 0)
      else 0)"

declare rune_width.simps [simp del]

function utf8_runes :: "string \<Rightarrow> string list" where
  "utf8_runes [] = []"
| "utf8_runes (b # s) = (let n = rune_width (b # s) in
     if n = 0 then rune_error # utf8_runes s else take n (b # s) # utf8_runes (drop (n - 1) s))"
  by pat_completeness auto
termination by (relation "measure length") auto

definition valid_utf8 :: "string \<Rightarrow> bool" where
  "valid_utf8 s \<longleftrightarrow> concat (utf8_runes s) = s"

subsection \<open>Decimal numbers and numeric conversions\<close>

fun nat_digits :: "nat \<Rightarrow> string" where
  "nat_digits n =
     (if n < 10 then [char_of (48 + n)] else nat_digits (n div 10) @ [char_of (48 + n mod 10)])"

declare nat_digits.simps [simp del]

definition itoa :: "int \<Rightarrow> string" where
  "itoa i = (if i < 0 then ''-'' @ nat_digits (nat (- i)) else nat_digits (nat i))"

text \<open>
  \<open>Duration.String\<close>: hours, minutes and seconds from a second upwards, one of ms, \<open>\<mu>\<close>s and
  ns below; the fraction has no trailing zeros.
\<close>

definition frac_text :: "nat \<Rightarrow> nat \<Rightarrow> string" where
  "frac_text prec v =
     (let ds = nat_digits v;
          padded = replicate (prec - length ds) (CHR ''0'') @ ds;
          kept = rev (dropWhile (\<lambda>c. c = CHR ''0'') (rev padded))
      in if kept = [] then [] else ''.'' @ kept)"

definition dur_text_nat :: "nat \<Rightarrow> string" where
  "dur_text_nat u =
     (if u < 1000 then nat_digits u @ ''ns''
      else if u < 1000000 then nat_digits (u div 1000) @ frac_text 3 (u mod 1000) @ [char_of (194 :: nat), char_of (181 :: nat), CHR ''s'']
      else if u < 1000000000 then nat_digits (u div 1000000) @ frac_text 6 (u mod 1000000) @ ''ms''
      else (let secs = u div 1000000000; mins = secs div 60; hours = mins div 60 in
        (if hours = 0 then [] else nat_digits hours @ ''h'')
        @ (if mins = 0 then [] else nat_digits (mins mod 60) @ ''m'')
        @ nat_digits (secs mod 60) @ frac_text 9 (u mod 1000000000) @ ''s''))"

definition dur_text :: "duration \<Rightarrow> string" where
  "dur_text d = (if d = 0 then ''0s'' else if d < 0 then ''-'' @ dur_text_nat (nat (- d))
     else dur_text_nat (nat d))"

text \<open>Conversion of a \<open>float64\<close> to an integer type drops the fraction.\<close>

definition trunc_rat :: "rat \<Rightarrow> int" where
  "trunc_rat x = (if x < 0 then - \<lfloor>- x\<rfloor> else \<lfloor>x\<rfloor>)"

lemma trunc_rat_of_int [simp]: "trunc_rat (of_int n) = n"
proof -
  have "\<lfloor>- (of_int n :: rat)\<rfloor> = - n"
    by (metis floor_of_int of_int_minus)
  then show ?thesis by (simp add: trunc_rat_def)
qed

text \<open>The value of an \<open>int64\<close> computation: wrap-around to 64 bits, two's complement.\<close>

definition wrap64 :: "int \<Rightarrow> int" where
  "wrap64 n = (n + 2 ^ 63) mod 2 ^ 64 - 2 ^ 63"

lemma wrap64_id: "- (2 ^ 63) \<le> n \<Longrightarrow> n < 2 ^ 63 \<Longrightarrow> wrap64 n = n"
  by (simp add: wrap64_def)

text \<open>Go integer division truncates towards zero.\<close>

definition go_div :: "int \<Rightarrow> int \<Rightarrow> int" where
  "go_div a b = sgn a * sgn b * (\<bar>a\<bar> div \<bar>b\<bar>)"

lemma go_div_nonneg: "0 \<le> a \<Longrightarrow> 0 < b \<Longrightarrow> go_div a b = a div b"
  by (cases "a = 0") (simp_all add: go_div_def)

text \<open>
  The nearest \<open>float64\<close> to an integer, ties to even: an integer of at most 53 significant bits
  is exact, a longer one is rounded to 53 bits.
\<close>

fun bitlen_nat :: "nat \<Rightarrow> nat" where
  "bitlen_nat n = (if n = 0 then 0 else Suc (bitlen_nat (n div 2)))"

declare bitlen_nat.simps [simp del]

definition f64_of_int :: "int \<Rightarrow> int" where
  "f64_of_int n =
     (let a = nat \<bar>n\<bar>; b = bitlen_nat a in
      if b \<le> 53 then n
      else (let k = b - 53; q = a div 2 ^ k; r = a mod 2 ^ k; half = 2 ^ (k - 1);
                q' = (if half < r \<or> (r = half \<and> odd q) then q + 1 else q)
            in sgn n * int (q' * 2 ^ k)))"

lemma bitlen_nat_le: "n < 2 ^ k \<Longrightarrow> bitlen_nat n \<le> k"
proof (induction n arbitrary: k rule: bitlen_nat.induct)
  case (1 n)
  show ?case
  proof (cases "n = 0")
    case True
    then show ?thesis by (simp add: bitlen_nat.simps)
  next
    case False
    with "1.prems" obtain j where k: "k = Suc j" by (cases k) auto
    with "1.prems" have "n div 2 < 2 ^ j" by auto
    with "1.IH" [OF False] False k show ?thesis by (subst bitlen_nat.simps) simp
  qed
qed

lemma f64_of_int_exact:
  assumes "\<bar>n\<bar> < 2 ^ 53"
  shows "f64_of_int n = n"
proof -
  from assms have "nat \<bar>n\<bar> < 2 ^ 53" by (simp add: nat_less_iff)
  then have "bitlen_nat (nat \<bar>n\<bar>) \<le> 53" by (rule bitlen_nat_le)
  then show ?thesis by (simp add: f64_of_int_def)
qed

subsection \<open>Lists\<close>

text \<open>The first element that satisfies a predicate is replaced; later ones are left alone.\<close>

fun update_first :: "('a \<Rightarrow> bool) \<Rightarrow> ('a \<Rightarrow> 'a) \<Rightarrow> 'a list \<Rightarrow> 'a list" where
  "update_first P f [] = []"
| "update_first P f (x # xs) = (if P x then f x # xs else x # update_first P f xs)"

lemma length_update_first [simp]: "length (update_first P f xs) = length xs"
  by (induction xs) auto

lemma update_first_none: "\<forall>x \<in> set xs. \<not> P x \<Longrightarrow> update_first P f xs = xs"
  by (induction xs) auto

lemma update_first_split:
  "\<forall>x \<in> set xs. \<not> P x \<Longrightarrow> P y \<Longrightarrow> update_first P f (xs @ y # ys) = xs @ f y # ys"
  by (induction xs) auto

text \<open>Dropping all but the last \<open>n\<close> elements.\<close>

definition last_n :: "nat \<Rightarrow> 'a list \<Rightarrow> 'a list" where
  "last_n n xs = drop (length xs - n) xs"

lemma length_last_n: "length (last_n n xs) = min n (length xs)"
  by (simp add: last_n_def)

lemma last_n_all: "length xs \<le> n \<Longrightarrow> last_n n xs = xs"
  by (simp add: last_n_def)

lemma last_n_append: "length ys \<le> n \<Longrightarrow> last_n n (xs @ ys) = last_n (n - length ys) xs @ ys"
  by (simp add: last_n_def)

end
