(* ===== verification/Core_Model.thy ===== *)
theory Core_Model
  imports Prelude
begin

text \<open>
  The domain model of package \<open>core\<close>: error values, parts, messages, artifacts, the agent
  state with its copy-on-write operations, tasks and execution contexts.

  A Go string type with named constants (\<open>Role\<close>, \<open>PartType\<close>, \<open>AgentStatus\<close>, ...) is a
  datatype with one constructor per constant and one constructor for every other string. A pointer
  is an \<open>option\<close> (\<open>None\<close> is \<open>nil\<close>), and so is a map the code compares with \<open>nil\<close>.
\<close>

section \<open>Errors (core/errors.go and the sentinel errors)\<close>

datatype ErrorCategory =
    ErrCategoryRetriable
  | ErrCategoryFatal
  | ErrCategoryHumanNeeded
  | ErrCategoryStateCorrupt
  | ErrCategoryOther string

datatype sentinel =
    ErrVariableNotFound | ErrMissingTenantID | ErrInvalidMessageParts
  | ErrNodeAlreadyExists | ErrNodeNotFound | ErrEntryNotSet | ErrGraphValidation
  | ErrMaxStepsExceeded | ErrEngineSessionNotFound | ErrExecutionFailed | ErrNoNextNode
  | ErrSessionNotFound | ErrCheckpointNotFound
  | ErrRedisKeyNotFound | ErrStateCorrupted | ErrNoRows
  | ErrNoMoreMockResponses | ErrUnauthorized | ErrInvalidToken
  | ErrCanceled | ErrDeadlineExceeded

text \<open>
  An error value: a sentinel, an \<open>errors.New\<close>/\<open>fmt.Errorf\<close> text without a wrapped error, a
  \<open>fmt.Errorf\<close> that wraps an error with \<open>%w\<close> between a prefix and a suffix, or a
  \<open>*core.AgentError\<close> with its category, node, cause and retry hint.
\<close>

datatype go_error =
    Sentinel sentinel
  | ErrorText string
  | Errorf string go_error string
  | AgentErr ErrorCategory string "go_error option" duration

fun sentinel_text :: "sentinel \<Rightarrow> string" where
  "sentinel_text ErrVariableNotFound = ''variable not found or type mismatch''"
| "sentinel_text ErrMissingTenantID = ''tenantID is required''"
| "sentinel_text ErrInvalidMessageParts = ''invalid message parts for role''"
| "sentinel_text ErrNodeAlreadyExists = ''node already exists''"
| "sentinel_text ErrNodeNotFound = ''node not found''"
| "sentinel_text ErrEntryNotSet = ''entry node not set''"
| "sentinel_text ErrGraphValidation = ''graph validation failed''"
| "sentinel_text ErrMaxStepsExceeded = ''max steps exceeded''"
| "sentinel_text ErrEngineSessionNotFound = ''session state not found''"
| "sentinel_text ErrExecutionFailed = ''execution failed''"
| "sentinel_text ErrNoNextNode =
     ''no next node found for execution, and current node is not marked as Terminal''"
| "sentinel_text ErrSessionNotFound = ''session not found''"
| "sentinel_text ErrCheckpointNotFound = ''checkpoint not found''"
| "sentinel_text ErrRedisKeyNotFound = ''redis: key not found''"
| "sentinel_text ErrStateCorrupted = ''state corrupted: concurrent write conflict''"
| "sentinel_text ErrNoRows = ''no rows in result set''"
| "sentinel_text ErrNoMoreMockResponses = ''no more mock responses available''"
| "sentinel_text ErrUnauthorized = ''unauthorized''"
| "sentinel_text ErrInvalidToken = ''invalid token''"
| "sentinel_text ErrCanceled = ''context canceled''"
| "sentinel_text ErrDeadlineExceeded = ''context deadline exceeded''"

fun category_text :: "ErrorCategory \<Rightarrow> string" where
  "category_text ErrCategoryRetriable = ''Retriable''"
| "category_text ErrCategoryFatal = ''Fatal''"
| "category_text ErrCategoryHumanNeeded = ''HumanNeeded''"
| "category_text ErrCategoryStateCorrupt = ''StateCorrupted''"
| "category_text (ErrCategoryOther s) = s"

text \<open>The \<open>Error()\<close> method.\<close>

fun Error :: "go_error \<Rightarrow> string" where
  "Error (Sentinel s) = sentinel_text s"
| "Error (ErrorText t) = t"
| "Error (Errorf pre e post) = pre @ Error e @ post"
| "Error (AgentErr c n (Some cause) _) =
     ''['' @ category_text c @ ''] Node '' @ n @ '': '' @ Error cause"
| "Error (AgentErr c n None _) =
     ''['' @ category_text c @ ''] Node '' @ n @ '': unknown error''"

fun Unwrap :: "go_error \<Rightarrow> go_error option" where
  "Unwrap (Errorf _ e _) = Some e"
| "Unwrap (AgentErr _ _ cause _) = cause"
| "Unwrap _ = None"

definition NewRetriableError :: "string \<Rightarrow> go_error \<Rightarrow> duration \<Rightarrow> go_error" where
  "NewRetriableError nodeID cause retryAfter =
     AgentErr ErrCategoryRetriable nodeID (Some cause) retryAfter"

definition NewFatalError :: "string \<Rightarrow> go_error option \<Rightarrow> go_error" where
  "NewFatalError nodeID cause = AgentErr ErrCategoryFatal nodeID cause 0"

text \<open>\<open>errors.As(err, &ae)\<close>: the first \<open>*AgentError\<close> on the unwrap chain.\<close>

fun errors_As :: "go_error \<Rightarrow> (ErrorCategory \<times> string \<times> go_error option) option" where
  "errors_As (AgentErr c n cause _) = Some (c, n, cause)"
| "errors_As (Errorf _ e _) = errors_As e"
| "errors_As _ = None"

text \<open>\<open>errors.Is(err, sentinel)\<close>: the sentinel is on the unwrap chain.\<close>

fun errors_Is :: "go_error \<Rightarrow> sentinel \<Rightarrow> bool" where
  "errors_Is (Sentinel s) t = (s = t)"
| "errors_Is (Errorf _ e _) t = errors_Is e t"
| "errors_Is (AgentErr _ _ (Some e) _) t = errors_Is e t"
| "errors_Is _ t = False"

definition is_retriable :: "go_error \<Rightarrow> bool" where
  "is_retriable e = (case errors_As e of
     Some (ErrCategoryRetriable, _) \<Rightarrow> True | _ \<Rightarrow> False)"

section \<open>Values of type any\<close>

text \<open>
  The dynamic values the code stores in an \<open>any\<close>: \<open>nil\<close>, booleans, \<open>int\<close>, \<open>float64\<close>
  (as a rational), strings, \<open>[]any\<close>, \<open>map[string]any\<close>, a \<open>*core.ToolCallPart\<close>, a
  \<open>*planner.Plan\<close> (goal and steps of node, actual node, status, observation), an
  \<open>[]interfaces.Tool\<close> (name, description, input schema of each tool), the struct type
  \<open>usage\<close> local to \<open>TokenCounterHook.OnHook\<close>, and a value JSON cannot encode (a function or a
  channel).
\<close>

datatype gany =
    GNil
  | GBool bool
  | GInt int
  | GFloat rat
  | GString string
  | GList "gany list"
  | GMap "(string \<times> gany) list"
  | GToolCall string string "(string \<times> gany) list option"
  | GPlan string "(string \<times> string \<times> string \<times> string) list"
  | GTools "(string \<times> string \<times> string \<times> (string \<times> (string \<times> gany) list) list \<times> string list) list"
  | GUsage int int
  | GFunc

type_synonym gvars = "(string, gany) gomap"

fun as_string :: "gany \<Rightarrow> string option" where
  "as_string (GString s) = Some s"
| "as_string _ = None"

text \<open>\<open>m[key].(string)\<close> with the two-value form: a missing key or another type gives \<open>("", false)\<close>.\<close>

definition map_string :: "gvars \<Rightarrow> string \<Rightarrow> string option" where
  "map_string m k = Option.bind (glookup m k) as_string"

section \<open>Parts and messages (core/part.go, core/message.go, core/artifact.go)\<close>

datatype PartType =
    PartTypeText | PartTypeFile | PartTypeStructuredData | PartTypeToolCall | PartTypeToolResult
  | PartTypeOther string

record FileRef =
  fr_URI :: string
  fr_MIMEType :: string

record ToolCallPart =
  tc_CallID :: string
  tc_ToolName :: string
  tc_Arguments :: "gvars option"

record ToolResultPart =
  tr_CallID :: string
  tr_Result :: string
  tr_IsError :: bool

record Part =
  p_Type :: PartType
  p_Text :: string
  p_File :: "FileRef option"
  p_StructuredData :: "gvars option"
  p_ToolCall :: "ToolCallPart option"
  p_ToolResult :: "ToolResultPart option"

definition zero_Part :: Part where
  "zero_Part = \<lparr>p_Type = PartTypeOther [], p_Text = [], p_File = None,
     p_StructuredData = None, p_ToolCall = None, p_ToolResult = None\<rparr>"

definition text_part :: "string \<Rightarrow> Part" where
  "text_part t = zero_Part\<lparr>p_Type := PartTypeText, p_Text := t\<rparr>"

definition tool_call_part :: "ToolCallPart \<Rightarrow> Part" where
  "tool_call_part c = zero_Part\<lparr>p_Type := PartTypeToolCall, p_ToolCall := Some c\<rparr>"

definition tool_result_part :: "ToolResultPart \<Rightarrow> Part" where
  "tool_result_part r = zero_Part\<lparr>p_Type := PartTypeToolResult, p_ToolResult := Some r\<rparr>"

datatype Role = RoleUser | RoleAssistant | RoleSystem | RoleTool | RoleOther string

fun role_text :: "Role \<Rightarrow> string" where
  "role_text RoleUser = ''User''"
| "role_text RoleAssistant = ''Assistant''"
| "role_text RoleSystem = ''System''"
| "role_text RoleTool = ''Tool''"
| "role_text (RoleOther s) = s"

definition Role_of :: "string \<Rightarrow> Role" where
  "Role_of s = (if s = ''User'' then RoleUser else if s = ''Assistant'' then RoleAssistant
     else if s = ''System'' then RoleSystem else if s = ''Tool'' then RoleTool else RoleOther s)"

record Message =
  m_ID :: string
  m_Role :: Role
  m_Parts :: "Part list"
  m_Timestamp :: time
  m_Metadata :: "gvars option"
  m_ContextID :: string
  m_TaskID :: string

definition zero_Message :: Message where
  "zero_Message = \<lparr>m_ID = [], m_Role = RoleOther [], m_Parts = [], m_Timestamp = 0,
     m_Metadata = None, m_ContextID = [], m_TaskID = []\<rparr>"

text \<open>\<open>Message.Validate\<close>: the loop over the parts with the switch on the role.\<close>

fun part_allowed :: "Role \<Rightarrow> PartType \<Rightarrow> bool" where
  "part_allowed RoleTool t = (t = PartTypeToolResult)"
| "part_allowed RoleAssistant t = (t \<noteq> PartTypeToolResult)"
| "part_allowed RoleSystem t = (t = PartTypeText)"
| "part_allowed RoleUser t = (t \<noteq> PartTypeToolCall \<and> t \<noteq> PartTypeToolResult)"
| "part_allowed (RoleOther _) t = True"

fun Validate_parts :: "Role \<Rightarrow> Part list \<Rightarrow> go_error option" where
  "Validate_parts r [] = None"
| "Validate_parts r (p # ps) =
     (if part_allowed r (p_Type p) then Validate_parts r ps
      else Some (Sentinel ErrInvalidMessageParts))"

definition Validate :: "Message \<Rightarrow> go_error option" where
  "Validate m = Validate_parts (m_Role m) (m_Parts m)"

record Artifact =
  a_ID :: string
  a_Name :: string
  a_Parts :: "Part list"
  a_Metadata :: "gvars option"

definition AppendPart :: "Artifact \<Rightarrow> Part \<Rightarrow> Artifact" where
  "AppendPart a p = a\<lparr>a_Parts := a_Parts a @ [p]\<rparr>"

definition ReplaceParts :: "Artifact \<Rightarrow> Part list \<Rightarrow> Artifact" where
  "ReplaceParts a ps = a\<lparr>a_Parts := ps\<rparr>"

section \<open>The agent state (core/agent\_state.go)\<close>

datatype AgentStatus =
    StatusRunning | StatusPaused | StatusWaitingHuman | StatusCompleted | StatusFailed
  | AgentStatusOther string

fun status_text :: "AgentStatus \<Rightarrow> string" where
  "status_text StatusRunning = ''Running''"
| "status_text StatusPaused = ''Paused''"
| "status_text StatusWaitingHuman = ''WaitingHuman''"
| "status_text StatusCompleted = ''Completed''"
| "status_text StatusFailed = ''Failed''"
| "status_text (AgentStatusOther s) = s"

record AgentState =
  Messages :: "Message list"
  Variables :: "gvars option"
  Artifacts :: "Artifact list"
  StepCount :: int
  RetryCount :: int
  LastNodeID :: string
  Status :: AgentStatus
  CheckpointID :: string
  TaskID :: string
  ContextID :: string

definition NewState :: AgentState where
  "NewState = \<lparr>Messages = [], Variables = Some [], Artifacts = [], StepCount = 0,
     RetryCount = 0, LastNodeID = [], Status = StatusRunning,
     CheckpointID = [], TaskID = [], ContextID = []\<rparr>"

text \<open>Reading a nil map is reading an empty map.\<close>

definition vars :: "AgentState \<Rightarrow> gvars" where
  "vars s = (case Variables s of None \<Rightarrow> [] | Some m \<Rightarrow> m)"

text \<open>
  \<open>clone\<close> copies the scalar fields, the two slices and the map entry by entry into a fresh
  map, which is never nil.
\<close>

definition clone :: "AgentState \<Rightarrow> AgentState" where
  "clone s = \<lparr>Messages = map (\<lambda>m. m) (Messages s),
     Variables = Some (fold (\<lambda>(k, v). gset k v) (vars s) []),
     Artifacts = map (\<lambda>a. a) (Artifacts s),
     StepCount = StepCount s, RetryCount = RetryCount s, LastNodeID = LastNodeID s,
     Status = Status s, CheckpointID = CheckpointID s, TaskID = TaskID s,
     ContextID = ContextID s\<rparr>"

definition WithMessage :: "AgentState \<Rightarrow> Message \<Rightarrow> AgentState" where
  "WithMessage s m = (let ns = clone s in ns\<lparr>Messages := Messages ns @ [m]\<rparr>)"

definition WithVariable :: "AgentState \<Rightarrow> string \<Rightarrow> gany \<Rightarrow> AgentState" where
  "WithVariable s key v = (let ns = clone s in ns\<lparr>Variables := Some (gset key v (vars ns))\<rparr>)"

definition WithStatus :: "AgentState \<Rightarrow> AgentStatus \<Rightarrow> AgentState" where
  "WithStatus s st = (let ns = clone s in ns\<lparr>Status := st\<rparr>)"

definition LastMessage :: "AgentState \<Rightarrow> Message" where
  "LastMessage s = (if Messages s = [] then zero_Message else last (Messages s))"

definition GetStringVariable :: "AgentState \<Rightarrow> string \<Rightarrow> string \<times> go_error option" where
  "GetStringVariable s key = (case glookup (vars s) key of
     None \<Rightarrow> ([], Some (Sentinel ErrVariableNotFound))
   | Some v \<Rightarrow> (case as_string v of
       None \<Rightarrow> ([], Some (Sentinel ErrVariableNotFound))
     | Some str \<Rightarrow> (str, None)))"

text \<open>A state's variable map is a Go map: its keys are distinct.\<close>

definition state_ok :: "AgentState \<Rightarrow> bool" where
  "state_ok s \<longleftrightarrow> gomap_ok (vars s)"

section \<open>Tasks (core/task.go)\<close>

datatype TaskState =
    TaskStateSubmitted | TaskStateWorking | TaskStateInputRequired | TaskStateAuthRequired
  | TaskStateCompleted | TaskStateFailed | TaskStateCanceled | TaskStateRejected
  | TaskStateOther string

fun task_state_text :: "TaskState \<Rightarrow> string" where
  "task_state_text TaskStateSubmitted = ''submitted''"
| "task_state_text TaskStateWorking = ''working''"
| "task_state_text TaskStateInputRequired = ''input_required''"
| "task_state_text TaskStateAuthRequired = ''auth_required''"
| "task_state_text TaskStateCompleted = ''completed''"
| "task_state_text TaskStateFailed = ''failed''"
| "task_state_text TaskStateCanceled = ''canceled''"
| "task_state_text TaskStateRejected = ''rejected''"
| "task_state_text (TaskStateOther s) = s"

record WebhookConfig =
  wh_ID :: string
  wh_URL :: string
  wh_Secret :: string
  wh_EventTypes :: "string list"
  wh_Headers :: "(string, string) gomap"

record TaskStatus =
  ts_State :: TaskState
  ts_Timestamp :: time
  ts_Message :: string

record Task =
  t_ID :: string
  t_ContextID :: string
  t_TenantID :: string
  t_Status :: TaskStatus
  t_History :: "Message list"
  t_Artifacts :: "Artifact list"
  t_Webhooks :: "WebhookConfig list"
  t_Metadata :: "gvars option"
  t_CreatedAt :: time
  t_UpdatedAt :: time

fun MapAgentStatusToTaskState :: "AgentStatus \<Rightarrow> TaskState" where
  "MapAgentStatusToTaskState StatusRunning = TaskStateWorking"
| "MapAgentStatusToTaskState StatusPaused = TaskStateInputRequired"
| "MapAgentStatusToTaskState StatusWaitingHuman = TaskStateInputRequired"
| "MapAgentStatusToTaskState StatusCompleted = TaskStateCompleted"
| "MapAgentStatusToTaskState StatusFailed = TaskStateFailed"
| "MapAgentStatusToTaskState (AgentStatusOther _) = TaskStateWorking"

section \<open>Contexts (core/context.go and the context values the code reads)\<close>

text \<open>
  The values carried by a \<open>context.Context\<close> that the code looks up: \<open>"tenantID"\<close>,
  \<open>"scopes"\<close> and \<open>core.SessionContextKey\<close> (\<open>None\<close> means that the value is absent or has
  another dynamic type), and its deadline.
\<close>

record Ctx =
  ctx_tenantID :: "string option"
  ctx_scopes :: "string list option"
  ctx_session :: "string option"
  ctx_deadline :: "time option"

definition Background :: Ctx where
  "Background = \<lparr>ctx_tenantID = None, ctx_scopes = None, ctx_session = None,
     ctx_deadline = None\<rparr>"

text \<open>
  \<open>ExecutionContext\<close>: the deadline of its embedded context (\<open>None\<close>: no deadline), whether it
  has been cancelled, and the routing fields.
\<close>

record ExecutionContext =
  ec_Deadline :: "time option"
  ec_Cancelled :: bool
  ec_TraceID :: string
  ec_SpanID :: string
  ec_TenantID :: string
  ec_SessionID :: string
  ec_Metadata :: gvars

text \<open>\<open>context.WithTimeout\<close>: the earlier of the parent's deadline and now plus the timeout.\<close>

definition with_timeout :: "time option \<Rightarrow> time \<Rightarrow> duration \<Rightarrow> time option" where
  "with_timeout parent now timeout = (case parent of
     None \<Rightarrow> Some (now + timeout) | Some d \<Rightarrow> Some (min d (now + timeout)))"

definition NewContext ::
  "time option \<Rightarrow> bool \<Rightarrow> time \<Rightarrow> string \<Rightarrow> duration \<Rightarrow> go_error + ExecutionContext" where
  "NewContext parent_deadline parent_cancelled now tenantID timeout =
     (if tenantID = [] then Inl (Sentinel ErrMissingTenantID)
      else Inr \<lparr>ec_Deadline = with_timeout parent_deadline now timeout,
        ec_Cancelled = parent_cancelled, ec_TraceID = [], ec_SpanID = [],
        ec_TenantID = tenantID, ec_SessionID = [], ec_Metadata = []\<rparr>)"

definition Derive :: "ExecutionContext \<Rightarrow> time \<Rightarrow> duration \<Rightarrow> ExecutionContext" where
  "Derive c now timeout = \<lparr>
     ec_Deadline = (if 0 < timeout then with_timeout (ec_Deadline c) now timeout
                    else ec_Deadline c),
     ec_Cancelled = ec_Cancelled c, ec_TraceID = ec_TraceID c, ec_SpanID = ec_SpanID c,
     ec_TenantID = ec_TenantID c, ec_SessionID = ec_SessionID c,
     ec_Metadata = fold (\<lambda>(k, v). gset k v) (ec_Metadata c) []\<rparr>"

definition Cancel :: "ExecutionContext \<Rightarrow> ExecutionContext" where
  "Cancel c = c\<lparr>ec_Cancelled := True\<rparr>"

section \<open>Lemmas: copy-on-write\<close>

lemma gset_fresh: "k \<notin> set (gkeys m) \<Longrightarrow> gset k v m = m @ [(k, v)]"
  by (induction m) auto

lemma fold_gset_append:
  "gomap_ok (acc @ m) \<Longrightarrow> fold (\<lambda>(k, v). gset k v) m acc = acc @ m"
proof (induction m arbitrary: acc)
  case Nil
  then show ?case by simp
next
  case (Cons kv m)
  obtain k v where kv: "kv = (k, v)" by (cases kv)
  with Cons.prems have "gset k v acc = acc @ [(k, v)]"
    by (intro gset_fresh) auto
  moreover from Cons.prems kv have "gomap_ok ((acc @ [(k, v)]) @ m)" by simp
  ultimately show ?case using Cons.IH kv by simp
qed

lemma gomap_copy: "gomap_ok m \<Longrightarrow> fold (\<lambda>(k, v). gset k v) m [] = m"
  by (simp add: fold_gset_append)

lemma gomap_ok_fold_gset: "gomap_ok acc \<Longrightarrow> gomap_ok (fold (\<lambda>(k, v). gset k v) m acc)"
  by (induction m arbitrary: acc) auto

lemma clone_fields [simp]:
  "Messages (clone s) = Messages s" "Artifacts (clone s) = Artifacts s"
  "StepCount (clone s) = StepCount s" "RetryCount (clone s) = RetryCount s"
  "LastNodeID (clone s) = LastNodeID s" "Status (clone s) = Status s"
  "CheckpointID (clone s) = CheckpointID s" "TaskID (clone s) = TaskID s"
  "ContextID (clone s) = ContextID s"
  by (simp_all add: clone_def)

lemma WithStatus_fields [simp]:
  "Messages (WithStatus s st) = Messages s" "Artifacts (WithStatus s st) = Artifacts s"
  "StepCount (WithStatus s st) = StepCount s" "RetryCount (WithStatus s st) = RetryCount s"
  "LastNodeID (WithStatus s st) = LastNodeID s" "Status (WithStatus s st) = st"
  "CheckpointID (WithStatus s st) = CheckpointID s" "TaskID (WithStatus s st) = TaskID s"
  "ContextID (WithStatus s st) = ContextID s"
  by (simp_all add: WithStatus_def Let_def)

lemma WithVariable_fields [simp]:
  "Messages (WithVariable s k v) = Messages s" "Artifacts (WithVariable s k v) = Artifacts s"
  "StepCount (WithVariable s k v) = StepCount s" "RetryCount (WithVariable s k v) = RetryCount s"
  "LastNodeID (WithVariable s k v) = LastNodeID s" "Status (WithVariable s k v) = Status s"
  "CheckpointID (WithVariable s k v) = CheckpointID s" "TaskID (WithVariable s k v) = TaskID s"
  "ContextID (WithVariable s k v) = ContextID s"
  by (simp_all add: WithVariable_def Let_def)

lemma WithMessage_fields [simp]:
  "Messages (WithMessage s m) = Messages s @ [m]" "Artifacts (WithMessage s m) = Artifacts s"
  "StepCount (WithMessage s m) = StepCount s" "RetryCount (WithMessage s m) = RetryCount s"
  "LastNodeID (WithMessage s m) = LastNodeID s" "Status (WithMessage s m) = Status s"
  "CheckpointID (WithMessage s m) = CheckpointID s" "TaskID (WithMessage s m) = TaskID s"
  "ContextID (WithMessage s m) = ContextID s"
  by (simp_all add: WithMessage_def Let_def)

lemma vars_clone: "vars (clone s) = fold (\<lambda>(k, v). gset k v) (vars s) []"
  by (simp add: clone_def vars_def)

lemma state_ok_clone [simp, intro]: "state_ok (clone s)"
  unfolding state_ok_def vars_clone by (rule gomap_ok_fold_gset) simp

lemma vars_clone_ok: "state_ok s \<Longrightarrow> vars (clone s) = vars s"
  by (simp add: vars_clone state_ok_def gomap_copy)

lemma Variables_clone [simp]: "Variables (clone s) \<noteq> None"
  by (simp add: clone_def)

lemma vars_WithStatus [simp]: "vars (WithStatus s st) = vars (clone s)"
  by (simp add: WithStatus_def Let_def vars_def)

lemma vars_WithMessage [simp]: "vars (WithMessage s m) = vars (clone s)"
  by (simp add: WithMessage_def Let_def vars_def)

lemma vars_WithVariable [simp]: "vars (WithVariable s k v) = gset k v (vars (clone s))"
  by (simp add: WithVariable_def Let_def vars_def)

lemma state_ok_With [simp, intro]:
  "state_ok (WithStatus s st)" "state_ok (WithMessage s m)" "state_ok (WithVariable s k v)"
  using state_ok_clone [of s] by (simp_all add: state_ok_def)

lemma NewState_ok [simp]: "state_ok NewState"
  by (simp add: state_ok_def vars_def NewState_def)

lemma NewState_fields [simp]:
  "Messages NewState = []" "vars NewState = []" "Artifacts NewState = []" "StepCount NewState = 0"
  "RetryCount NewState = 0" "LastNodeID NewState = []" "Status NewState = StatusRunning"
  "CheckpointID NewState = []" "TaskID NewState = []" "ContextID NewState = []"
  by (simp_all add: NewState_def vars_def)

text \<open>A clone of a well-formed state is the same state, with a map that is not nil.\<close>

lemma clone_eq: "state_ok s \<Longrightarrow> clone s = s\<lparr>Variables := Some (vars s)\<rparr>"
  by (cases s) (auto simp: clone_def state_ok_def gomap_copy)

lemma WithStatus_eq:
  "state_ok s \<Longrightarrow> WithStatus s st = s\<lparr>Variables := Some (vars s), Status := st\<rparr>"
  by (simp add: WithStatus_def Let_def clone_eq)

lemma WithStatus_idem: "WithStatus (WithStatus s a) b = WithStatus s b"
proof -
  have "state_ok (WithStatus s a)" by simp
  then have "WithStatus (WithStatus s a) b
      = (WithStatus s a)\<lparr>Variables := Some (vars (WithStatus s a)), Status := b\<rparr>"
    by (rule WithStatus_eq)
  then show ?thesis by (simp add: WithStatus_def Let_def clone_def vars_def)
qed

lemma map_string_gset [simp]:
  "map_string (gset k v m) k' = (if k' = k then as_string v else map_string m k')"
  by (simp add: map_string_def)

lemma GetStringVariable_conv:
  "GetStringVariable s key = (case map_string (vars s) key of
     None \<Rightarrow> ([], Some (Sentinel ErrVariableNotFound)) | Some str \<Rightarrow> (str, None))"
  by (simp add: GetStringVariable_def map_string_def split: option.splits)

lemma Validate_parts_None: "Validate_parts r ps = None \<longleftrightarrow> (\<forall>p \<in> set ps. part_allowed r (p_Type p))"
  by (induction ps) auto

lemma Role_of_text [simp]: "Role_of ''User'' = RoleUser" "Role_of ''Assistant'' = RoleAssistant"
  "Role_of ''System'' = RoleSystem" "Role_of ''Tool'' = RoleTool"
  by (simp_all add: Role_of_def)

lemma role_text_Role_of [simp]: "role_text (Role_of s) = s"
  by (simp add: Role_of_def)

lemma errors_As_wrap [simp]: "errors_As (NewFatalError n c) = Some (ErrCategoryFatal, n, c)"
  "errors_As (NewRetriableError n c' d) = Some (ErrCategoryRetriable, n, Some c')"
  by (simp_all add: NewFatalError_def NewRetriableError_def)

lemma not_retriable_fatal [simp]: "\<not> is_retriable (NewFatalError n c)"
  by (simp add: is_retriable_def)

section \<open>Properties of the domain model\<close>

text \<open>
  The copy-on-write operations of the agent state. On a well-formed state \<open>WithVariable\<close>
  binds exactly the given key, \<open>WithMessage\<close> appends exactly one message and keeps the
  variables, \<open>WithStatus\<close> changes nothing but the status; a string stored under a key is what
  \<open>GetStringVariable\<close> reads back, and a non-string value is reported as
  \<open>ErrVariableNotFound\<close>.
\<close>

theorem agent_state_copy_on_write:
  assumes "state_ok s"
  shows "glookup (vars (WithVariable s k v)) = (glookup (vars s))(k \<mapsto> v)
    \<and> vars (WithMessage s m) = vars s \<and> LastMessage (WithMessage s m) = m
    \<and> butlast (Messages (WithMessage s m)) = Messages s
    \<and> WithStatus s st = s\<lparr>Variables := Some (vars s), Status := st\<rparr>
    \<and> GetStringVariable (WithVariable s k (GString str)) k = (str, None)
    \<and> GetStringVariable (WithVariable s k (GInt n)) k = ([], Some (Sentinel ErrVariableNotFound))"
  using assms
  by (auto simp: vars_clone_ok LastMessage_def WithStatus_eq GetStringVariable_conv)

theorem agent_state_copy_on_write_witness:
  "glookup (vars (WithVariable NewState ''k'' (GInt 1))) = [''k'' \<mapsto> GInt 1]
   \<and> GetStringVariable (WithVariable NewState ''k'' (GString ''v'')) ''k'' = (''v'', None)"
  using agent_state_copy_on_write [OF NewState_ok, of "''k''" "GInt 1" zero_Message StatusFailed "''v''" 0]
  by simp

text \<open>
  A derived execution context keeps the tenant, session and trace of its parent, copies
  its metadata, and can never outlive it: whatever timeout is asked for, the child's deadline
  is at most the parent's.
\<close>

theorem derive_inherits_and_never_outlives:
  assumes "gomap_ok (ec_Metadata c)" and "ec_Deadline c = Some d"
  shows "ec_TenantID (Derive c now timeout) = ec_TenantID c
    \<and> ec_SessionID (Derive c now timeout) = ec_SessionID c
    \<and> ec_TraceID (Derive c now timeout) = ec_TraceID c
    \<and> ec_Metadata (Derive c now timeout) = ec_Metadata c
    \<and> (\<exists>d'. ec_Deadline (Derive c now timeout) = Some d' \<and> d' \<le> d)"
  using assms by (simp add: Derive_def with_timeout_def gomap_copy)

theorem derive_inherits_and_never_outlives_witness:
  "\<exists>c d'. NewContext None False 0 ''acme'' 100 = Inr c
    \<and> ec_TenantID (Derive c 10 500) = ''acme''
    \<and> ec_Deadline (Derive c 10 500) = Some d' \<and> d' \<le> 100"
proof -
  let ?c = "\<lparr>ec_Deadline = Some 100, ec_Cancelled = False, ec_TraceID = [], ec_SpanID = [],
    ec_TenantID = ''acme'', ec_SessionID = [], ec_Metadata = []\<rparr>"
  have "NewContext None False 0 ''acme'' 100 = Inr ?c"
    by (simp add: NewContext_def with_timeout_def)
  moreover have "gomap_ok (ec_Metadata ?c)" "ec_Deadline ?c = Some 100" by simp_all
  ultimately show ?thesis
    using derive_inherits_and_never_outlives [of ?c 100 10 500] by auto
qed

end
