(* ===== verification/Json_Model.thy ===== *)
theory Json_Model
  imports Core_Model
begin

text \<open>
  What a round trip through \<open>encoding/json\<close> does to the values the stores persist. The
  document of a struct is represented by the struct value whose \<open>any\<close> leaves are in the form
  that decoding into \<open>any\<close> produces: \<open>nil\<close>, \<open>bool\<close>, \<open>float64\<close>, \<open>string\<close>,
  \<open>[]any\<close> and \<open>map[string]any\<close>. So an \<open>int\<close> comes back as the nearest \<open>float64\<close>, and a
  pointer to a struct (a tool call, a plan) comes back as a map. Encoding fails where the value
  holds a function or a channel. Strings are taken to be valid UTF-8.
\<close>

fun json_any :: "gany \<Rightarrow> gany" where
  "json_any GNil = GNil"
| "json_any (GBool b) = GBool b"
| "json_any (GInt n) = GFloat (of_int (f64_of_int n))"
| "json_any (GFloat r) = GFloat r"
| "json_any (GString s) = GString s"
| "json_any (GList xs) = GList (map json_any xs)"
| "json_any (GMap m) = GMap (map (\<lambda>kv. (fst kv, json_any (snd kv))) m)"
| "json_any (GToolCall c t args) = GMap [(''CallID'', GString c), (''ToolName'', GString t),
     (''Arguments'', (case args of None \<Rightarrow> GNil
        | Some m \<Rightarrow> GMap (map (\<lambda>kv. (fst kv, json_any (snd kv))) m)))]"
| "json_any (GPlan g steps) = GMap [(''Goal'', GString g),
     (''Steps'', GList (map (\<lambda>(n, a, st, obs). GMap [(''NodeID'', GString n),
        (''ActualNodeID'', GString a), (''Status'', GString st),
        (''Observation'', GString obs)]) steps))]"
| "json_any (GTools ts) = GList (map (\<lambda>_. GMap []) ts)"
| "json_any (GUsage i u) = GMap [(''In'', GFloat (of_int (f64_of_int i))),
     (''Out'', GFloat (of_int (f64_of_int u)))]"
| "json_any GFunc = GFunc"

text \<open>Whether \<open>json.Marshal\<close> accepts a value.\<close>

fun json_ok :: "gany \<Rightarrow> bool" where
  "json_ok GFunc = False"
| "json_ok (GList xs) = (\<forall>x \<in> set xs. json_ok x)"
| "json_ok (GMap m) = (\<forall>kv \<in> set m. json_ok (snd kv))"
| "json_ok (GToolCall c t (Some m)) = (\<forall>kv \<in> set m. json_ok (snd kv))"
| "json_ok _ = True"

definition json_vars :: "gvars \<Rightarrow> gvars" where
  "json_vars m = map (\<lambda>(k, v). (k, json_any v)) m"

definition vars_json_ok :: "gvars option \<Rightarrow> bool" where
  "vars_json_ok mo = (case mo of None \<Rightarrow> True | Some m \<Rightarrow> \<forall>kv \<in> set m. json_ok (snd kv))"

text \<open>An empty map under \<open>omitempty\<close> is left out and comes back nil.\<close>

definition omitempty :: "gvars option \<Rightarrow> gvars option" where
  "omitempty mo = (case mo of Some [] \<Rightarrow> None | _ \<Rightarrow> mo)"

definition json_part :: "Part \<Rightarrow> Part" where
  "json_part p = p\<lparr>
     p_StructuredData := map_option json_vars (omitempty (p_StructuredData p)),
     p_ToolCall := map_option (\<lambda>c. c\<lparr>tc_Arguments := map_option json_vars (tc_Arguments c)\<rparr>)
       (p_ToolCall p)\<rparr>"

definition part_json_ok :: "Part \<Rightarrow> bool" where
  "part_json_ok p \<longleftrightarrow> vars_json_ok (p_StructuredData p)
     \<and> (case p_ToolCall p of None \<Rightarrow> True | Some c \<Rightarrow> vars_json_ok (tc_Arguments c))"

definition json_message :: "Message \<Rightarrow> Message" where
  "json_message m = m\<lparr>m_Parts := map json_part (m_Parts m),
     m_Metadata := map_option json_vars (m_Metadata m)\<rparr>"

definition message_json_ok :: "Message \<Rightarrow> bool" where
  "message_json_ok m \<longleftrightarrow> (\<forall>p \<in> set (m_Parts m). part_json_ok p) \<and> vars_json_ok (m_Metadata m)"

definition json_artifact :: "Artifact \<Rightarrow> Artifact" where
  "json_artifact a = a\<lparr>a_Parts := map json_part (a_Parts a),
     a_Metadata := map_option json_vars (a_Metadata a)\<rparr>"

definition artifact_json_ok :: "Artifact \<Rightarrow> bool" where
  "artifact_json_ok a \<longleftrightarrow> (\<forall>p \<in> set (a_Parts a). part_json_ok p) \<and> vars_json_ok (a_Metadata a)"

definition json_state :: "AgentState \<Rightarrow> AgentState" where
  "json_state s = s\<lparr>Messages := map json_message (Messages s),
     Variables := map_option json_vars (Variables s),
     Artifacts := map json_artifact (Artifacts s)\<rparr>"

definition state_json_ok :: "AgentState \<Rightarrow> bool" where
  "state_json_ok s \<longleftrightarrow> (\<forall>m \<in> set (Messages s). message_json_ok m)
     \<and> vars_json_ok (Variables s) \<and> (\<forall>a \<in> set (Artifacts s). artifact_json_ok a)"

definition json_task :: "Task \<Rightarrow> Task" where
  "json_task t = t\<lparr>t_History := map json_message (t_History t),
     t_Artifacts := map json_artifact (t_Artifacts t),
     t_Metadata := map_option json_vars (omitempty (t_Metadata t))\<rparr>"

definition task_json_ok :: "Task \<Rightarrow> bool" where
  "task_json_ok t \<longleftrightarrow> (\<forall>m \<in> set (t_History t). message_json_ok m)
     \<and> (\<forall>a \<in> set (t_Artifacts t). artifact_json_ok a) \<and> vars_json_ok (t_Metadata t)"

definition marshal_error :: go_error where
  "marshal_error = ErrorText ''json: unsupported type''"

text \<open>\<open>json.Marshal\<close> of a state, a task, a message and an artifact.\<close>

definition marshal_state :: "AgentState \<Rightarrow> go_error + AgentState" where
  "marshal_state s = (if state_json_ok s then Inr (json_state s) else Inl marshal_error)"

definition marshal_task :: "Task \<Rightarrow> go_error + Task" where
  "marshal_task t = (if task_json_ok t then Inr (json_task t) else Inl marshal_error)"

definition marshal_message :: "Message \<Rightarrow> go_error + Message" where
  "marshal_message m = (if message_json_ok m then Inr (json_message m) else Inl marshal_error)"

definition marshal_artifact :: "Artifact \<Rightarrow> go_error + Artifact" where
  "marshal_artifact a = (if artifact_json_ok a then Inr (json_artifact a) else Inl marshal_error)"

section \<open>Lemmas: decoding is idempotent\<close>

lemma json_any_idem [simp]: "json_any (json_any v) = json_any v"
  by (induction v rule: json_any.induct)
    (auto simp: f64_of_int_exact split: option.splits)

lemma json_ok_json_any [simp]: "json_ok v \<Longrightarrow> json_ok (json_any v)"
proof (induction v rule: json_any.induct)
  case (8 c t args)
  then show ?case by (cases args) fastforce+
qed (fastforce split: option.splits)+

lemma json_vars_idem [simp]: "json_vars (json_vars m) = json_vars m"
  by (simp add: json_vars_def case_prod_unfold)

lemma glookup_json_vars [simp]: "glookup (json_vars m) k = map_option json_any (glookup m k)"
  by (simp add: json_vars_def)

lemma gkeys_json_vars [simp]: "gkeys (json_vars m) = gkeys m"
  by (simp add: json_vars_def case_prod_unfold)

lemma json_vars_Nil_iff [simp]: "json_vars m = [] \<longleftrightarrow> m = []"
  by (simp add: json_vars_def)

lemma omitempty_json_vars [simp]:
  "omitempty (map_option json_vars (omitempty mo)) = map_option json_vars (omitempty mo)"
  by (auto simp: omitempty_def split: option.splits list.splits)

lemma json_part_idem [simp]: "json_part (json_part p) = json_part p"
  by (simp add: json_part_def option.map_comp comp_def)

lemma json_message_idem [simp]: "json_message (json_message m) = json_message m"
  by (simp add: json_message_def option.map_comp comp_def)

lemma json_artifact_idem [simp]: "json_artifact (json_artifact a) = json_artifact a"
  by (simp add: json_artifact_def option.map_comp comp_def)

lemma json_state_idem [simp]: "json_state (json_state s) = json_state s"
  by (simp add: json_state_def option.map_comp comp_def)

lemma json_task_idem [simp]: "json_task (json_task t) = json_task t"
  by (simp add: json_task_def option.map_comp comp_def)

lemma json_state_fields [simp]:
  "StepCount (json_state s) = StepCount s" "RetryCount (json_state s) = RetryCount s"
  "LastNodeID (json_state s) = LastNodeID s" "Status (json_state s) = Status s"
  "CheckpointID (json_state s) = CheckpointID s" "TaskID (json_state s) = TaskID s"
  "ContextID (json_state s) = ContextID s"
  "Messages (json_state s) = map json_message (Messages s)"
  "Artifacts (json_state s) = map json_artifact (Artifacts s)"
  by (simp_all add: json_state_def)

lemma vars_json_state [simp]: "vars (json_state s) = json_vars (vars s)"
  by (simp add: json_state_def vars_def json_vars_def split: option.splits)

lemma json_task_fields [simp]:
  "t_ID (json_task t) = t_ID t" "t_ContextID (json_task t) = t_ContextID t"
  "t_TenantID (json_task t) = t_TenantID t" "t_Status (json_task t) = t_Status t"
  "t_Webhooks (json_task t) = t_Webhooks t" "t_CreatedAt (json_task t) = t_CreatedAt t"
  "t_UpdatedAt (json_task t) = t_UpdatedAt t"
  "t_History (json_task t) = map json_message (t_History t)"
  "t_Artifacts (json_task t) = map json_artifact (t_Artifacts t)"
  by (simp_all add: json_task_def)

lemma state_ok_json_state [simp]: "state_ok (json_state s) = state_ok s"
  by (simp add: state_ok_def)

lemma map_string_json_vars [simp]: "as_string (json_any v) = as_string v"
  by (cases v) auto

lemma map_string_json [simp]: "map_string (json_vars m) k = map_string m k"
  by (simp add: map_string_def split: option.splits) (cases "glookup m k"; simp)

lemma GetStringVariable_json [simp]: "GetStringVariable (json_state s) k = GetStringVariable s k"
  by (simp add: GetStringVariable_conv)

text \<open>Encoding a decoded document succeeds again.\<close>

lemma vars_json_ok_json [simp]:
  "vars_json_ok mo \<Longrightarrow> vars_json_ok (map_option json_vars mo)"
  by (auto simp: vars_json_ok_def json_vars_def split: option.splits)

lemma vars_json_ok_omitempty [simp]: "vars_json_ok mo \<Longrightarrow> vars_json_ok (omitempty mo)"
  by (auto simp: vars_json_ok_def omitempty_def split: option.splits list.splits)

lemma part_json_ok_json [simp]: "part_json_ok p \<Longrightarrow> part_json_ok (json_part p)"
  by (auto simp: part_json_ok_def json_part_def split: option.splits)

lemma message_json_ok_json [simp]: "message_json_ok m \<Longrightarrow> message_json_ok (json_message m)"
  by (auto simp: message_json_ok_def json_message_def)

lemma artifact_json_ok_json [simp]: "artifact_json_ok a \<Longrightarrow> artifact_json_ok (json_artifact a)"
  by (auto simp: artifact_json_ok_def json_artifact_def)

lemma state_json_ok_json [simp]: "state_json_ok s \<Longrightarrow> state_json_ok (json_state s)"
  unfolding state_json_ok_def json_state_def by auto

lemma task_json_ok_json [simp]: "task_json_ok t \<Longrightarrow> task_json_ok (json_task t)"
  unfolding task_json_ok_def json_task_def by auto

lemma marshal_state_cases:
  "marshal_state s = Inr d \<longleftrightarrow> state_json_ok s \<and> d = json_state s"
  by (auto simp: marshal_state_def)

lemma marshal_task_cases:
  "marshal_task t = Inr d \<longleftrightarrow> task_json_ok t \<and> d = json_task t"
  by (auto simp: marshal_task_def)

end
