(* ===== verification/Interfaces.thy ===== *)
theory Interfaces
  imports Json_Model
begin

text \<open>
  The interfaces of package \<open>interfaces\<close>: an interface value is a record of operations over a
  world \<open>'w\<close>, which each operation takes and returns. The contracts one component relies on
  when it calls another are locales: \<open>memory_store\<close> (what \<open>Save\<close>, \<open>Load\<close> and
  \<open>LoadCheckpoint\<close> promise each other) and \<open>task_store\<close>. They are interpreted on the stores
  of the program, in the theories that model them.
\<close>

section \<open>Nodes (interfaces/node.go)\<close>

datatype InterruptType =
  InterruptHumanApproval | InterruptInputRequired | InterruptExternalEvent | InterruptOther string

record InterruptSignal =
  is_Type :: InterruptType
  is_Payload :: "gvars option"
  is_ResumeKey :: string

text \<open>
  The state pointer of a node's result: nil, the very pointer the node was given (so that the
  engine and the node share one object), or a state of its own.
\<close>

datatype state_ref = RNil | RSame | RNew AgentState

record NodeResult =
  nr_State :: state_ref
  nr_NextNodes :: "string list"
  nr_Interrupt :: "InterruptSignal option"

text \<open>
  \<open>Process\<close> gets a pointer to the state. Its result is the state behind that pointer when it
  returns (a node may write to it), and either an error or a result pointer.
\<close>

record 'w Node =
  n_ID :: string
  n_Process :: "Ctx \<Rightarrow> AgentState \<Rightarrow> 'w \<Rightarrow> (AgentState \<times> (go_error + NodeResult option)) \<times> 'w"

section \<open>Memory stores (interfaces/memory.go)\<close>

record CheckpointMeta =
  ck_CheckpointID :: string
  ck_SessionID :: string
  ck_CreatedAt :: time

record 'w MemoryStore =
  ms_Save :: "Ctx \<Rightarrow> string \<Rightarrow> AgentState \<Rightarrow> 'w \<Rightarrow> (go_error + string) \<times> 'w"
  ms_Load :: "Ctx \<Rightarrow> string \<Rightarrow> 'w \<Rightarrow> (go_error + AgentState) \<times> 'w"
  ms_LoadCheckpoint :: "Ctx \<Rightarrow> string \<Rightarrow> 'w \<Rightarrow> (go_error + AgentState) \<times> 'w"
  ms_ListCheckpoints :: "Ctx \<Rightarrow> string \<Rightarrow> 'w \<Rightarrow> (go_error + CheckpointMeta list) \<times> 'w"
  ms_AppendMessages :: "Ctx \<Rightarrow> string \<Rightarrow> Message list \<Rightarrow> 'w \<Rightarrow> go_error option \<times> 'w"
  ms_Search :: "Ctx \<Rightarrow> string \<Rightarrow> string \<Rightarrow> int \<Rightarrow> 'w \<Rightarrow> (go_error + Message list) \<times> 'w"

section \<open>Task stores (interfaces/task.go)\<close>

record 'w TaskStore =
  tk_Create :: "Ctx \<Rightarrow> Task \<Rightarrow> 'w \<Rightarrow> go_error option \<times> 'w"
  tk_GetByID :: "Ctx \<Rightarrow> string \<Rightarrow> 'w \<Rightarrow> (go_error + Task) \<times> 'w"
  tk_UpdateStatus :: "Ctx \<Rightarrow> string \<Rightarrow> TaskStatus \<Rightarrow> 'w \<Rightarrow> go_error option \<times> 'w"
  tk_AppendMessage :: "Ctx \<Rightarrow> string \<Rightarrow> Message \<Rightarrow> 'w \<Rightarrow> go_error option \<times> 'w"
  tk_AppendArtifact :: "Ctx \<Rightarrow> string \<Rightarrow> Artifact \<Rightarrow> 'w \<Rightarrow> go_error option \<times> 'w"
  tk_AddWebhook :: "Ctx \<Rightarrow> string \<Rightarrow> WebhookConfig \<Rightarrow> 'w \<Rightarrow> go_error option \<times> 'w"
  tk_ListByContextID :: "Ctx \<Rightarrow> string \<Rightarrow> 'w \<Rightarrow> (go_error + Task list) \<times> 'w"
  tk_ListByTenantID :: "Ctx \<Rightarrow> string \<Rightarrow> int \<Rightarrow> string \<Rightarrow> 'w \<Rightarrow> (go_error + Task list \<times> string) \<times> 'w"

section \<open>Events (interfaces/eventbus.go)\<close>

datatype EventType =
    EventAgentPaused | EventAgentResumed | EventTaskCompleted
  | EventNodeStarted | EventNodeCompleted | EventToolCalled
  | EventOther string

fun event_text :: "EventType \<Rightarrow> string" where
  "event_text EventAgentPaused = ''AgentPaused''"
| "event_text EventAgentResumed = ''AgentResumed''"
| "event_text EventTaskCompleted = ''TaskCompleted''"
| "event_text EventNodeStarted = ''NodeStarted''"
| "event_text EventNodeCompleted = ''NodeCompleted''"
| "event_text EventToolCalled = ''ToolCalled''"
| "event_text (EventOther s) = s"

record Event =
  ev_Type :: EventType
  ev_SessionID :: string
  ev_TaskID :: string
  ev_Payload :: "gvars option"
  ev_Timestamp :: time

text \<open>The one operation of an event bus that the engine calls.\<close>

record 'w EventBus =
  eb_Publish :: "Event \<Rightarrow> 'w \<Rightarrow> go_error option \<times> 'w"

section \<open>The runtime: clock, random numbers and timers\<close>

text \<open>
  \<open>time.Now\<close>, \<open>rand.Float64\<close> and a wait for a timer or for the context's \<open>Done\<close>
  channel, whichever fires first (\<open>Some err\<close>: the context was done).
\<close>

record 'w Runtime =
  rt_Now :: "'w \<Rightarrow> time \<times> 'w"
  rt_Rand :: "'w \<Rightarrow> rat \<times> 'w"
  rt_Wait :: "Ctx \<Rightarrow> duration \<Rightarrow> 'w \<Rightarrow> go_error option \<times> 'w"

section \<open>Run-time panics\<close>

text \<open>\<open>PanicError\<close> is an explicit \<open>panic(err)\<close> of a library.\<close>

datatype gopanic = NilDereference | SliceOutOfRange | NilMapWrite | TypeAssertion | SendOnClosed | PanicError go_error

section \<open>The contract of a memory store\<close>

text \<open>
  What the engine and the inspector rely on. \<open>sep ctx sid sid'\<close> says that two session ids are
  kept apart by the store under the context's tenant. Reading does not change the world. A
  successful \<open>Save\<close> is what \<open>Load\<close> and \<open>LoadCheckpoint\<close> return next, up to the JSON form
  of the values, and it leaves other sessions alone; an unsuccessful one leaves every session
  alone.
\<close>

locale memory_store =
  fixes M :: "'w MemoryStore"
    and inv :: "'w \<Rightarrow> bool"
    and sep :: "Ctx \<Rightarrow> string \<Rightarrow> string \<Rightarrow> bool"
  assumes save_inv: "inv w \<Longrightarrow> inv (snd (ms_Save M ctx sid s w))"
    and load_pure: "inv w \<Longrightarrow> snd (ms_Load M ctx sid w) = w"
    and load_checkpoint_pure: "inv w \<Longrightarrow> snd (ms_LoadCheckpoint M ctx ck w) = w"
    and load_after_save:
      "inv w \<Longrightarrow> ms_Save M ctx sid s w = (Inr ck, w')
        \<Longrightarrow> fst (ms_Load M ctx sid w') = Inr (json_state s)"
    and checkpoint_after_save:
      "inv w \<Longrightarrow> ms_Save M ctx sid s w = (Inr ck, w')
        \<Longrightarrow> fst (ms_LoadCheckpoint M ctx ck w') = Inr (json_state s)"
    and save_other_session:
      "inv w \<Longrightarrow> sep ctx sid sid'
        \<Longrightarrow> fst (ms_Load M ctx sid' (snd (ms_Save M ctx sid s w))) = fst (ms_Load M ctx sid' w)"
    and failed_save:
      "inv w \<Longrightarrow> ms_Save M ctx sid s w = (Inl e, w')
        \<Longrightarrow> fst (ms_Load M ctx sid' w') = fst (ms_Load M ctx sid' w)"
begin

text \<open>Saving what was loaded changes nothing a later load can see.\<close>

lemma save_of_loaded:
  assumes "inv w" and "ms_Save M ctx sid s w = (Inr ck, w1)"
    and "ms_Load M ctx sid w1 = (Inr l, w2)"
    and "ms_Save M ctx sid l w2 = (Inr ck', w3)"
  shows "fst (ms_Load M ctx sid w3) = Inr l"
proof -
  from assms(1,2) have i1: "inv w1" using save_inv by (metis snd_conv)
  from i1 assms(3) load_pure have w2: "w2 = w1" by (metis snd_conv)
  from assms(1-3) load_after_save have l: "l = json_state s" by (metis fst_conv sum.inject(2))
  from i1 w2 assms(4) have "fst (ms_Load M ctx sid w3) = Inr (json_state l)"
    using load_after_save by blast
  with l show ?thesis by simp
qed

text \<open>A saved session and its checkpoint hold the same state.\<close>

lemma session_equals_checkpoint:
  assumes "inv w" and "ms_Save M ctx sid s w = (Inr ck, w')"
  shows "fst (ms_Load M ctx sid w') = fst (ms_LoadCheckpoint M ctx ck w')"
  using load_after_save [OF assms] checkpoint_after_save [OF assms] by simp

end

text \<open>
  Saves in a row: each session holds the last state saved under its name. \<open>save_all\<close> runs a list
  of saves, all under one context.
\<close>

fun save_all :: "'w MemoryStore \<Rightarrow> Ctx \<Rightarrow> (string \<times> AgentState) list \<Rightarrow> 'w \<Rightarrow> 'w" where
  "save_all M ctx [] w = w"
| "save_all M ctx ((sid, s) # rest) w = save_all M ctx rest (snd (ms_Save M ctx sid s w))"

context memory_store
begin

lemma save_all_inv: "inv w \<Longrightarrow> inv (save_all M ctx saves w)"
  by (induction saves arbitrary: w) (auto simp: save_inv)

lemma save_all_other:
  assumes "inv w" and "\<forall>x \<in> set saves. sep ctx (fst x) sid'"
  shows "fst (ms_Load M ctx sid' (save_all M ctx saves w)) = fst (ms_Load M ctx sid' w)"
  using assms
proof (induction saves arbitrary: w)
  case Nil
  then show ?case by simp
next
  case (Cons x saves)
  obtain sid s where x: "x = (sid, s)" by (cases x)
  from Cons.prems(2) x have "sep ctx sid sid'" by simp
  with Cons.prems(1) have
    "fst (ms_Load M ctx sid' (snd (ms_Save M ctx sid s w))) = fst (ms_Load M ctx sid' w)"
    by (rule save_other_session)
  moreover have "inv (snd (ms_Save M ctx sid s w))" using Cons.prems(1) by (rule save_inv)
  ultimately show ?case using Cons.IH [of "snd (ms_Save M ctx sid s w)"] Cons.prems(2) x by simp
qed

end

section \<open>The contract of a task store\<close>

text \<open>
  What the A2A server relies on: a created task is found under its id by a context of the same
  tenant, and a status update is what a later read sees.
\<close>

locale task_store =
  fixes T :: "'w TaskStore"
    and inv :: "'w \<Rightarrow> bool"
    and owns :: "Ctx \<Rightarrow> Task \<Rightarrow> bool"
  assumes get_pure: "inv w \<Longrightarrow> snd (tk_GetByID T ctx tid w) = w"
    and create_inv: "inv w \<Longrightarrow> inv (snd (tk_Create T ctx t w))"
    and update_inv: "inv w \<Longrightarrow> inv (snd (tk_UpdateStatus T ctx tid st w))"
    and get_after_create:
      "inv w \<Longrightarrow> owns ctx t \<Longrightarrow> tk_Create T ctx' t w = (None, w')
        \<Longrightarrow> fst (tk_GetByID T ctx (t_ID t) w') = Inr (json_task t)"
    and update_status_sound:
      "inv w \<Longrightarrow> fst (tk_GetByID T ctx tid w) = Inr t
        \<Longrightarrow> tk_UpdateStatus T ctx tid st w = (None, w')
        \<Longrightarrow> \<exists>t'. fst (tk_GetByID T ctx tid w') = Inr t' \<and> t_Status t' = st
            \<and> t_History t' = map json_message (t_History t) \<and> t_TenantID t' = t_TenantID t"
    and update_missing:
      "inv w \<Longrightarrow> fst (tk_GetByID T ctx tid w) = Inl e
        \<Longrightarrow> fst (tk_UpdateStatus T ctx tid st w) = Some e
          \<and> snd (tk_UpdateStatus T ctx tid st w) = w"
begin

lemma create_then_update:
  assumes "inv w" and "owns ctx t" and "tk_Create T ctx' t w = (None, w1)"
    and "tk_UpdateStatus T ctx (t_ID t) st w1 = (None, w2)"
  shows "\<exists>t'. fst (tk_GetByID T ctx (t_ID t) w2) = Inr t' \<and> t_Status t' = st
    \<and> t_History t' = map json_message (t_History t)"
proof -
  have i1: "inv w1" using create_inv [OF assms(1), of ctx' t] assms(3) by simp
  have g: "fst (tk_GetByID T ctx (t_ID t) w1) = Inr (json_task t)"
    by (rule get_after_create [OF assms(1-3)])
  obtain t' where "fst (tk_GetByID T ctx (t_ID t) w2) = Inr t'" "t_Status t' = st"
    "t_History t' = map json_message (t_History (json_task t))"
    using update_status_sound [OF i1 g assms(4)] by blast
  then show ?thesis by (simp add: comp_def)
qed

end

end
