(* ===== verification/Planner_Model.thy ===== *)
theory Planner_Model
  imports Interfaces
begin

text \<open>
  Package \<open>planner\<close>: the ReAct planner. The plan is kept behind a pointer in the variable
  \<open>"__plan__"\<close>, so \<open>Revise\<close> also changes the plan of the state it is given; that state is part
  of its result.
\<close>

section \<open>Plans (planner/react.go)\<close>

datatype StepStatus = StepPending | StepRunning | StepCompleted | StepFailed | StepSkipped

fun step_text :: "StepStatus \<Rightarrow> string" where
  "step_text StepPending = ''Pending''"
| "step_text StepRunning = ''Running''"
| "step_text StepCompleted = ''Completed''"
| "step_text StepFailed = ''Failed''"
| "step_text StepSkipped = ''Skipped''"

record PlanStep =
  ps_NodeID :: string
  ps_ActualNodeID :: string
  ps_Status :: StepStatus
  ps_Observation :: string

record Plan =
  pl_Goal :: string
  pl_Steps :: "PlanStep list"

definition new_step :: "string \<Rightarrow> PlanStep" where
  "new_step nodeID = \<lparr>ps_NodeID = nodeID, ps_ActualNodeID = [], ps_Status = StepPending, ps_Observation = []\<rparr>"

definition CurrentStep :: "Plan \<Rightarrow> PlanStep option" where
  "CurrentStep p = find (\<lambda>x. ps_Status x = StepPending \<or> ps_Status x = StepRunning) (pl_Steps p)"

definition Append :: "Plan \<Rightarrow> string \<Rightarrow> Plan" where
  "Append p nodeID = p\<lparr>pl_Steps := pl_Steps p @ [new_step nodeID]\<rparr>"

abbreviation ThinkNodeID :: string where "ThinkNodeID \<equiv> ''LLMNode''"
abbreviation ToolNodeID :: string where "ToolNodeID \<equiv> ''ToolExecutorNode''"
abbreviation TerminalID :: string where "TerminalID \<equiv> ''__terminal__''"

record ReActPlanner =
  ra_maxRounds :: int

definition NewReActPlanner :: "int \<Rightarrow> ReActPlanner" where
  "NewReActPlanner maxRounds = \<lparr>ra_maxRounds = (if maxRounds \<le> 0 then 20 else maxRounds)\<rparr>"

text \<open>A plan as a dynamic value, and back.\<close>

definition step_any :: "PlanStep \<Rightarrow> string \<times> string \<times> string \<times> string" where
  "step_any x = (ps_NodeID x, ps_ActualNodeID x, step_text (ps_Status x), ps_Observation x)"

definition plan_any :: "Plan \<Rightarrow> gany" where
  "plan_any p = GPlan (pl_Goal p) (map step_any (pl_Steps p))"

definition step_of_text :: "string \<Rightarrow> StepStatus" where
  "step_of_text t = (if t = ''Pending'' then StepPending else if t = ''Running'' then StepRunning
     else if t = ''Completed'' then StepCompleted else if t = ''Failed'' then StepFailed else StepSkipped)"

fun any_plan :: "gany \<Rightarrow> Plan option" where
  "any_plan (GPlan g steps) = Some \<lparr>pl_Goal = g, pl_Steps = map (\<lambda>(n, a, st, obs).
     \<lparr>ps_NodeID = n, ps_ActualNodeID = a, ps_Status = step_of_text st, ps_Observation = obs\<rparr>) steps\<rparr>"
| "any_plan _ = None"

definition getPlan :: "AgentState \<Rightarrow> Plan option" where
  "getPlan s = Option.bind (glookup (vars s) ''__plan__'') any_plan"

definition setPlan :: "AgentState \<Rightarrow> Plan \<Rightarrow> AgentState" where
  "setPlan s plan = WithVariable s ''__plan__'' (plan_any plan)"

record PlannerOutput =
  po_NextNodeID :: string
  po_State :: AgentState

definition Planner_Plan :: "string \<Rightarrow> AgentState \<Rightarrow> PlannerOutput" where
  "Planner_Plan goal s = \<lparr>po_NextNodeID = ThinkNodeID,
     po_State = setPlan (WithVariable s ''goal'' (GString goal))
       \<lparr>pl_Goal = goal, pl_Steps = [new_step ThinkNodeID]\<rparr>\<rparr>"

text \<open>The steps of \<open>Revise\<close> on the plan itself.\<close>

definition complete_running :: "string \<Rightarrow> PlanStep list \<Rightarrow> PlanStep list" where
  "complete_running obs = update_first (\<lambda>x. ps_Status x = StepRunning)
     (\<lambda>x. x\<lparr>ps_Status := StepCompleted, ps_Observation := obs\<rparr>)"

definition start_pending :: "PlanStep list \<Rightarrow> PlanStep list" where
  "start_pending = update_first (\<lambda>x. ps_Status x = StepPending) (\<lambda>x. x\<lparr>ps_Status := StepRunning\<rparr>)"

definition completedTotal :: "PlanStep list \<Rightarrow> int" where
  "completedTotal steps = int (length (filter (\<lambda>x. ps_Status x = StepCompleted) steps))"

definition revise_plan :: "ReActPlanner \<Rightarrow> string \<Rightarrow> bool \<Rightarrow> Plan \<Rightarrow> string \<times> Plan" where
  "revise_plan r obs toolCallPresent p =
     (let p1 = p\<lparr>pl_Steps := complete_running obs (pl_Steps p)\<rparr> in
      if ra_maxRounds r \<le> completedTotal (pl_Steps p1) then (TerminalID, Append p1 TerminalID)
      else (let n = (if toolCallPresent then ToolNodeID else if obs \<noteq> [] then ThinkNodeID else TerminalID);
                p2 = Append p1 n
            in (n, p2\<lparr>pl_Steps := start_pending (pl_Steps p2)\<rparr>)))"

definition Revise ::
  "ReActPlanner \<Rightarrow> string \<Rightarrow> AgentState \<Rightarrow> AgentState \<times> (go_error + PlannerOutput)" where
  "Revise r obs s = (case getPlan s of
     None \<Rightarrow> (s, Inl (ErrorText ''ReActPlanner: no active plan in state''))
   | Some plan \<Rightarrow>
       (let toolCallPresent = (case glookup (vars s) ''tool_call'' of None \<Rightarrow> False | Some v \<Rightarrow> v \<noteq> GNil) in
        case revise_plan r obs toolCallPresent plan of (n, plan') \<Rightarrow>
        (let s' = s\<lparr>Variables := Some (gset ''__plan__'' (plan_any plan') (vars s))\<rparr> in
         (s', Inr \<lparr>po_NextNodeID = n, po_State = setPlan s' plan'\<rparr>))))"

definition nl :: string where "nl = [CHR 0x0A]"

text \<open>\<open>Summarise\<close>; the arrow is the UTF-8 encoding of U+2192.\<close>

definition arrow :: string where
  "arrow = [char_of (226 :: nat), char_of (134 :: nat), char_of (146 :: nat)]"

fun summarise_steps :: "int \<Rightarrow> PlanStep list \<Rightarrow> string" where
  "summarise_steps i [] = []"
| "summarise_steps i (x # xs) = ''  ['' @ itoa (i + 1) @ ''] '' @ ps_NodeID x @ '' '' @ arrow @ '' '' @ step_text (ps_Status x) @ nl
     @ (if ps_Observation x \<noteq> [] then ''       obs: '' @ ps_Observation x @ nl else [])
     @ summarise_steps (i + 1) xs"

definition Summarise :: "Plan \<Rightarrow> string" where
  "Summarise p = ''Goal: '' @ pl_Goal p @ nl @ summarise_steps 0 (pl_Steps p)"

section \<open>Lemmas\<close>

lemma step_of_text_text [simp]: "step_of_text (step_text st) = st"
  by (cases st) (simp_all add: step_of_text_def)

lemma any_plan_any [simp]: "any_plan (plan_any p) = Some p"
  by (cases p) (simp add: plan_any_def step_any_def comp_def map_idI)

lemma getPlan_setPlan: "state_ok s \<Longrightarrow> getPlan (setPlan s p) = Some p"
  by (simp add: getPlan_def setPlan_def)

text \<open>
  The shape of a plan after \<open>k\<close> rounds that got the observations \<open>obs\<close>: \<open>k - 1\<close> completed
  steps, one running and one pending; a fresh plan has one pending step.
\<close>

definition plan_shape :: "string list \<Rightarrow> PlanStep list \<Rightarrow> bool" where
  "plan_shape obs steps \<longleftrightarrow> (if obs = [] then map ps_Status steps = [StepPending] \<and> map ps_Observation steps = [[]]
     else map ps_Status steps = replicate (length obs - 1) StepCompleted @ [StepRunning, StepPending]
       \<and> map ps_Observation steps = tl obs @ [[], []])"

lemma shape_split:
  assumes "map ps_Status steps = replicate n StepCompleted @ [StepRunning, StepPending]"
  obtains cs x y where "steps = cs @ [x, y]" "length cs = n" "\<forall>c \<in> set cs. ps_Status c = StepCompleted"
    "ps_Status x = StepRunning" "ps_Status y = StepPending"
proof -
  from assms obtain cs zs where s: "steps = cs @ zs" "map ps_Status cs = replicate n StepCompleted"
    "map ps_Status zs = [StepRunning, StepPending]" by (auto simp: map_eq_append_conv)
  from s(2) have c: "length cs = n" by (metis length_map length_replicate)
  have "\<forall>c \<in> set cs. ps_Status c = StepCompleted"
  proof
    fix c assume "c \<in> set cs"
    then have "ps_Status c \<in> set (map ps_Status cs)" by simp
    then show "ps_Status c = StepCompleted" unfolding s(2) by simp
  qed
  moreover from s(3) obtain x y where "zs = [x, y]" "ps_Status x = StepRunning" "ps_Status y = StepPending" by auto
  ultimately show ?thesis using s(1) c that by blast
qed

lemma update_first_skip: "\<forall>x \<in> set xs. \<not> P x \<Longrightarrow> update_first P f (xs @ ys) = xs @ update_first P f ys"
  by (induction xs) auto

lemma revise_fresh:
  assumes "plan_shape [] (pl_Steps p)" and "0 < ra_maxRounds r"
  shows "plan_shape [ob] (pl_Steps (snd (revise_plan r ob tc p)))
    \<and> fst (revise_plan r ob tc p) = (if tc then ToolNodeID else if ob \<noteq> [] then ThinkNodeID else TerminalID)
    \<and> map ps_NodeID (pl_Steps (snd (revise_plan r ob tc p))) = map ps_NodeID (pl_Steps p) @ [fst (revise_plan r ob tc p)]"
proof -
  from assms(1) obtain x where "pl_Steps p = [x]" "ps_Status x = StepPending" "ps_Observation x = []"
    by (auto simp: plan_shape_def)
  with assms(2) show ?thesis
    by (simp add: revise_plan_def Let_def complete_running_def completedTotal_def Append_def start_pending_def
        plan_shape_def new_step_def)
qed

lemma revise_running:
  assumes "plan_shape obs (pl_Steps p)" and "obs \<noteq> []"
  shows "if int (length obs) < ra_maxRounds r
    then plan_shape (obs @ [ob]) (pl_Steps (snd (revise_plan r ob tc p)))
      \<and> fst (revise_plan r ob tc p) = (if tc then ToolNodeID else if ob \<noteq> [] then ThinkNodeID else TerminalID)
      \<and> map ps_NodeID (pl_Steps (snd (revise_plan r ob tc p))) = map ps_NodeID (pl_Steps p) @ [fst (revise_plan r ob tc p)]
    else fst (revise_plan r ob tc p) = TerminalID"
proof -
  from assms have "map ps_Status (pl_Steps p) = replicate (length obs - 1) StepCompleted @ [StepRunning, StepPending]"
    and o: "map ps_Observation (pl_Steps p) = tl obs @ [[], []]" by (simp_all add: plan_shape_def)
  from this(1) obtain cs x y where s: "pl_Steps p = cs @ [x, y]" "length cs = length obs - 1"
    "\<forall>c \<in> set cs. ps_Status c = StepCompleted" "ps_Status x = StepRunning" "ps_Status y = StepPending"
    by (rule shape_split)
  let ?x = "x\<lparr>ps_Status := StepCompleted, ps_Observation := ob\<rparr>"
  have cr: "complete_running ob (pl_Steps p) = cs @ [?x, y]"
    using s by (simp add: complete_running_def update_first_skip)
  have total: "completedTotal (cs @ [?x, y]) = int (length obs)"
  proof -
    have "filter (\<lambda>x. ps_Status x = StepCompleted) cs = cs" using s(3) by simp
    moreover have "Suc (length cs) = length obs" using s(2) assms(2) by simp
    ultimately show ?thesis using s(5) by (simp add: completedTotal_def)
  qed
  have sp: "start_pending (cs @ [?x, y, new_step n]) = cs @ [?x, y\<lparr>ps_Status := StepRunning\<rparr>, new_step n]" for n
    using s(3,5) by (simp add: start_pending_def update_first_skip)
  let ?n = "if tc then ToolNodeID else if ob \<noteq> [] then ThinkNodeID else TerminalID"
  have rp: "revise_plan r ob tc p = (if ra_maxRounds r \<le> int (length obs)
      then (TerminalID, p\<lparr>pl_Steps := cs @ [?x, y, new_step TerminalID]\<rparr>)
      else (?n, p\<lparr>pl_Steps := cs @ [?x, y\<lparr>ps_Status := StepRunning\<rparr>, new_step ?n]\<rparr>))"
    by (simp add: revise_plan_def Let_def cr total Append_def sp)
  obtain ob1 rest where obs: "obs = ob1 # rest" using assms(2) by (cases obs) auto
  have "map ps_Status cs = replicate (length rest) StepCompleted"
    using s(2,3) obs by (auto intro: nth_equalityI)
  moreover have "map ps_Observation cs = rest" "ps_Observation y = []" using o s(1,2) obs by simp_all
  ultimately show ?thesis
    using s(1,4,5) by (auto simp: rp obs plan_shape_def new_step_def replicate_append_same)
qed

section \<open>Rounds\<close>

text \<open>A sequence of calls of \<open>Revise\<close>: the nodes it names and the last plan.\<close>

fun revise_run :: "ReActPlanner \<Rightarrow> (string \<times> bool) list \<Rightarrow> Plan \<Rightarrow> string list \<times> Plan" where
  "revise_run r [] p = ([], p)"
| "revise_run r ((ob, tc) # ins) p = (case revise_plan r ob tc p of (n, p1) \<Rightarrow>
     (case revise_run r ins p1 of (ns, p2) \<Rightarrow> (n # ns, p2)))"

lemma revise_run_snoc:
  "revise_run r (ins @ [(ob, tc)]) p = (case revise_run r ins p of (ns, p1) \<Rightarrow>
     (case revise_plan r ob tc p1 of (n, p2) \<Rightarrow> (ns @ [n], p2)))"
  by (induction ins arbitrary: p) (auto split: prod.splits)

definition routed :: "string \<times> bool \<Rightarrow> string" where
  "routed x = (if snd x then ToolNodeID else if fst x \<noteq> [] then ThinkNodeID else TerminalID)"

lemma revise_run_shape:
  assumes "plan_shape [] (pl_Steps p)" and "0 < ra_maxRounds r" and "int (length ins) \<le> ra_maxRounds r"
  shows "plan_shape (map fst ins) (pl_Steps (snd (revise_run r ins p)))
    \<and> fst (revise_run r ins p) = map routed ins
    \<and> map ps_NodeID (pl_Steps (snd (revise_run r ins p))) = map ps_NodeID (pl_Steps p) @ map routed ins"
  using assms(3)
proof (induction ins rule: rev_induct)
  case (snoc x ins)
  obtain ob tc where x: "x = (ob, tc)" by (cases x)
  obtain ns p1 where run: "revise_run r ins p = (ns, p1)" by fastforce
  obtain n p2 where rev: "revise_plan r ob tc p1 = (n, p2)" by fastforce
  from snoc run have ih: "plan_shape (map fst ins) (pl_Steps p1)" "ns = map routed ins"
    "map ps_NodeID (pl_Steps p1) = map ps_NodeID (pl_Steps p) @ map routed ins" by simp_all
  have "plan_shape (map fst ins @ [ob]) (pl_Steps p2) \<and> n = routed x
      \<and> map ps_NodeID (pl_Steps p2) = map ps_NodeID (pl_Steps p1) @ [n]"
  proof (cases "ins = []")
    case True
    with revise_fresh [of p1 r ob tc] ih(1) assms(2) rev x show ?thesis by (simp add: routed_def)
  next
    case False
    with revise_running [of "map fst ins" p1 r ob tc] ih(1) snoc.prems rev x show ?thesis by (simp add: routed_def)
  qed
  with ih x run rev show ?case by (simp add: revise_run_snoc)
qed (use assms(1) in simp)

section \<open>Properties of package planner\<close>

text \<open>The plan that \<open>Planner_Plan\<close> seeds.\<close>

definition seed_plan :: "string \<Rightarrow> Plan" where
  "seed_plan goal = \<lparr>pl_Goal = goal, pl_Steps = [new_step ThinkNodeID]\<rparr>"

lemma seed_shape [simp]: "plan_shape [] (pl_Steps (seed_plan goal))"
  by (simp add: seed_plan_def plan_shape_def new_step_def)

text \<open>
  C36: the planner ends every loop of thinking and acting. Whatever observations and tool calls
  come, the first \<open>maxRounds\<close> revisions route by the signals (a tool call to the tool node, an
  observation back to the model, neither to the end), and the next one goes to the terminal node.
\<close>

theorem planner_rounds_bounded:
  assumes "length ins = nat (ra_maxRounds (NewReActPlanner m))"
  shows "fst (revise_run (NewReActPlanner m) (ins @ [(ob, tc)]) (seed_plan goal)) = map routed ins @ [TerminalID]"
proof -
  let ?r = "NewReActPlanner m"
  have pos: "0 < ra_maxRounds ?r" by (simp add: NewReActPlanner_def)
  obtain ns p1 where run: "revise_run ?r ins (seed_plan goal) = (ns, p1)" by fastforce
  from assms pos have len: "int (length ins) \<le> ra_maxRounds ?r" by simp
  from revise_run_shape [OF seed_shape [of goal] pos len] run
  have "plan_shape (map fst ins) (pl_Steps p1)" "ns = map routed ins" by simp_all
  moreover have "map fst ins \<noteq> []" using assms pos by auto
  ultimately show ?thesis
    using revise_running [of "map fst ins" p1 ?r ob tc] assms run pos
    by (auto simp: revise_run_snoc split: prod.split)
qed

theorem planner_rounds_bounded_witness:
  "fst (revise_run (NewReActPlanner 2) ([(''r'', True), (''r'', False)] @ [(''r'', True)]) (seed_plan ''g''))
    = [ToolNodeID, ThinkNodeID, TerminalID]"
  using planner_rounds_bounded [of "[(''r'', True), (''r'', False)]" 2 "''r''" True "''g''"]
  by (simp add: NewReActPlanner_def routed_def)

text \<open>
  Observations are recorded one step late. After up to \<open>maxRounds\<close> revisions the plan has
  the first think step followed by the nodes named so far, and the observation handed to revision
  \<open>i + 1\<close> (the outcome of the node named by revision \<open>i\<close>) is stored with the step before that
  node; the observation of the first revision is stored nowhere.
\<close>

theorem planner_observations_lag:
  assumes "ins \<noteq> []" and "int (length ins) \<le> ra_maxRounds (NewReActPlanner m)"
  shows "map (\<lambda>x. (ps_NodeID x, ps_Observation x)) (pl_Steps (snd (revise_run (NewReActPlanner m) ins (seed_plan goal))))
    = zip (ThinkNodeID # map routed ins) (tl (map fst ins) @ [[], []])"
proof -
  let ?s = "pl_Steps (snd (revise_run (NewReActPlanner m) ins (seed_plan goal)))"
  have pos: "0 < ra_maxRounds (NewReActPlanner m)" by (simp add: NewReActPlanner_def)
  from revise_run_shape [OF seed_shape [of goal] pos assms(2)] assms(1)
  have "map ps_Observation ?s = tl (map fst ins) @ [[], []]"
    "map ps_NodeID ?s = ThinkNodeID # map routed ins"
    by (simp_all add: plan_shape_def seed_plan_def new_step_def)
  moreover have "map (\<lambda>x. (ps_NodeID x, ps_Observation x)) xs = zip (map ps_NodeID xs) (map ps_Observation xs)"
    for xs :: "PlanStep list" by (induction xs) auto
  ultimately show ?thesis by simp
qed

theorem planner_observations_lag_witness:
  "map (\<lambda>x. (ps_NodeID x, ps_Observation x)) (pl_Steps (snd (revise_run (NewReActPlanner 5)
      [(''first'', True), (''tool says hi'', False)] (seed_plan ''g''))))
    = [(ThinkNodeID, ''tool says hi''), (ToolNodeID, []), (ThinkNodeID, [])]"
  using planner_observations_lag [of "[(''first'', True), (''tool says hi'', False)]" 5 "''g''"]
  by (simp add: NewReActPlanner_def routed_def)

text \<open>
  A plan does not survive a checkpoint. A state that was saved and loaded again holds the
  plan as a plain map, which \<open>Revise\<close> does not recognise: it reports that there is no active
  plan, whatever plan the saved state had.
\<close>

theorem plan_lost_in_checkpoint:
  "snd (Revise r ob (json_state (setPlan s plan))) = Inl (ErrorText ''ReActPlanner: no active plan in state'')"
proof -
  have "vars (json_state t) = json_vars (vars t)" for t
    by (simp add: vars_def json_state_def json_vars_def split: option.split)
  then have "getPlan (json_state (setPlan s plan)) = None"
    by (simp add: getPlan_def setPlan_def plan_any_def)
  then show ?thesis by (simp add: Revise_def)
qed

end
