(* ===== verification/Graph_Model.thy ===== *)
theory Graph_Model
  imports Interfaces
begin

text \<open>
  Package \<open>graph\<close>: the builder, its validation, the reachability scan and the read-only graph
  the engine runs on. The lines that \<open>checkReachability\<close> logs are the list of node ids it warns
  about.
\<close>

section \<open>Graphs (graph/graph.go)\<close>

type_synonym 'w RouterFunc = "Ctx \<Rightarrow> AgentState \<Rightarrow> 'w \<Rightarrow> (go_error + string) \<times> 'w"

record 'w Edge =
  ed_FromID :: string
  ed_ToID :: string
  ed_IsCond :: bool
  ed_Router :: "'w RouterFunc option"

record 'w Graph =
  g_Nodes :: "(string, 'w Node) gomap"
  g_Edges :: "'w Edge list"
  g_Entry :: string
  g_Terminals :: "(string, bool) gomap"

definition Graph_Node :: "'w Graph \<Rightarrow> string \<Rightarrow> 'w Node option" where
  "Graph_Node g nid = glookup (g_Nodes g) nid"

text \<open>\<open>g.Terminals[id]\<close>: a missing key reads as \<open>false\<close>.\<close>

definition is_terminal :: "'w Graph \<Rightarrow> string \<Rightarrow> bool" where
  "is_terminal g nid = (glookup (g_Terminals g) nid = Some True)"

section \<open>The builder (graph/builder.go)\<close>

record 'w Builder =
  b_nodes :: "(string, 'w Node) gomap"
  b_edges :: "'w Edge list"
  b_entry :: string
  b_terminals :: "(string, bool) gomap"

definition NewBuilder :: "'w Builder" where
  "NewBuilder = \<lparr>b_nodes = [], b_edges = [], b_entry = [], b_terminals = []\<rparr>"

definition AddNode :: "'w Builder \<Rightarrow> 'w Node \<Rightarrow> go_error option \<times> 'w Builder" where
  "AddNode b node = (case glookup (b_nodes b) (n_ID node) of
     Some _ \<Rightarrow> (Some (Errorf [] (Sentinel ErrNodeAlreadyExists) ('': '' @ n_ID node)), b)
   | None \<Rightarrow> (None, b\<lparr>b_nodes := gset (n_ID node) node (b_nodes b)\<rparr>))"

definition SetEntry :: "'w Builder \<Rightarrow> string \<Rightarrow> 'w Builder" where
  "SetEntry b nodeID = b\<lparr>b_entry := nodeID\<rparr>"

definition SetTerminal :: "'w Builder \<Rightarrow> string list \<Rightarrow> 'w Builder" where
  "SetTerminal b nodeIDs = b\<lparr>b_terminals := fold (\<lambda>nid. gset nid True) nodeIDs (b_terminals b)\<rparr>"

definition AddEdge :: "'w Builder \<Rightarrow> string \<Rightarrow> string \<Rightarrow> 'w Builder" where
  "AddEdge b fromID toID = b\<lparr>b_edges := b_edges b
     @ [\<lparr>ed_FromID = fromID, ed_ToID = toID, ed_IsCond = False, ed_Router = None\<rparr>]\<rparr>"

definition AddConditionalEdge :: "'w Builder \<Rightarrow> string \<Rightarrow> 'w RouterFunc option \<Rightarrow> 'w Builder" where
  "AddConditionalEdge b fromID router = b\<lparr>b_edges := b_edges b
     @ [\<lparr>ed_FromID = fromID, ed_ToID = [], ed_IsCond = True, ed_Router = router\<rparr>]\<rparr>"

text \<open>The targets of the static edges that leave a node, in edge order.\<close>

definition static_succs :: "'w Edge list \<Rightarrow> string \<Rightarrow> string list" where
  "static_succs es cur = map ed_ToID (filter (\<lambda>e. ed_FromID e = cur \<and> \<not> ed_IsCond e) es)"

lemma static_succs_subset: "set (static_succs es x) \<subseteq> set (map ed_ToID es)"
  by (auto simp: static_succs_def)

text \<open>The work list loop of \<open>checkReachability\<close>; \<open>seen\<close> is the set \<open>reachable\<close>.\<close>

function bfs :: "'w Edge list \<Rightarrow> string list \<Rightarrow> string list \<Rightarrow> string list" where
  "bfs es [] seen = seen"
| "bfs es (cur # queue) seen =
     (if cur \<in> set seen then bfs es queue seen
      else bfs es (queue @ static_succs es cur) (cur # seen))"
  by pat_completeness auto

termination
proof (relation "measures
    [\<lambda>(es, queue, seen). card ((set queue \<union> set (map ed_ToID es)) - set seen),
     \<lambda>(es, queue, seen). length queue]")
  fix es :: "'w Edge list" and cur :: string and queue seen
  assume "cur \<in> set seen"
  then have "(set (cur # queue) \<union> set (map ed_ToID es)) - set seen
      = (set queue \<union> set (map ed_ToID es)) - set seen" by auto
  then show "((es, queue, seen), es, cur # queue, seen) \<in> measures
      [\<lambda>(es, queue, seen). card ((set queue \<union> set (map ed_ToID es)) - set seen),
       \<lambda>(es, queue, seen). length queue]" by simp
next
  fix es :: "'w Edge list" and cur :: string and queue seen
  assume "cur \<notin> set seen"
  then have "(set (queue @ static_succs es cur) \<union> set (map ed_ToID es)) - set (cur # seen)
      \<subset> (set (cur # queue) \<union> set (map ed_ToID es)) - set seen"
    using static_succs_subset [of es cur] by auto
  then have "card ((set (queue @ static_succs es cur) \<union> set (map ed_ToID es)) - set (cur # seen))
      < card ((set (cur # queue) \<union> set (map ed_ToID es)) - set seen)"
    by (rule psubset_card_mono [rotated]) simp
  then show "((es, queue @ static_succs es cur, cur # seen), es, cur # queue, seen) \<in> measures
      [\<lambda>(es, queue, seen). card ((set queue \<union> set (map ed_ToID es)) - set seen),
       \<lambda>(es, queue, seen). length queue]" by simp
qed simp

definition checkReachability :: "'w Builder \<Rightarrow> string list" where
  "checkReachability b =
     (let reachable = bfs (b_edges b) [b_entry b] [] in
      filter (\<lambda>nid. nid \<notin> set reachable) (gkeys (b_nodes b)))"

text \<open>The validation loops of \<open>Build\<close>: the first failing edge or terminal is the error.\<close>

fun check_edges :: "(string, 'w Node) gomap \<Rightarrow> 'w Edge list \<Rightarrow> go_error option" where
  "check_edges nodes [] = None"
| "check_edges nodes (e # es) =
     (if glookup nodes (ed_FromID e) = None
      then Some (Errorf [] (Sentinel ErrGraphValidation)
        ('': edge references missing from node '' @ ed_FromID e))
      else if \<not> ed_IsCond e \<and> glookup nodes (ed_ToID e) = None
      then Some (Errorf [] (Sentinel ErrGraphValidation)
        ('': static edge references missing to node '' @ ed_ToID e))
      else check_edges nodes es)"

fun check_terminals :: "(string, 'w Node) gomap \<Rightarrow> string list \<Rightarrow> go_error option" where
  "check_terminals nodes [] = None"
| "check_terminals nodes (t # ts) =
     (if glookup nodes t = None
      then Some (Errorf [] (Sentinel ErrGraphValidation) ('': terminal node '' @ t @ '' not registered''))
      else check_terminals nodes ts)"

text \<open>\<open>Build\<close>: the graph or the first error, and the nodes that were warned about.\<close>

definition Build :: "'w Builder \<Rightarrow> (go_error + 'w Graph) \<times> string list" where
  "Build b =
     (if b_entry b = [] then (Inl (Sentinel ErrEntryNotSet), [])
      else if glookup (b_nodes b) (b_entry b) = None
      then (Inl (Errorf [] (Sentinel ErrGraphValidation)
        ('': entry node '' @ b_entry b @ '' not registered'')), [])
      else (case check_edges (b_nodes b) (b_edges b) of
        Some err \<Rightarrow> (Inl err, [])
      | None \<Rightarrow> (case check_terminals (b_nodes b) (gkeys (b_terminals b)) of
          Some err \<Rightarrow> (Inl err, [])
        | None \<Rightarrow> (Inr \<lparr>g_Nodes = fold (\<lambda>(k, v). gset k v) (b_nodes b) [],
             g_Edges = b_edges b, g_Entry = b_entry b,
             g_Terminals = fold (\<lambda>(k, v). gset k v) (b_terminals b) []\<rparr>,
             checkReachability b))))"

section \<open>Well-formedness\<close>

text \<open>
  A builder's maps are Go maps, and each node is registered under its own id. A graph is well
  formed when every reference the engine can follow without running user code is registered.
\<close>

definition builder_ok :: "'w Builder \<Rightarrow> bool" where
  "builder_ok b \<longleftrightarrow> gomap_ok (b_nodes b) \<and> gomap_ok (b_terminals b)
     \<and> (\<forall>(k, n) \<in> set (b_nodes b). n_ID n = k)"

definition graph_ok :: "'w Graph \<Rightarrow> bool" where
  "graph_ok g \<longleftrightarrow> gomap_ok (g_Nodes g) \<and> (\<forall>(k, n) \<in> set (g_Nodes g). n_ID n = k)
     \<and> g_Entry g \<noteq> [] \<and> Graph_Node g (g_Entry g) \<noteq> None
     \<and> (\<forall>e \<in> set (g_Edges g). Graph_Node g (ed_FromID e) \<noteq> None
          \<and> (\<not> ed_IsCond e \<longrightarrow> Graph_Node g (ed_ToID e) \<noteq> None))
     \<and> (\<forall>t \<in> set (gkeys (g_Terminals g)). Graph_Node g t \<noteq> None)"

section \<open>Lemmas\<close>

lemma builder_ok_new [simp]: "builder_ok NewBuilder"
  by (simp add: builder_ok_def NewBuilder_def)

lemma gset_new_entries: "k \<notin> set (gkeys m) \<Longrightarrow> set (gset k v m) = insert (k, v) (set m)"
  by (induction m) auto

lemma builder_ok_AddNode: "builder_ok b \<Longrightarrow> builder_ok (snd (AddNode b node))"
  by (auto simp: builder_ok_def AddNode_def glookup_None_iff gset_new_entries split: option.splits)

lemma builder_ok_SetEntry: "builder_ok b \<Longrightarrow> builder_ok (SetEntry b i)"
  by (simp add: builder_ok_def SetEntry_def)

lemma builder_ok_AddEdge: "builder_ok b \<Longrightarrow> builder_ok (AddEdge b i j)"
  by (simp add: builder_ok_def AddEdge_def)

lemma builder_ok_AddConditionalEdge: "builder_ok b \<Longrightarrow> builder_ok (AddConditionalEdge b i r)"
  by (simp add: builder_ok_def AddConditionalEdge_def)

lemma gomap_ok_fold_terminals: "gomap_ok m \<Longrightarrow> gomap_ok (fold (\<lambda>nid. gset nid True) ids m)"
  by (induction ids arbitrary: m) auto

lemma builder_ok_SetTerminal: "builder_ok b \<Longrightarrow> builder_ok (SetTerminal b ids)"
  by (simp add: builder_ok_def SetTerminal_def gomap_ok_fold_terminals)

lemmas builder_ok_intros [intro] = builder_ok_new builder_ok_AddNode builder_ok_SetEntry
  builder_ok_AddEdge builder_ok_AddConditionalEdge builder_ok_SetTerminal

lemma check_edges_None:
  "check_edges nodes es = None \<longleftrightarrow> (\<forall>e \<in> set es. glookup nodes (ed_FromID e) \<noteq> None
     \<and> (\<not> ed_IsCond e \<longrightarrow> glookup nodes (ed_ToID e) \<noteq> None))"
  by (induction es) auto

lemma check_terminals_None:
  "check_terminals nodes ts = None \<longleftrightarrow> (\<forall>t \<in> set ts. glookup nodes t \<noteq> None)"
  by (induction ts) auto

lemma check_errors_validation:
  "check_edges nodes es = Some err \<Longrightarrow> errors_Is err ErrGraphValidation"
  "check_terminals nodes ts = Some err \<Longrightarrow> errors_Is err ErrGraphValidation"
  by (induction es, auto split: if_splits) (induction ts, auto split: if_splits)

subsection \<open>The reachability scan\<close>

definition static_edge :: "'w Edge list \<Rightarrow> (string \<times> string) set" where
  "static_edge es = {(x, y). y \<in> set (static_succs es x)}"

lemma static_edge_iff:
  "(x, y) \<in> static_edge es
    \<longleftrightarrow> (\<exists>e \<in> set es. ed_FromID e = x \<and> ed_ToID e = y \<and> \<not> ed_IsCond e)"
  by (auto simp: static_edge_def static_succs_def)

lemma bfs_superset: "set queue \<union> set seen \<subseteq> set (bfs es queue seen)"
  by (induction es queue seen rule: bfs.induct) auto

lemma bfs_sound: "set (bfs es queue seen) \<subseteq> set seen \<union> (static_edge es)\<^sup>* `` set queue"
proof (induction es queue seen rule: bfs.induct)
  case (2 es cur queue seen)
  have "(static_edge es)\<^sup>* `` set (static_succs es cur) \<subseteq> (static_edge es)\<^sup>* `` {cur}"
    by (auto simp: static_edge_def intro: converse_rtrancl_into_rtrancl)
  moreover have "cur \<in> (static_edge es)\<^sup>* `` {cur}" by auto
  ultimately show ?case using 2 by (cases "cur \<in> set seen") (simp_all add: Image_Un, blast+)
qed auto

lemma bfs_closed:
  assumes "\<forall>x \<in> set seen. set (static_succs es x) \<subseteq> set seen \<union> set queue"
  shows "\<forall>x \<in> set (bfs es queue seen). set (static_succs es x) \<subseteq> set (bfs es queue seen)"
  using assms
proof (induction es queue seen rule: bfs.induct)
  case (2 es cur queue seen)
  show ?case
  proof (cases "cur \<in> set seen")
    case True
    with 2 show ?thesis by (simp add: insert_absorb)
  next
    case False
    with 2 show ?thesis by simp blast
  qed
qed simp

lemma bfs_reachable: "set (bfs es [entry] []) = (static_edge es)\<^sup>* `` {entry}"
proof
  show "set (bfs es [entry] []) \<subseteq> (static_edge es)\<^sup>* `` {entry}"
    using bfs_sound [of es "[entry]" "[]"] by simp
  have closed: "static_edge es `` set (bfs es [entry] []) \<subseteq> set (bfs es [entry] [])"
    using bfs_closed [of "[]" es "[entry]"] by (auto simp: static_edge_def)
  have "entry \<in> set (bfs es [entry] [])" using bfs_superset [of "[entry]" "[]" es] by simp
  then show "(static_edge es)\<^sup>* `` {entry} \<subseteq> set (bfs es [entry] [])"
    using Image_closed_trancl [OF closed] by blast
qed

declare bfs.simps [simp del]

text \<open>What a successful \<open>Build\<close> returns.\<close>

lemma build_parts:
  assumes "builder_ok b" and "Build b = (Inr g, warned)"
  shows "graph_ok g \<and> g_Nodes g = b_nodes b \<and> g_Edges g = b_edges b \<and> g_Entry g = b_entry b
    \<and> g_Terminals g = b_terminals b \<and> warned = checkReachability b"
proof -
  have copies: "fold (\<lambda>(k, v). gset k v) (b_nodes b) [] = b_nodes b"
    "fold (\<lambda>(k, v). gset k v) (b_terminals b) [] = b_terminals b"
    using assms(1) by (simp_all add: builder_ok_def gomap_copy)
  from assms(2) have entry: "b_entry b \<noteq> []" "glookup (b_nodes b) (b_entry b) \<noteq> None"
    and edges: "check_edges (b_nodes b) (b_edges b) = None"
    and terminals: "check_terminals (b_nodes b) (gkeys (b_terminals b)) = None"
    by (auto simp: Build_def split: if_splits option.splits)
  with assms(2) copies have g: "g = \<lparr>g_Nodes = b_nodes b, g_Edges = b_edges b, g_Entry = b_entry b,
      g_Terminals = b_terminals b\<rparr>" and w: "warned = checkReachability b"
    by (simp_all add: Build_def)
  from edges terminals have "\<forall>e \<in> set (b_edges b). glookup (b_nodes b) (ed_FromID e) \<noteq> None
        \<and> (\<not> ed_IsCond e \<longrightarrow> glookup (b_nodes b) (ed_ToID e) \<noteq> None)"
      "\<forall>t \<in> set (gkeys (b_terminals b)). glookup (b_nodes b) t \<noteq> None"
    by (simp_all only: check_edges_None check_terminals_None)
  with entry assms(1) g have "graph_ok g" by (simp add: graph_ok_def builder_ok_def Graph_Node_def)
  with g w show ?thesis by simp
qed

section \<open>Properties of the graph package\<close>

text \<open>
  C14: \<open>Build\<close> accepts exactly the builders whose entry, edge ends and terminals are registered,
  and a graph it returns is well formed and has the builder's nodes, edges, entry and terminals;
  every rejection is \<open>ErrEntryNotSet\<close> or wraps \<open>ErrGraphValidation\<close>.
\<close>

theorem build_validates:
  assumes "builder_ok b"
  shows "case fst (Build b) of
      Inr g \<Rightarrow> graph_ok g \<and> g_Nodes g = b_nodes b \<and> g_Edges g = b_edges b
        \<and> g_Entry g = b_entry b \<and> g_Terminals g = b_terminals b
    | Inl err \<Rightarrow> (if b_entry b = [] then err = Sentinel ErrEntryNotSet
        else errors_Is err ErrGraphValidation
          \<and> (glookup (b_nodes b) (b_entry b) = None
             \<or> (\<exists>e \<in> set (b_edges b). glookup (b_nodes b) (ed_FromID e) = None
                  \<or> \<not> ed_IsCond e \<and> glookup (b_nodes b) (ed_ToID e) = None)
             \<or> (\<exists>t \<in> set (gkeys (b_terminals b)). glookup (b_nodes b) t = None)))"
proof (cases "fst (Build b)")
  case (Inr g)
  then have "Build b = (Inr g, snd (Build b))" by (simp add: prod_eq_iff)
  from build_parts [OF assms this] Inr show ?thesis by simp
next
  case (Inl err)
  then consider "b_entry b = []" "err = Sentinel ErrEntryNotSet"
    | "b_entry b \<noteq> []" "glookup (b_nodes b) (b_entry b) = None" "errors_Is err ErrGraphValidation"
    | "b_entry b \<noteq> []" "check_edges (b_nodes b) (b_edges b) = Some err"
    | "b_entry b \<noteq> []" "check_terminals (b_nodes b) (gkeys (b_terminals b)) = Some err"
    by (auto simp: Build_def split: if_splits option.splits)
  then show ?thesis
  proof cases
    case 3
    with check_edges_None [of "b_nodes b" "b_edges b"] Inl show ?thesis
      by (auto simp: check_errors_validation)
  next
    case 4
    with check_terminals_None [of "b_nodes b" "gkeys (b_terminals b)"] Inl show ?thesis
      by (auto simp: check_errors_validation)
  qed (use Inl in auto)
qed

text \<open>A two-node builder, for the witnesses.\<close>

definition sample_node :: "string \<Rightarrow> 'w Node" where
  "sample_node i = \<lparr>n_ID = i, n_Process = (\<lambda>ctx s w.
     ((s, Inr (Some \<lparr>nr_State = RSame, nr_NextNodes = [], nr_Interrupt = None\<rparr>)), w))\<rparr>"

definition sample_builder :: "'w Builder" where
  "sample_builder = SetTerminal (AddEdge (SetEntry
     (snd (AddNode (snd (AddNode NewBuilder (sample_node ''a''))) (sample_node ''b'')))
     ''a'') ''a'' ''b'') [''b'']"

lemma sample_builder_ok: "builder_ok sample_builder"
  unfolding sample_builder_def by (intro builder_ok_intros)

definition sample_graph :: "'w Graph" where
  "sample_graph = \<lparr>g_Nodes = [(''a'', sample_node ''a''), (''b'', sample_node ''b'')],
     g_Edges = [\<lparr>ed_FromID = ''a'', ed_ToID = ''b'', ed_IsCond = False, ed_Router = None\<rparr>],
     g_Entry = ''a'', g_Terminals = [(''b'', True)]\<rparr>"

lemma Build_sample: "fst (Build sample_builder) = Inr sample_graph"
  by (simp add: sample_builder_def Build_def SetTerminal_def AddEdge_def SetEntry_def AddNode_def
      NewBuilder_def sample_node_def sample_graph_def)

theorem build_validates_witness:
  "fst (Build sample_builder) = Inr (sample_graph :: unit Graph) \<and> graph_ok (sample_graph :: unit Graph)"
  using build_validates [OF sample_builder_ok, where ?'a = unit] by (simp add: Build_sample)

text \<open>
  C15: the reachability scan terminates and warns about exactly the registered nodes that no path
  of static edges leads to from the entry.
\<close>

theorem reachability_warnings_exact:
  "set (checkReachability b)
    = {nid \<in> set (gkeys (b_nodes b)). (b_entry b, nid) \<notin> (static_edge (b_edges b))\<^sup>*}"
  by (auto simp: checkReachability_def Let_def bfs_reachable)

end
