(* ===== verification/Resilience.thy ===== *)
theory Resilience
  imports Interfaces
begin

text \<open>
  Package \<open>engine\<close>, file \<open>resilience.go\<close>: the retry policy and the circuit breaker.
  \<open>float64\<close> factors are exact rationals here; the conversions back to durations truncate.
\<close>

section \<open>The retry policy\<close>

record RetryPolicy =
  rp_MaxAttempts :: int
  rp_BaseDelay :: duration
  rp_MaxDelay :: duration
  rp_Multiplier :: rat

definition DefaultRetryPolicy :: RetryPolicy where
  "DefaultRetryPolicy = \<lparr>rp_MaxAttempts = 3, rp_BaseDelay = 200 * 1000000,
     rp_MaxDelay = 10 * 1000000000, rp_Multiplier = 2\<rparr>"

text \<open>The error returned when the attempts are used up: the retriable error, escalated to fatal.\<close>

definition escalate :: "go_error \<Rightarrow> go_error" where
  "escalate err = (case errors_As err of
     Some (_, nodeID, cause) \<Rightarrow> NewFatalError nodeID cause | None \<Rightarrow> err)"

definition capped :: "RetryPolicy \<Rightarrow> duration \<Rightarrow> duration" where
  "capped p d = (if rp_MaxDelay p < d then rp_MaxDelay p else d)"

text \<open>The wait before the next attempt (jitter of plus or minus 20 percent) and the next base delay.\<close>

definition jittered :: "RetryPolicy \<Rightarrow> duration \<Rightarrow> rat \<Rightarrow> duration" where
  "jittered p delay r = capped p (trunc_rat (of_int delay * (8/10 + 4/10 * r)))"

definition scaled :: "RetryPolicy \<Rightarrow> duration \<Rightarrow> duration" where
  "scaled p delay = capped p (trunc_rat (of_int delay * rp_Multiplier p))"

text \<open>
  The loop of \<open>RetryPolicy.Execute\<close>. \<open>fn\<close> is the guarded call, \<open>rnd\<close> draws
  \<open>rand.Float64()\<close> and \<open>wait\<close> is the \<open>select\<close> on \<open>ctx.Done()\<close> and the timer; all act on
  the closure's state \<open>'c\<close>.
\<close>

function Execute_loop ::
  "RetryPolicy \<Rightarrow> ('c \<Rightarrow> rat \<times> 'c) \<Rightarrow> (duration \<Rightarrow> 'c \<Rightarrow> go_error option \<times> 'c)
    \<Rightarrow> ('c \<Rightarrow> go_error option \<times> 'c) \<Rightarrow> int \<Rightarrow> duration \<Rightarrow> 'c \<Rightarrow> go_error option \<times> 'c" where
  "Execute_loop p rnd wait fn attempt delay c =
     (if \<not> attempt < rp_MaxAttempts p then (None, c)
      else (case fn c of
        (None, c1) \<Rightarrow> (None, c1)
      | (Some err, c1) \<Rightarrow>
          if \<not> is_retriable err then (Some err, c1)
          else if attempt = rp_MaxAttempts p - 1 then (Some (escalate err), c1)
          else (case rnd c1 of (r, c2) \<Rightarrow>
            (case wait (jittered p delay r) c2 of
              (Some e, c3) \<Rightarrow> (Some e, c3)
            | (None, c3) \<Rightarrow>
                Execute_loop p rnd wait fn (attempt + 1) (scaled p delay) c3))))"
  by pat_completeness auto
termination
  by (relation "measure (\<lambda>(p, rnd, wait, fn, attempt, delay, c). nat (rp_MaxAttempts p - attempt))")
    auto

declare Execute_loop.simps [simp del]

definition Execute ::
  "RetryPolicy \<Rightarrow> ('c \<Rightarrow> rat \<times> 'c) \<Rightarrow> (duration \<Rightarrow> 'c \<Rightarrow> go_error option \<times> 'c)
    \<Rightarrow> ('c \<Rightarrow> go_error option \<times> 'c) \<Rightarrow> 'c \<Rightarrow> go_error option \<times> 'c" where
  "Execute p rnd wait fn c = Execute_loop p rnd wait fn 0 (rp_BaseDelay p) c"

section \<open>The circuit breaker\<close>

datatype cbState = cbClosed | cbOpen | cbHalfOpen

record CircuitBreaker =
  cb_state :: cbState
  cb_failures :: int
  cb_successes :: int
  cb_threshold :: int
  cb_openTimeout :: duration
  cb_openedAt :: time
  cb_FallbackMsg :: string

definition NewCircuitBreaker :: "int \<Rightarrow> duration \<Rightarrow> CircuitBreaker" where
  "NewCircuitBreaker threshold openTimeout = \<lparr>cb_state = cbClosed, cb_failures = 0,
     cb_successes = 0, cb_threshold = threshold, cb_openTimeout = openTimeout, cb_openedAt = 0,
     cb_FallbackMsg = ''service temporarily unavailable, please retry later''\<rparr>"

definition Allow :: "time \<Rightarrow> CircuitBreaker \<Rightarrow> bool \<times> CircuitBreaker" where
  "Allow now cb = (case cb_state cb of
     cbClosed \<Rightarrow> (True, cb)
   | cbOpen \<Rightarrow> (if cb_openTimeout cb \<le> now - cb_openedAt cb
                then (True, cb\<lparr>cb_state := cbHalfOpen\<rparr>) else (False, cb))
   | cbHalfOpen \<Rightarrow> (True, cb))"

definition RecordSuccess :: "CircuitBreaker \<Rightarrow> CircuitBreaker" where
  "RecordSuccess cb = cb\<lparr>cb_failures := 0, cb_successes := cb_successes cb + 1,
     cb_state := cbClosed\<rparr>"

definition RecordFailure :: "time \<Rightarrow> CircuitBreaker \<Rightarrow> CircuitBreaker" where
  "RecordFailure now cb =
     (let cb1 = cb\<lparr>cb_failures := cb_failures cb + 1, cb_successes := 0\<rparr> in
      if cb_state cb1 = cbHalfOpen \<or> cb_threshold cb1 \<le> cb_failures cb1
      then cb1\<lparr>cb_state := cbOpen, cb_openedAt := now, cb_failures := 0\<rparr> else cb1)"

fun State :: "CircuitBreaker \<Rightarrow> string" where
  "State cb = (case cb_state cb of cbOpen \<Rightarrow> ''Open'' | cbHalfOpen \<Rightarrow> ''HalfOpen''
     | cbClosed \<Rightarrow> ''Closed'')"

text \<open>
  The breaker as a step relation. Each rule is one method call, with the time it reads; the
  clock never goes back.
\<close>

datatype cb_event = EvAllow bool | EvSuccess | EvFailure

inductive cb_step :: "CircuitBreaker \<times> time \<Rightarrow> cb_event \<Rightarrow> CircuitBreaker \<times> time \<Rightarrow> bool" where
  allow: "t \<le> now \<Longrightarrow> Allow now cb = (ok, cb') \<Longrightarrow> cb_step (cb, t) (EvAllow ok) (cb', now)"
| success: "t \<le> now \<Longrightarrow> cb_step (cb, t) EvSuccess (RecordSuccess cb, now)"
| failure: "t \<le> now \<Longrightarrow> cb_step (cb, t) EvFailure (RecordFailure now cb, now)"

inductive cb_run :: "CircuitBreaker \<times> time \<Rightarrow> cb_event list \<Rightarrow> CircuitBreaker \<times> time \<Rightarrow> bool" where
  nil: "cb_run c [] c"
| snoc: "cb_run c es d \<Longrightarrow> cb_step d e f \<Longrightarrow> cb_run c (es @ [e]) f"

inductive_cases cb_stepE: "cb_step c e d"
inductive_simps cb_step_allow: "cb_step (cb, t) (EvAllow ok) d"
inductive_simps cb_step_success: "cb_step (cb, t) EvSuccess d"
inductive_simps cb_step_failure: "cb_step (cb, t) EvFailure d"

text \<open>
  The breaker's invariant: its counters are never negative, and the failure counter stays below
  a positive threshold (reaching it opens the breaker and resets the counter).
\<close>

definition cb_wf :: "CircuitBreaker \<Rightarrow> bool" where
  "cb_wf cb \<longleftrightarrow> 0 \<le> cb_failures cb \<and> 0 \<le> cb_successes cb
     \<and> (0 < cb_threshold cb \<longrightarrow> cb_failures cb < cb_threshold cb)"


section \<open>Lemmas: the retry loop\<close>

text \<open>
  An instrumented closure: it counts the calls of \<open>fn\<close> and records the waits, and otherwise
  behaves as the closure it wraps.
\<close>

definition counted_fn ::
  "('c \<Rightarrow> go_error option \<times> 'c) \<Rightarrow> nat \<times> duration list \<times> 'c \<Rightarrow> go_error option \<times> nat \<times> duration list \<times> 'c" where
  "counted_fn fn x = (case x of (n, ws, c) \<Rightarrow> (case fn c of (e, c') \<Rightarrow> (e, Suc n, ws, c')))"

definition counted_rnd ::
  "('c \<Rightarrow> rat \<times> 'c) \<Rightarrow> nat \<times> duration list \<times> 'c \<Rightarrow> rat \<times> nat \<times> duration list \<times> 'c" where
  "counted_rnd rnd x = (case x of (n, ws, c) \<Rightarrow> (case rnd c of (r, c') \<Rightarrow> (r, n, ws, c')))"

definition counted_wait ::
  "(duration \<Rightarrow> 'c \<Rightarrow> go_error option \<times> 'c) \<Rightarrow> duration \<Rightarrow> nat \<times> duration list \<times> 'c
    \<Rightarrow> go_error option \<times> nat \<times> duration list \<times> 'c" where
  "counted_wait wait d x = (case x of (n, ws, c) \<Rightarrow>
     (case wait d c of (e, c') \<Rightarrow> (e, n, ws @ [d], c')))"

lemmas counted_defs = counted_fn_def counted_rnd_def counted_wait_def

abbreviation counted_loop where
  "counted_loop p rnd wait fn \<equiv> Execute_loop p (counted_rnd rnd) (counted_wait wait) (counted_fn fn)"

lemma jittered_le [simp]: "jittered p d r \<le> rp_MaxDelay p"
  by (simp add: jittered_def capped_def)

text \<open>One equation per way through the loop body, and the induction rule that follows it.\<close>

lemma Execute_loop_done [simp]:
  "\<not> attempt < rp_MaxAttempts p \<Longrightarrow> Execute_loop p rnd wait fn attempt delay c = (None, c)"
  by (subst Execute_loop.simps) simp

lemma Execute_loop_ok:
  "attempt < rp_MaxAttempts p \<Longrightarrow> fn c = (None, c1)
    \<Longrightarrow> Execute_loop p rnd wait fn attempt delay c = (None, c1)"
  by (subst Execute_loop.simps) simp

lemma Execute_loop_fatal:
  "attempt < rp_MaxAttempts p \<Longrightarrow> fn c = (Some err, c1) \<Longrightarrow> \<not> is_retriable err
    \<Longrightarrow> Execute_loop p rnd wait fn attempt delay c = (Some err, c1)"
  by (subst Execute_loop.simps) simp

lemma Execute_loop_exhausted:
  "attempt = rp_MaxAttempts p - 1 \<Longrightarrow> fn c = (Some err, c1) \<Longrightarrow> is_retriable err
    \<Longrightarrow> Execute_loop p rnd wait fn attempt delay c = (Some (escalate err), c1)"
  by (subst Execute_loop.simps) simp

lemma Execute_loop_cancelled:
  "attempt < rp_MaxAttempts p - 1 \<Longrightarrow> fn c = (Some err, c1) \<Longrightarrow> is_retriable err
    \<Longrightarrow> rnd c1 = (r, c2) \<Longrightarrow> wait (jittered p delay r) c2 = (Some e, c3)
    \<Longrightarrow> Execute_loop p rnd wait fn attempt delay c = (Some e, c3)"
  by (subst Execute_loop.simps) simp

lemma Execute_loop_retry:
  "attempt < rp_MaxAttempts p - 1 \<Longrightarrow> fn c = (Some err, c1) \<Longrightarrow> is_retriable err
    \<Longrightarrow> rnd c1 = (r, c2) \<Longrightarrow> wait (jittered p delay r) c2 = (None, c3)
    \<Longrightarrow> Execute_loop p rnd wait fn attempt delay c
      = Execute_loop p rnd wait fn (attempt + 1) (scaled p delay) c3"
  by (subst Execute_loop.simps) simp

lemmas Execute_loop_eqs = Execute_loop_ok Execute_loop_fatal Execute_loop_exhausted
  Execute_loop_cancelled Execute_loop_retry

lemma Execute_loop_induct [case_names finished ok fatal exhausted cancelled retry]:
  fixes P :: "int \<Rightarrow> duration \<Rightarrow> 'c \<Rightarrow> bool"
  assumes finished: "\<And>attempt delay c. \<not> attempt < rp_MaxAttempts p \<Longrightarrow> P attempt delay c"
    and ok: "\<And>attempt delay c c1. attempt < rp_MaxAttempts p \<Longrightarrow> fn c = (None, c1) \<Longrightarrow> P attempt delay c"
    and fatal: "\<And>attempt delay c err c1. attempt < rp_MaxAttempts p \<Longrightarrow> fn c = (Some err, c1)
      \<Longrightarrow> \<not> is_retriable err \<Longrightarrow> P attempt delay c"
    and exhausted: "\<And>attempt delay c err c1. attempt = rp_MaxAttempts p - 1 \<Longrightarrow> fn c = (Some err, c1)
      \<Longrightarrow> is_retriable err \<Longrightarrow> P attempt delay c"
    and cancelled: "\<And>attempt delay c err c1 r c2 e c3. attempt < rp_MaxAttempts p - 1
      \<Longrightarrow> fn c = (Some err, c1) \<Longrightarrow> is_retriable err \<Longrightarrow> rnd c1 = (r, c2)
      \<Longrightarrow> wait (jittered p delay r) c2 = (Some e, c3) \<Longrightarrow> P attempt delay c"
    and retry: "\<And>attempt delay c err c1 r c2 c3. attempt < rp_MaxAttempts p - 1
      \<Longrightarrow> fn c = (Some err, c1) \<Longrightarrow> is_retriable err \<Longrightarrow> rnd c1 = (r, c2)
      \<Longrightarrow> wait (jittered p delay r) c2 = (None, c3)
      \<Longrightarrow> P (attempt + 1) (scaled p delay) c3 \<Longrightarrow> P attempt delay c"
  shows "P attempt delay c"
proof (induction "nat (rp_MaxAttempts p - attempt)" arbitrary: attempt delay c rule: less_induct)
  case (less attempt delay c)
  obtain e1 c1 where fn: "fn c = (e1, c1)" by fastforce
  consider "\<not> attempt < rp_MaxAttempts p" | "attempt < rp_MaxAttempts p" "e1 = None"
    | err where "attempt < rp_MaxAttempts p" "e1 = Some err" "\<not> is_retriable err"
    | err where "attempt = rp_MaxAttempts p - 1" "e1 = Some err" "is_retriable err"
    | err where "attempt < rp_MaxAttempts p - 1" "e1 = Some err" "is_retriable err"
    by (cases e1) force+
  then show ?case
  proof cases
    case (5 err)
    obtain r c2 where rnd: "rnd c1 = (r, c2)" by fastforce
    obtain w c3 where wait: "wait (jittered p delay r) c2 = (w, c3)" by fastforce
    have "P (attempt + 1) (scaled p delay) c3" using 5 by (intro less) simp
    with 5 fn rnd wait cancelled retry show ?thesis by (cases w) blast+
  qed (use fn finished ok fatal exhausted in blast)+
qed

text \<open>The instrumentation does not change the outcome.\<close>

lemma counted_loop_erase:
  "(case counted_loop p rnd wait fn attempt delay (n, ws, c) of (e, _, _, c') \<Rightarrow> (e, c'))
   = Execute_loop p rnd wait fn attempt delay c"
  by (induction attempt delay c arbitrary: n ws
      rule: Execute_loop_induct [where p = p and rnd = rnd and wait = wait and fn = fn])
    (simp_all add: counted_defs Execute_loop_eqs)

lemma counted_loop_bounds:
  assumes "\<forall>d \<in> set ws. d \<le> rp_MaxDelay p"
  shows "case counted_loop p rnd wait fn attempt delay (n, ws, c) of (e, n', ws', c') \<Rightarrow>
    n' \<le> n + nat (rp_MaxAttempts p - attempt)
    \<and> length ws' \<le> length ws + nat (rp_MaxAttempts p - attempt - 1)
    \<and> (\<forall>d \<in> set ws'. d \<le> rp_MaxDelay p)"
  using assms
proof (induction attempt delay c arbitrary: n ws
    rule: Execute_loop_induct [where p = p and rnd = rnd and wait = wait and fn = fn])
  case (retry attempt delay c err c1 r c2 c3)
  from retry.IH [of "ws @ [jittered p delay r]" "Suc n"] retry show ?case
    by (auto simp: counted_defs Execute_loop_retry nat_diff_distrib split: prod.splits)
qed (auto simp: counted_defs Execute_loop_eqs)

lemma escalate_not_retriable: "is_retriable err \<Longrightarrow> \<not> is_retriable (escalate err)"
  by (auto simp: escalate_def is_retriable_def split: option.splits)

lemma Execute_loop_not_retriable:
  assumes "\<And>d c e c'. wait d c = (Some e, c') \<Longrightarrow> \<not> is_retriable e"
    and "Execute_loop p rnd wait fn attempt delay c = (Some err, c')"
  shows "\<not> is_retriable err"
  using assms(2)
  by (induction attempt delay c
      rule: Execute_loop_induct [where p = p and rnd = rnd and wait = wait and fn = fn])
    (auto simp: Execute_loop_eqs escalate_not_retriable dest: assms(1))

text \<open>A call that keeps failing with retriable errors is made exactly \<open>MaxAttempts\<close> times.\<close>

lemma Execute_loop_always_failing:
  assumes "\<And>c. \<exists>err c'. fn c = (Some err, c') \<and> is_retriable err"
    and "\<And>d c. \<exists>c'. wait d c = (None, c')"
    and "attempt < rp_MaxAttempts p"
  shows "case counted_loop p rnd wait fn attempt delay (n, ws, c) of (e, n', ws', c') \<Rightarrow>
    n' = n + nat (rp_MaxAttempts p - attempt)
    \<and> (\<exists>node cause. e = Some (NewFatalError node cause))"
  using assms(3)
proof (induction attempt delay c arbitrary: n ws
    rule: Execute_loop_induct [where p = p and rnd = rnd and wait = wait and fn = fn])
  case (ok attempt delay c c1)
  with assms(1) [of c] show ?case by simp
next
  case (fatal attempt delay c err c1)
  with assms(1) [of c] show ?case by simp
next
  case (exhausted attempt delay c err c1)
  then show ?case
    by (auto simp: counted_defs Execute_loop_exhausted escalate_def is_retriable_def split: option.splits)
next
  case (cancelled attempt delay c err c1 r c2 e c3)
  with assms(2) [of "jittered p delay r" c2] show ?case by simp
next
  case (retry attempt delay c err c1 r c2 c3)
  from retry.IH [of "Suc n" "ws @ [jittered p delay r]"] retry show ?case
    by (auto simp: counted_defs Execute_loop_retry nat_diff_distrib split: prod.splits)
qed simp


section \<open>Lemmas: the circuit breaker\<close>

lemma cb_wf_new [simp]: "cb_wf (NewCircuitBreaker threshold timeout)"
  by (simp add: cb_wf_def NewCircuitBreaker_def)

lemma cb_step_wf: "cb_step c e d \<Longrightarrow> cb_wf (fst c) \<Longrightarrow> cb_wf (fst d)"
  by (erule cb_stepE)
    (auto simp: cb_wf_def Allow_def RecordSuccess_def RecordFailure_def Let_def
      split: cbState.splits if_splits)

lemma cb_step_config:
  "cb_step c e d \<Longrightarrow> cb_threshold (fst d) = cb_threshold (fst c)
    \<and> cb_openTimeout (fst d) = cb_openTimeout (fst c)"
  by (erule cb_stepE)
    (auto simp: Allow_def RecordSuccess_def RecordFailure_def Let_def split: cbState.splits if_splits)

lemma cb_run_wf: "cb_run c es d \<Longrightarrow> cb_wf (fst c) \<Longrightarrow> cb_wf (fst d)"
  by (induction rule: cb_run.induct) (auto dest: cb_step_wf)

lemma cb_run_config:
  "cb_run c es d \<Longrightarrow> cb_threshold (fst d) = cb_threshold (fst c)
    \<and> cb_openTimeout (fst d) = cb_openTimeout (fst c)"
  by (induction rule: cb_run.induct) (auto dest: cb_step_config)

text \<open>An opening records the current time, which later steps never exceed.\<close>

definition cb_opened_past :: "CircuitBreaker \<times> time \<Rightarrow> bool" where
  "cb_opened_past c \<longleftrightarrow> (cb_state (fst c) = cbOpen \<longrightarrow> cb_openedAt (fst c) \<le> snd c)"

lemma cb_step_opened_past: "cb_step c e d \<Longrightarrow> cb_opened_past c \<Longrightarrow> cb_opened_past d"
  by (erule cb_stepE)
    (auto simp: cb_opened_past_def Allow_def RecordSuccess_def RecordFailure_def Let_def
      split: cbState.splits if_splits)

lemma cb_failures_closed:
  assumes "cb_state cb = cbClosed" and "cb_failures cb + int n < cb_threshold cb"
  shows "cb_state ((RecordFailure now ^^ n) cb) = cbClosed
    \<and> cb_failures ((RecordFailure now ^^ n) cb) = cb_failures cb + int n
    \<and> cb_threshold ((RecordFailure now ^^ n) cb) = cb_threshold cb"
  using assms by (induction n) (auto simp: RecordFailure_def Let_def)

text \<open>A fresh breaker after \<open>n\<close> failures in a row at time \<open>now\<close>.\<close>

definition failed_times :: "int \<Rightarrow> duration \<Rightarrow> time \<Rightarrow> nat \<Rightarrow> CircuitBreaker" where
  "failed_times threshold timeout now n = (RecordFailure now ^^ n) (NewCircuitBreaker threshold timeout)"

section \<open>Properties of resilience.go\<close>

text \<open>
  C16: a retried call is bounded. Whatever the call does, \<open>Execute\<close> makes at most
  \<open>MaxAttempts\<close> calls and one wait fewer, no wait is longer than \<open>MaxDelay\<close>, and an error
  it returns is never a retriable one: retriable errors are used up by retries or escalated to
  fatal (provided that what the context reports when it is done is not itself a retriable agent
  error). Counting calls and waits does not change the result.
\<close>

theorem retry_execute_bounded:
  assumes "\<forall>d c. (case wait d c of (Some e, _) \<Rightarrow> \<not> is_retriable e | (None, _) \<Rightarrow> True)"
  shows "case Execute p (counted_rnd rnd) (counted_wait wait) (counted_fn fn) (0, [], c) of
    (e, calls, waits, c') \<Rightarrow>
      calls \<le> nat (rp_MaxAttempts p) \<and> length waits \<le> nat (rp_MaxAttempts p - 1)
      \<and> (\<forall>d \<in> set waits. d \<le> rp_MaxDelay p)
      \<and> Execute p rnd wait fn c = (e, c')
      \<and> (case e of Some err \<Rightarrow> \<not> is_retriable err | None \<Rightarrow> True)"
proof -
  obtain e calls waits c' where r:
    "Execute p (counted_rnd rnd) (counted_wait wait) (counted_fn fn) (0, [], c) = (e, calls, waits, c')"
    by (metis surj_pair)
  with counted_loop_erase [of p rnd wait fn 0 "rp_BaseDelay p" 0 "[]" c]
  have erased: "Execute p rnd wait fn c = (e, c')" by (simp add: Execute_def)
  have "\<not> is_retriable err" if "e = Some err" for err
    by (rule Execute_loop_not_retriable [of wait p rnd fn 0 "rp_BaseDelay p" c err c'])
      (use assms erased that in \<open>auto simp: Execute_def split: prod.splits option.splits\<close>)
  then show ?thesis
    using r erased counted_loop_bounds
      [where ws = "[]" and p = p and rnd = rnd and wait = wait and fn = fn and attempt = 0
        and delay = "rp_BaseDelay p" and n = 0 and c = c]
    by (auto simp: Execute_def split: option.splits)
qed

theorem retry_execute_bounded_witness:
  "\<exists>e calls waits.
    Execute DefaultRetryPolicy (counted_rnd (\<lambda>c. (0, c))) (counted_wait (\<lambda>d c. (None, c)))
      (counted_fn (\<lambda>c. (Some (NewRetriableError ''n'' (ErrorText ''boom'') 0), c))) (0, [], ())
    = (e, calls, waits, ()) \<and> calls \<le> 3 \<and> length waits \<le> 2"
proof -
  have "\<forall>d c. (case (\<lambda>(d :: duration) c. (None :: go_error option, c :: unit)) d c of
      (Some e, _) \<Rightarrow> \<not> is_retriable e | (None, _) \<Rightarrow> True)" by simp
  from retry_execute_bounded [OF this, of DefaultRetryPolicy "\<lambda>c. (0, c)"
      "\<lambda>c. (Some (NewRetriableError ''n'' (ErrorText ''boom'') 0), c)" "()"]
  show ?thesis by (auto simp: DefaultRetryPolicy_def split: prod.splits)
qed

text \<open>
  A call that keeps failing with retriable errors is attempted exactly \<open>MaxAttempts\<close>
  times and ends as a fatal error of the failing node; a policy without attempts makes no call
  at all and reports success.
\<close>

theorem retry_execute_exhausts:
  assumes "\<forall>c. \<exists>err c'. fn c = (Some err, c') \<and> is_retriable err"
    and "\<forall>d c. \<exists>c'. wait d c = (None, c')"
  shows "case Execute p (counted_rnd rnd) (counted_wait wait) (counted_fn fn) (0, [], c) of
    (e, calls, waits, c') \<Rightarrow> calls = nat (rp_MaxAttempts p)
      \<and> (if 0 < rp_MaxAttempts p then \<exists>node cause. e = Some (NewFatalError node cause) else e = None)"
proof (cases "0 < rp_MaxAttempts p")
  case True
  from Execute_loop_always_failing
    [where fn = fn and wait = wait and attempt = 0 and p = p and rnd = rnd
      and delay = "rp_BaseDelay p" and n = 0 and ws = "[]" and c = c] assms True
  show ?thesis by (auto simp: Execute_def split: prod.splits)
next
  case False
  then show ?thesis by (simp add: Execute_def)
qed

theorem retry_execute_exhausts_witness:
  "\<exists>waits node cause.
    Execute DefaultRetryPolicy (counted_rnd (\<lambda>c. (0, c))) (counted_wait (\<lambda>d c. (None, c)))
      (counted_fn (\<lambda>c. (Some (NewRetriableError ''n'' (ErrorText ''boom'') 0), c))) (0, [], ())
    = (Some (NewFatalError node cause), 3, waits, ())"
proof -
  have "\<forall>c :: unit. \<exists>err c'. (Some (NewRetriableError ''n'' (ErrorText ''boom'') 0), c) = (Some err, c')
      \<and> is_retriable err" by (auto simp: is_retriable_def)
  moreover have "\<forall>(d :: duration) (c :: unit). \<exists>c'. (None :: go_error option, c) = (None, c')" by simp
  ultimately show ?thesis
    using retry_execute_exhausts [of "\<lambda>c. (Some (NewRetriableError ''n'' (ErrorText ''boom'') 0), c)"
        "\<lambda>d c. (None, c)" DefaultRetryPolicy "\<lambda>c. (0, c)" "()"]
    by (auto simp: DefaultRetryPolicy_def split: prod.splits)
qed

text \<open>
  A closed breaker opens at exactly the threshold. A fresh breaker with a positive threshold
  stays closed through fewer than \<open>threshold\<close> failures in a row, is open after that many, and
  then refuses every call until \<open>openTimeout\<close> has passed, when it lets a probe through.
\<close>

theorem breaker_opens_at_threshold:
  assumes "0 < threshold"
  shows "(\<forall>n. int n < threshold \<longrightarrow> cb_state (failed_times threshold timeout now n) = cbClosed)
    \<and> cb_state (failed_times threshold timeout now (nat threshold)) = cbOpen
    \<and> (\<forall>t. Allow t (failed_times threshold timeout now (nat threshold)) =
        (if t - now < timeout then (False, failed_times threshold timeout now (nat threshold))
         else (True, (failed_times threshold timeout now (nat threshold))\<lparr>cb_state := cbHalfOpen\<rparr>)))"
proof -
  let ?cb = "NewCircuitBreaker threshold timeout"
  have closed: "cb_state (failed_times threshold timeout now n) = cbClosed \<and> cb_failures (failed_times threshold timeout now n) = int n
      \<and> cb_threshold (failed_times threshold timeout now n) = threshold" if "int n < threshold" for n
    using cb_failures_closed [of ?cb n now] that by (simp add: failed_times_def NewCircuitBreaker_def)
  obtain m where m: "nat threshold = Suc m" using assms(1) by (cases "nat threshold") auto
  have "failed_times threshold timeout now (Suc m) = RecordFailure now (failed_times threshold timeout now m)" by (simp add: failed_times_def)
  moreover have "cb_openTimeout (failed_times threshold timeout now k) = timeout" for k
    unfolding failed_times_def by (induction k) (simp_all add: NewCircuitBreaker_def RecordFailure_def Let_def)
  ultimately show ?thesis
    using closed closed [of m] m by (auto simp: RecordFailure_def Allow_def Let_def)
qed

theorem breaker_opens_at_threshold_witness:
  "cb_state (failed_times 3 50 7 2) = cbClosed \<and> cb_state (failed_times 3 50 7 (nat 3)) = cbOpen
   \<and> fst (Allow 20 (failed_times 3 50 7 (nat 3))) = False
   \<and> fst (Allow 57 (failed_times 3 50 7 (nat 3))) = True"
  using breaker_opens_at_threshold [of 3 50 7] by simp

text \<open>
  C17: in every run of a breaker (any sequence of calls to \<open>Allow\<close>, \<open>RecordSuccess\<close> and
  \<open>RecordFailure\<close> with a clock that does not go back) the failure counter stays within its
  threshold, and \<open>Allow\<close> refuses exactly while the breaker is open and less than
  \<open>openTimeout\<close> has passed since it opened; a refusal changes nothing.
\<close>

theorem breaker_run_safe:
  assumes "0 < threshold"
    and "cb_run (NewCircuitBreaker threshold timeout, t0) es (cb, t)"
    and "cb_step (cb, t) (EvAllow ok) (cb', t')"
  shows "0 \<le> cb_failures cb \<and> cb_failures cb < threshold
    \<and> (ok \<longleftrightarrow> \<not> (cb_state cb = cbOpen \<and> t' - cb_openedAt cb < timeout))
    \<and> (\<not> ok \<longrightarrow> cb' = cb)
    \<and> (cb_state cb = cbOpen \<longrightarrow> cb_openedAt cb \<le> t)"
proof -
  from assms(2) cb_run_wf have "cb_wf cb" by fastforce
  moreover from cb_run_config [OF assms(2)]
  have cfg: "cb_threshold cb = threshold" "cb_openTimeout cb = timeout"
    by (simp_all add: NewCircuitBreaker_def)
  moreover have "cb_opened_past (cb, t)"
    using assms(2)
  proof (induction "(NewCircuitBreaker threshold timeout, t0)" es "(cb, t)"
      arbitrary: cb t rule: cb_run.induct)
    case nil
    then show ?case by (simp add: cb_opened_past_def NewCircuitBreaker_def)
  next
    case (snoc es d e)
    then show ?case by (cases d) (auto intro: cb_step_opened_past)
  qed
  moreover from assms(3) have "Allow t' cb = (ok, cb')" by (simp add: cb_step_allow)
  ultimately show ?thesis using assms(1)
    by (auto simp: cb_wf_def cb_opened_past_def Allow_def split: cbState.splits if_splits)
qed

theorem breaker_run_safe_witness:
  "\<exists>cb. cb_run (NewCircuitBreaker 1 50, 0) [EvFailure] (cb, 7)
    \<and> cb_step (cb, 7) (EvAllow False) (cb, 20) \<and> cb_failures cb < 1
    \<and> (cb_state cb = cbOpen \<and> 20 - cb_openedAt cb < 50)"
proof -
  let ?cb = "RecordFailure 7 (NewCircuitBreaker 1 50)"
  have run: "cb_run (NewCircuitBreaker 1 50, 0) [EvFailure] (?cb, 7)"
    using cb_run.snoc [OF cb_run.nil cb_step.failure [of 0 7]] by simp
  have step: "cb_step (?cb, 7) (EvAllow False) (?cb, 20)"
    by (rule cb_step.allow) (simp_all add: Allow_def RecordFailure_def NewCircuitBreaker_def Let_def)
  from breaker_run_safe [OF _ run step] run step show ?thesis by auto
qed

end
