(* ===== verification/Engine_Model.thy ===== *)
theory Engine_Model
  imports Graph_Model Resilience
begin

text \<open>
  Package \<open>engine\<close>, file \<open>engine.go\<close>: the event loop that walks a graph. The world \<open>'w\<close>
  holds everything the stores, the event bus, the nodes, the routers, the hooks and the clock
  read and write. One pass of the \<open>for\<close> loop of \<open>runLoop\<close> is \<open>run_step\<close>; the loop itself
  is a partial function, so that \<open>None\<close> is a loop that never returns. A run-time panic that
  leaves the engine is the outcome \<open>Panicked\<close>.
\<close>

section \<open>Hooks and the engine's configuration\<close>

datatype HookPoint = HookBeforeNode | HookAfterNode | HookOnError | HookPointOther string

record HookMeta =
  hm_Point :: HookPoint
  hm_NodeID :: string
  hm_StepCount :: int
  hm_Elapsed :: duration
  hm_Err :: "go_error option"

text \<open>
  \<open>OnHook\<close> gets a state pointer, which may be nil. It returns whether it panicked, the state
  behind the pointer (as far as it was written) and the world.
\<close>

type_synonym 'w LifecycleHook =
  "AgentState option \<Rightarrow> HookMeta \<Rightarrow> 'w \<Rightarrow> gopanic option \<times> AgentState option \<times> 'w"

record 'w Engine =
  e_graph :: "'w Graph option"
  e_memoryStore :: "'w MemoryStore"
  e_taskStore :: "'w TaskStore option"
  e_eventBus :: "'w EventBus option"
  e_hooks :: "'w LifecycleHook list"
  e_retry :: RetryPolicy
  e_maxSteps :: int
  e_rt :: "'w Runtime"

type_synonym 'w EngineOptions = "'w Engine \<Rightarrow> 'w Engine"

definition WithMaxSteps :: "int \<Rightarrow> 'w EngineOptions" where
  "WithMaxSteps steps e = e\<lparr>e_maxSteps := steps\<rparr>"

definition WithHooks :: "'w LifecycleHook list \<Rightarrow> 'w EngineOptions" where
  "WithHooks hooks e = e\<lparr>e_hooks := e_hooks e @ hooks\<rparr>"

definition WithRetryPolicy :: "RetryPolicy \<Rightarrow> 'w EngineOptions" where
  "WithRetryPolicy rp e = e\<lparr>e_retry := rp\<rparr>"

definition WithTaskStore :: "'w TaskStore option \<Rightarrow> 'w EngineOptions" where
  "WithTaskStore ts e = e\<lparr>e_taskStore := ts\<rparr>"

definition NewEngine ::
  "'w Runtime \<Rightarrow> 'w Graph option \<Rightarrow> 'w MemoryStore \<Rightarrow> 'w EventBus option \<Rightarrow> 'w EngineOptions list
    \<Rightarrow> 'w Engine" where
  "NewEngine rt g mem bus opts = fold (\<lambda>opt e. opt e) opts
     \<lparr>e_graph = g, e_memoryStore = mem, e_taskStore = None, e_eventBus = bus, e_hooks = [],
      e_retry = DefaultRetryPolicy, e_maxSteps = 100, e_rt = rt\<rparr>"

text \<open>
  \<open>fireHooks\<close>: a panic of a hook is recovered and dropped; what the hook wrote before stays. A
  hook cannot turn the engine's pointer into nil or a nil pointer into a state.
\<close>

fun fire_hooks ::
  "'w LifecycleHook list \<Rightarrow> AgentState option \<Rightarrow> HookMeta \<Rightarrow> 'w \<Rightarrow> AgentState option \<times> 'w" where
  "fire_hooks [] st meta w = (st, w)"
| "fire_hooks (h # hs) st meta w =
     (case h st meta w of (panicked, st', w') \<Rightarrow>
        fire_hooks hs (case (st, st') of (Some s, None) \<Rightarrow> Some s | (Some s, Some s') \<Rightarrow> Some s'
          | (None, _) \<Rightarrow> None) meta w')"

definition fireHooks ::
  "'w Engine \<Rightarrow> AgentState option \<Rightarrow> HookMeta \<Rightarrow> 'w \<Rightarrow> AgentState option \<times> 'w" where
  "fireHooks e st meta w = fire_hooks (e_hooks e) st meta w"

text \<open>The same for a state pointer that is not nil.\<close>

definition fireHooks_at :: "'w Engine \<Rightarrow> AgentState \<Rightarrow> HookMeta \<Rightarrow> 'w \<Rightarrow> AgentState \<times> 'w" where
  "fireHooks_at e s meta w = (case fireHooks e (Some s) meta w of
     (Some s', w') \<Rightarrow> (s', w') | (None, w') \<Rightarrow> (s, w'))"

section \<open>Routing and processing\<close>

text \<open>
  \<open>resolveNextNode\<close>: the first edge that leaves \<open>LastNodeID\<close> decides. Calling a nil router
  panics.
\<close>

fun first_edge :: "'w Edge list \<Rightarrow> string \<Rightarrow> 'w Edge option" where
  "first_edge [] nid = None"
| "first_edge (ed # es) nid = (if ed_FromID ed = nid then Some ed else first_edge es nid)"

definition resolveNextNode ::
  "'w Graph \<Rightarrow> Ctx \<Rightarrow> AgentState \<Rightarrow> 'w \<Rightarrow> (gopanic + (go_error + string)) \<times> 'w" where
  "resolveNextNode g ctx s w = (case first_edge (g_Edges g) (LastNodeID s) of
     None \<Rightarrow> (Inr (Inr []), w)
   | Some ed \<Rightarrow>
       if ed_IsCond ed then (case ed_Router ed of
         None \<Rightarrow> (Inl NilDereference, w)
       | Some router \<Rightarrow> (case router ctx s w of (r, w') \<Rightarrow> (Inr r, w')))
       else (Inr (Inr (ed_ToID ed)), w))"

text \<open>
  The closure that \<open>processNodeWithRetry\<close> hands to the retry policy: it works on the state
  behind the pointer, the captured \<open>result\<close> and the world. A write of the node to its input
  survives a failed attempt.
\<close>

definition process_call ::
  "Ctx \<Rightarrow> 'w Node \<Rightarrow> AgentState \<times> NodeResult option \<times> 'w
    \<Rightarrow> go_error option \<times> AgentState \<times> NodeResult option \<times> 'w" where
  "process_call ctx node c = (case c of (s, result, w) \<Rightarrow>
     (case n_Process node ctx s w of
       ((s', Inl err), w') \<Rightarrow> (Some err, s', result, w')
     | ((s', Inr r), w') \<Rightarrow> (None, s', r, w')))"

definition processNodeWithRetry ::
  "'w Engine \<Rightarrow> Ctx \<Rightarrow> 'w Node \<Rightarrow> AgentState \<Rightarrow> 'w
    \<Rightarrow> go_error option \<times> AgentState \<times> NodeResult option \<times> 'w" where
  "processNodeWithRetry e ctx node s w =
     Execute (e_retry e)
       (\<lambda>(s, r, w). case rt_Rand (e_rt e) w of (x, w') \<Rightarrow> (x, s, r, w'))
       (\<lambda>d (s, r, w). case rt_Wait (e_rt e) ctx d w of (x, w') \<Rightarrow> (x, s, r, w'))
       (process_call ctx node) (s, None, w)"

section \<open>One pass of the loop\<close>

datatype 'w step =
    Next AgentState 'w
  | Done AgentState "go_error option" 'w
  | Crash gopanic 'w

text \<open>Leaving the loop: set the status, save (the error is dropped), return.\<close>

definition finish ::
  "'w Engine \<Rightarrow> Ctx \<Rightarrow> string \<Rightarrow> AgentState \<Rightarrow> AgentStatus \<Rightarrow> go_error option \<Rightarrow> 'w \<Rightarrow> 'w step" where
  "finish e ctx sid s st err w =
     (let s' = WithStatus s st in
      case ms_Save (e_memoryStore e) ctx sid s' w of (_, w') \<Rightarrow> Done s' err w')"

text \<open>Leaving the loop paused: set the status, save, publish \<open>AgentPaused\<close> if there is a bus.\<close>

definition paused_event :: "string \<Rightarrow> gvars option \<Rightarrow> Event" where
  "paused_event sid payload = \<lparr>ev_Type = EventAgentPaused, ev_SessionID = sid, ev_TaskID = [],
     ev_Payload = payload, ev_Timestamp = 0\<rparr>"

text \<open>
  The payload is computed only when there is a bus: \<open>None\<close> in \<open>payload\<close> is the nil pointer
  dereference of \<open>ae.Cause.Error()\<close>.
\<close>

definition pause ::
  "'w Engine \<Rightarrow> Ctx \<Rightarrow> string \<Rightarrow> AgentState \<Rightarrow> gvars option option \<Rightarrow> 'w \<Rightarrow> 'w step" where
  "pause e ctx sid s payload w =
     (let s' = WithStatus s StatusPaused in
      case ms_Save (e_memoryStore e) ctx sid s' w of (_, w1) \<Rightarrow>
      (case e_eventBus e of
         None \<Rightarrow> Done s' None w1
       | Some bus \<Rightarrow> (case payload of
           None \<Rightarrow> Crash NilDereference w1
         | Some p \<Rightarrow> (case eb_Publish bus (paused_event sid p) w1 of (_, w2) \<Rightarrow> Done s' None w2))))"

definition update_task_status ::
  "'w Engine \<Rightarrow> Ctx \<Rightarrow> string \<Rightarrow> TaskState \<Rightarrow> string \<Rightarrow> 'w \<Rightarrow> 'w" where
  "update_task_status e ctx tid st msg w = (case e_taskStore e of
     None \<Rightarrow> w
   | Some ts \<Rightarrow> (case rt_Now (e_rt e) w of (now, w1) \<Rightarrow>
       snd (tk_UpdateStatus ts ctx tid
         \<lparr>ts_State = st, ts_Timestamp = now, ts_Message = msg\<rparr> w1)))"

text \<open>The branch for an error of the node.\<close>

definition node_failed ::
  "'w Engine \<Rightarrow> Ctx \<Rightarrow> string \<Rightarrow> string \<Rightarrow> duration \<Rightarrow> go_error \<Rightarrow> AgentState \<Rightarrow> 'w \<Rightarrow> 'w step" where
  "node_failed e ctx sid nodeID elapsed err s w =
     (case fireHooks_at e s \<lparr>hm_Point = HookOnError, hm_NodeID = nodeID,
        hm_StepCount = StepCount s, hm_Elapsed = elapsed, hm_Err = Some err\<rparr> w of (s1, w1) \<Rightarrow>
      let w2 = (if TaskID s1 \<noteq> [] then update_task_status e ctx (TaskID s1) TaskStateFailed (Error err) w1
                else w1) in
      (case errors_As err of
         Some (ErrCategoryHumanNeeded, _, cause) \<Rightarrow>
           pause e ctx sid s1 (map_option (\<lambda>c. Some [(''reason'', GString (Error c))]) cause) w2
       | _ \<Rightarrow> finish e ctx sid s1 StatusFailed (Some err) w2))"

text \<open>Mirroring a node's result to the task store: the artifacts that are new in this step.\<close>

definition append_artifacts ::
  "'w TaskStore \<Rightarrow> Ctx \<Rightarrow> string \<Rightarrow> Artifact list \<Rightarrow> 'w \<Rightarrow> 'w" where
  "append_artifacts ts ctx tid new w = fold (\<lambda>a w. snd (tk_AppendArtifact ts ctx tid a w)) new w"

definition sync_task ::
  "'w Engine \<Rightarrow> Ctx \<Rightarrow> string \<Rightarrow> nat \<Rightarrow> AgentState \<Rightarrow> 'w \<Rightarrow> gopanic option \<times> 'w" where
  "sync_task e ctx nodeID old t w = (case e_taskStore e of
     None \<Rightarrow> (None, w)
   | Some ts \<Rightarrow>
       if TaskID t = [] then (None, w)
       else if length (Artifacts t) < old then (Some SliceOutOfRange, w)
       else (None, update_task_status e ctx (TaskID t) (MapAgentStatusToTaskState (Status t))
              (''Completed node '' @ nodeID)
              (append_artifacts ts ctx (TaskID t) (drop old (Artifacts t)) w)))"

text \<open>Choosing the next node and the end of the pass.\<close>

definition advance ::
  "'w Engine \<Rightarrow> 'w Graph \<Rightarrow> Ctx \<Rightarrow> string \<Rightarrow> string \<Rightarrow> string list \<Rightarrow> AgentState \<Rightarrow> 'w \<Rightarrow> 'w step" where
  "advance e g ctx sid nodeID next_nodes s w =
     (case (case next_nodes of n # _ \<Rightarrow> (Inr (Inr n), w) | [] \<Rightarrow> resolveNextNode g ctx s w) of
        (Inl p, w1) \<Rightarrow> Crash p w1
      | (Inr (Inl err), w1) \<Rightarrow> finish e ctx sid s StatusFailed (Some err) w1
      | (Inr (Inr n), w1) \<Rightarrow>
          if n = [] then
            (if is_terminal g nodeID then finish e ctx sid s StatusCompleted None w1
             else finish e ctx sid s StatusFailed (Some (Sentinel ErrNoNextNode)) w1)
          else Next (s\<lparr>LastNodeID := n\<rparr>) w1)"

text \<open>
  The branch for a result. \<open>s\<close> is the state the node was given, with its step count advanced;
  a result that carries that very pointer shares it, so that what the hooks write to it is seen
  in \<open>s\<close> as well.
\<close>

definition node_succeeded ::
  "'w Engine \<Rightarrow> 'w Graph \<Rightarrow> Ctx \<Rightarrow> string \<Rightarrow> string \<Rightarrow> duration \<Rightarrow> NodeResult \<Rightarrow> AgentState \<Rightarrow> 'w
    \<Rightarrow> 'w step" where
  "node_succeeded e g ctx sid nodeID elapsed result s w =
     (let meta = \<lparr>hm_Point = HookAfterNode, hm_NodeID = nodeID, hm_StepCount = StepCount s,
        hm_Elapsed = elapsed, hm_Err = None\<rparr>;
        ptr = (case nr_State result of RNil \<Rightarrow> None | RSame \<Rightarrow> Some s | RNew t \<Rightarrow> Some t) in
      case fireHooks e ptr meta w of (ptr1, w1) \<Rightarrow>
      (let s1 = (case (nr_State result, ptr1) of (RSame, Some s') \<Rightarrow> s' | _ \<Rightarrow> s);
           r = (case ptr1 of
              None \<Rightarrow> (None, s1, w1)
            | Some t \<Rightarrow>
                let t1 = t\<lparr>StepCount := StepCount s1, LastNodeID := nodeID\<rparr> in
                (case sync_task e ctx nodeID (length (Artifacts s1)) t1 w1 of (p, w2) \<Rightarrow> (p, t1, w2)))
       in case r of
         (Some p, _, w2) \<Rightarrow> Crash p w2
       | (None, s2, w2) \<Rightarrow>
           (case nr_Interrupt result of
              Some sig \<Rightarrow> pause e ctx sid s2 (Some (is_Payload sig)) w2
            | None \<Rightarrow> advance e g ctx sid nodeID (nr_NextNodes result) s2 w2)))"

definition process_step ::
  "'w Engine \<Rightarrow> 'w Graph \<Rightarrow> Ctx \<Rightarrow> string \<Rightarrow> 'w Node \<Rightarrow> AgentState \<Rightarrow> 'w \<Rightarrow> 'w step" where
  "process_step e g ctx sid node s w =
     (let nodeID = LastNodeID s in
      case fireHooks_at e s \<lparr>hm_Point = HookBeforeNode, hm_NodeID = nodeID,
        hm_StepCount = StepCount s, hm_Elapsed = 0, hm_Err = None\<rparr> w of (s1, w1) \<Rightarrow>
      case rt_Now (e_rt e) w1 of (nodeStart, w2) \<Rightarrow>
      case processNodeWithRetry e ctx node s1 w2 of (err, s2, result, w3) \<Rightarrow>
      case rt_Now (e_rt e) w3 of (now, w4) \<Rightarrow>
      let elapsed = now - nodeStart; s3 = s2\<lparr>StepCount := StepCount s2 + 1\<rparr> in
      case err of
        Some er \<Rightarrow> node_failed e ctx sid nodeID elapsed er s3 w4
      | None \<Rightarrow> (case result of
          None \<Rightarrow> Crash NilDereference w4
        | Some r \<Rightarrow> node_succeeded e g ctx sid nodeID elapsed r s3 w4))"

definition run_step :: "'w Engine \<Rightarrow> Ctx \<Rightarrow> string \<Rightarrow> AgentState \<Rightarrow> 'w \<Rightarrow> 'w step" where
  "run_step e ctx sid s w =
     (if Status s = StatusFailed \<or> Status s = StatusCompleted then
        (case ms_Save (e_memoryStore e) ctx sid s w of
           (Inl err, w') \<Rightarrow> Done s (Some err) w' | (Inr _, w') \<Rightarrow> Done s None w')
      else if e_maxSteps e \<le> StepCount s
      then finish e ctx sid s StatusFailed (Some (Sentinel ErrMaxStepsExceeded)) w
      else (case e_graph e of
        None \<Rightarrow> Crash NilDereference w
      | Some g \<Rightarrow> (case Graph_Node g (LastNodeID s) of
          None \<Rightarrow> finish e ctx sid s StatusFailed (Some (Sentinel ErrNoNextNode)) w
        | Some node \<Rightarrow> process_step e g ctx sid node s w)))"

section \<open>The loop, Start and Resume\<close>

datatype 'w outcome =
    Returned "AgentState option" "go_error option" 'w
  | Panicked gopanic 'w

partial_function (option) loop ::
  "'w Engine \<Rightarrow> Ctx \<Rightarrow> string \<Rightarrow> AgentState \<Rightarrow> 'w \<Rightarrow> 'w outcome option" where
  "loop e ctx sid s w = (case run_step e ctx sid s w of
     Next s' w' \<Rightarrow> loop e ctx sid s' w'
   | Done s' err w' \<Rightarrow> Some (Returned (Some s') err w')
   | Crash p w' \<Rightarrow> Some (Panicked p w'))"

definition runLoop :: "'w Engine \<Rightarrow> Ctx \<Rightarrow> string \<Rightarrow> AgentState \<Rightarrow> 'w \<Rightarrow> 'w outcome option" where
  "runLoop e ctx sid s w = loop e (ctx\<lparr>ctx_session := Some sid\<rparr>) sid s w"

definition Start ::
  "'w Engine \<Rightarrow> Ctx \<Rightarrow> string \<Rightarrow> AgentState option \<Rightarrow> 'w \<Rightarrow> 'w outcome option" where
  "Start e ctx sid initialState w =
     (let s = WithStatus (case initialState of None \<Rightarrow> NewState | Some s \<Rightarrow> s) StatusRunning in
      if LastNodeID s = [] then
        (case e_graph e of
           None \<Rightarrow> Some (Panicked NilDereference w)
         | Some g \<Rightarrow> runLoop e ctx sid (s\<lparr>LastNodeID := g_Entry g\<rparr>) w)
      else runLoop e ctx sid s w)"

text \<open>\<open>injection\<close> is the injected map in the order the \<open>range\<close> loop visits it.\<close>

definition inject :: "gvars \<Rightarrow> AgentState \<Rightarrow> AgentState" where
  "inject injection s = fold (\<lambda>(k, v) s. WithVariable s k v) injection s"

definition Resume :: "'w Engine \<Rightarrow> Ctx \<Rightarrow> string \<Rightarrow> gvars \<Rightarrow> 'w \<Rightarrow> 'w outcome option" where
  "Resume e ctx sid injection w =
     (case ms_Load (e_memoryStore e) ctx sid w of
        (Inl err, w1) \<Rightarrow> Some (Returned None (Some err) w1)
      | (Inr s, w1) \<Rightarrow>
          if Status s \<noteq> StatusPaused then Some (Returned (Some s) None w1)
          else (let s1 = WithStatus (inject injection s) StatusRunning in
            case e_graph e of
              None \<Rightarrow> Some (Panicked NilDereference w1)
            | Some g \<Rightarrow> (case resolveNextNode g ctx s1 w1 of
                (Inl p, w2) \<Rightarrow> Some (Panicked p w2)
              | (Inr (Inl err), w2) \<Rightarrow> Some (Returned None (Some err) w2)
              | (Inr (Inr n), w2) \<Rightarrow>
                  if n = [] then
                    (if is_terminal g (LastNodeID s1) then
                       (let s2 = WithStatus s1 StatusCompleted in
                        case ms_Save (e_memoryStore e) ctx sid s2 w2 of
                          (_, w3) \<Rightarrow> Some (Returned (Some s2) None w3))
                     else Some (Returned None (Some (Sentinel ErrNoNextNode)) w2))
                  else runLoop e ctx sid (s1\<lparr>LastNodeID := n\<rparr>) w2)))"

section \<open>The loop as a state machine\<close>

inductive engine_step ::
  "'w Engine \<Rightarrow> Ctx \<Rightarrow> string \<Rightarrow> AgentState \<times> 'w \<Rightarrow> AgentState \<times> 'w \<Rightarrow> bool"
  for e ctx sid where
  pass: "run_step e ctx sid s w = Next s' w' \<Longrightarrow> engine_step e ctx sid (s, w) (s', w')"

inductive engine_reach ::
  "'w Engine \<Rightarrow> Ctx \<Rightarrow> string \<Rightarrow> AgentState \<times> 'w \<Rightarrow> AgentState \<times> 'w \<Rightarrow> bool"
  for e ctx sid where
  start: "engine_reach e ctx sid c c"
| step: "engine_reach e ctx sid c d \<Longrightarrow> engine_step e ctx sid d f \<Longrightarrow> engine_reach e ctx sid c f"

inductive_simps engine_step_iff: "engine_step e ctx sid (s, w) (s', w')"
inductive_cases engine_stepE: "engine_step e ctx sid c d"

end
