(* ===== verification/Memory_Model.thy ===== *)
theory Memory_Model
  imports Interfaces
begin

text \<open>
  Package \<open>memory\<close>: the in-process memory store and event bus. Both live in a world record,
  beside the number of UUIDs drawn so far and the clock; the record is extensible, so that
  other components can add their own state. \<open>uuid n\<close> is the n-th string of the external UUID
  generator, a parameter; where uniqueness matters it is the hypothesis \<open>inj uuid\<close>.
  Event handlers are values of a type \<open>'h\<close>; \<open>call\<close> runs a handler on the world.
\<close>

section \<open>The store (memory/store.go)\<close>

text \<open>A stored document is the state it decodes to.\<close>

record InMemoryStore =
  im_states :: "(string, AgentState) gomap"
  im_checkpoints :: "(string, CheckpointMeta list) gomap"
  im_ckptData :: "(string, AgentState) gomap"

record 'h mem_world =
  mw_store :: InMemoryStore
  mw_subs :: "(EventType, (string, 'h) gomap) gomap"
  mw_uuids :: nat
  mw_clock :: time

definition NewInMemoryStore :: InMemoryStore where
  "NewInMemoryStore = \<lparr>im_states = [], im_checkpoints = [], im_ckptData = []\<rparr>"

definition InMemory_Save ::
  "(nat \<Rightarrow> string) \<Rightarrow> Ctx \<Rightarrow> string \<Rightarrow> AgentState \<Rightarrow> ('h, 'x) mem_world_scheme
    \<Rightarrow> (go_error + string) \<times> ('h, 'x) mem_world_scheme" where
  "InMemory_Save uuid ctx sessionID state w = (case marshal_state state of
     Inl err \<Rightarrow> (Inl err, w)
   | Inr data \<Rightarrow>
       (let ckptID = uuid (mw_uuids w);
            meta = \<lparr>ck_CheckpointID = ckptID, ck_SessionID = sessionID, ck_CreatedAt = mw_clock w\<rparr>;
            st = mw_store w;
            old = (case glookup (im_checkpoints st) sessionID of None \<Rightarrow> [] | Some ms \<Rightarrow> ms)
        in (Inr ckptID, w\<lparr>mw_uuids := Suc (mw_uuids w), mw_store := \<lparr>
              im_states = gset sessionID data (im_states st),
              im_checkpoints = gset sessionID (old @ [meta]) (im_checkpoints st),
              im_ckptData = gset ckptID data (im_ckptData st)\<rparr>\<rparr>)))"

definition InMemory_Load ::
  "Ctx \<Rightarrow> string \<Rightarrow> ('h, 'x) mem_world_scheme \<Rightarrow> (go_error + AgentState) \<times> ('h, 'x) mem_world_scheme" where
  "InMemory_Load ctx sessionID w = (case glookup (im_states (mw_store w)) sessionID of
     None \<Rightarrow> (Inl (Sentinel ErrSessionNotFound), w) | Some data \<Rightarrow> (Inr data, w))"

definition InMemory_LoadCheckpoint ::
  "Ctx \<Rightarrow> string \<Rightarrow> ('h, 'x) mem_world_scheme \<Rightarrow> (go_error + AgentState) \<times> ('h, 'x) mem_world_scheme" where
  "InMemory_LoadCheckpoint ctx checkpointID w = (case glookup (im_ckptData (mw_store w)) checkpointID of
     None \<Rightarrow> (Inl (Sentinel ErrCheckpointNotFound), w) | Some data \<Rightarrow> (Inr data, w))"

definition InMemory_ListCheckpoints ::
  "Ctx \<Rightarrow> string \<Rightarrow> ('h, 'x) mem_world_scheme
    \<Rightarrow> (go_error + CheckpointMeta list) \<times> ('h, 'x) mem_world_scheme" where
  "InMemory_ListCheckpoints ctx sessionID w = (case glookup (im_checkpoints (mw_store w)) sessionID of
     None \<Rightarrow> (Inl (Sentinel ErrSessionNotFound), w) | Some meta \<Rightarrow> (Inr meta, w))"

definition InMemory_AppendMessages ::
  "(nat \<Rightarrow> string) \<Rightarrow> Ctx \<Rightarrow> string \<Rightarrow> Message list \<Rightarrow> ('h, 'x) mem_world_scheme
    \<Rightarrow> go_error option \<times> ('h, 'x) mem_world_scheme" where
  "InMemory_AppendMessages uuid ctx sessionID messages w =
     (case InMemory_Load ctx sessionID w of
        (Inl err, w1) \<Rightarrow> (Some err, w1)
      | (Inr state, w1) \<Rightarrow>
          (case InMemory_Save uuid ctx sessionID (state\<lparr>Messages := Messages state @ messages\<rparr>) w1 of
             (Inl err, w2) \<Rightarrow> (Some err, w2) | (Inr _, w2) \<Rightarrow> (None, w2)))"

text \<open>\<open>Search\<close> is a stub in the source: no messages and no error.\<close>

definition InMemory_Search ::
  "Ctx \<Rightarrow> string \<Rightarrow> string \<Rightarrow> int \<Rightarrow> ('h, 'x) mem_world_scheme
    \<Rightarrow> (go_error + Message list) \<times> ('h, 'x) mem_world_scheme" where
  "InMemory_Search ctx sessionID query topK w = (Inr [], w)"

definition InMemoryStore_ops :: "(nat \<Rightarrow> string) \<Rightarrow> ('h, 'x) mem_world_scheme MemoryStore" where
  "InMemoryStore_ops uuid = \<lparr>ms_Save = InMemory_Save uuid, ms_Load = InMemory_Load,
     ms_LoadCheckpoint = InMemory_LoadCheckpoint, ms_ListCheckpoints = InMemory_ListCheckpoints,
     ms_AppendMessages = InMemory_AppendMessages uuid, ms_Search = InMemory_Search\<rparr>"

section \<open>The event bus (memory/eventbus.go)\<close>

definition InMemory_Publish ::
  "('h \<Rightarrow> Event \<Rightarrow> ('h, 'x) mem_world_scheme \<Rightarrow> ('h, 'x) mem_world_scheme) \<Rightarrow> Event
    \<Rightarrow> ('h, 'x) mem_world_scheme \<Rightarrow> go_error option \<times> ('h, 'x) mem_world_scheme" where
  "InMemory_Publish call event w = (case glookup (mw_subs w) (ev_Type event) of
     None \<Rightarrow> (None, w)
   | Some handlersMap \<Rightarrow>
       (let handlers = map snd handlersMap in (None, fold (\<lambda>h w. call h event w) handlers w)))"

definition InMemory_Subscribe ::
  "(nat \<Rightarrow> string) \<Rightarrow> EventType \<Rightarrow> 'h \<Rightarrow> ('h, 'x) mem_world_scheme
    \<Rightarrow> string \<times> ('h, 'x) mem_world_scheme" where
  "InMemory_Subscribe uuid eventType handler w =
     (let subs = (case glookup (mw_subs w) eventType of
                    None \<Rightarrow> gset eventType [] (mw_subs w) | Some _ \<Rightarrow> mw_subs w);
          subID = uuid (mw_uuids w);
          hs = (case glookup subs eventType of None \<Rightarrow> [] | Some m \<Rightarrow> m)
      in (subID, w\<lparr>mw_uuids := Suc (mw_uuids w), mw_subs := gset eventType (gset subID handler hs) subs\<rparr>))"

text \<open>\<open>Unsubscribe\<close>: the first map, in iteration order, that holds the id loses it.\<close>

definition drop_sub :: "string \<Rightarrow> EventType \<times> (string, 'h) gomap \<Rightarrow> EventType \<times> (string, 'h) gomap" where
  "drop_sub sub x = (fst x, gdelete sub (snd x))"

definition InMemory_Unsubscribe ::
  "string \<Rightarrow> ('h, 'x) mem_world_scheme \<Rightarrow> go_error option \<times> ('h, 'x) mem_world_scheme" where
  "InMemory_Unsubscribe sub w = (None, w\<lparr>mw_subs :=
     update_first (\<lambda>x. glookup (snd x) sub \<noteq> None) (drop_sub sub) (mw_subs w)\<rparr>)"

definition InMemoryEventBus_ops ::
  "('h \<Rightarrow> Event \<Rightarrow> ('h, 'x) mem_world_scheme \<Rightarrow> ('h, 'x) mem_world_scheme)
    \<Rightarrow> ('h, 'x) mem_world_scheme EventBus" where
  "InMemoryEventBus_ops call = \<lparr>eb_Publish = InMemory_Publish call\<rparr>"

text \<open>The clock of this world; waiting never ends early and draws are zero.\<close>

definition mem_runtime :: "('h, 'x) mem_world_scheme Runtime" where
  "mem_runtime = \<lparr>rt_Now = (\<lambda>w. (mw_clock w, w)), rt_Rand = (\<lambda>w. (0, w)),
     rt_Wait = (\<lambda>ctx d w. (None, w\<lparr>mw_clock := mw_clock w + d\<rparr>))\<rparr>"

definition new_mem_world :: "'h mem_world" where
  "new_mem_world = \<lparr>mw_store = NewInMemoryStore, mw_subs = [], mw_uuids = 0, mw_clock = 0\<rparr>"

section \<open>The store keeps the contract\<close>

lemma InMemoryStore_ops_simps [simp]:
  "ms_Save (InMemoryStore_ops uuid) = InMemory_Save uuid"
  "ms_Load (InMemoryStore_ops uuid) = InMemory_Load"
  "ms_LoadCheckpoint (InMemoryStore_ops uuid) = InMemory_LoadCheckpoint"
  "ms_ListCheckpoints (InMemoryStore_ops uuid) = InMemory_ListCheckpoints"
  "ms_AppendMessages (InMemoryStore_ops uuid) = InMemory_AppendMessages uuid"
  by (simp_all add: InMemoryStore_ops_def)

lemmas in_memory_defs = InMemory_Save_def InMemory_Load_def InMemory_LoadCheckpoint_def
  InMemory_ListCheckpoints_def Let_def

interpretation ims: memory_store "InMemoryStore_ops uuid" "\<lambda>w. True" "\<lambda>ctx sid sid'. sid \<noteq> sid'"
  for uuid
  by unfold_locales
    (auto simp: in_memory_defs marshal_state_def split: option.splits sum.splits if_splits)

text \<open>
  The store's own invariant: every checkpoint id it knows is a UUID drawn before, and the data of
  every listed checkpoint is there.
\<close>

definition ims_inv :: "(nat \<Rightarrow> string) \<Rightarrow> ('h, 'x) mem_world_scheme \<Rightarrow> bool" where
  "ims_inv uuid w \<longleftrightarrow> set (gkeys (im_ckptData (mw_store w))) \<subseteq> uuid ` {..<mw_uuids w}
     \<and> (\<forall>(sid, ms) \<in> set (im_checkpoints (mw_store w)). \<forall>m \<in> set ms.
          ck_SessionID m = sid \<and> ck_CheckpointID m \<in> set (gkeys (im_ckptData (mw_store w))))"

lemma ims_inv_new [simp]: "ims_inv uuid new_mem_world"
  by (simp add: ims_inv_def new_mem_world_def NewInMemoryStore_def)

lemma update_set_subset: "set (gset k v m) \<subseteq> insert (k, v) (set m)"
  by (induction m) auto

lemma ims_inv_Save:
  assumes "ims_inv uuid w"
  shows "ims_inv uuid (snd (InMemory_Save uuid ctx sid s w))"
proof (cases "marshal_state s")
  case (Inl e)
  with assms show ?thesis by (simp add: InMemory_Save_def)
next
  case (Inr d)
  let ?st = "mw_store w" and ?ck = "uuid (mw_uuids w)"
  let ?old = "case glookup (im_checkpoints ?st) sid of None \<Rightarrow> [] | Some ms \<Rightarrow> ms"
  let ?meta = "\<lparr>ck_CheckpointID = ?ck, ck_SessionID = sid, ck_CreatedAt = mw_clock w\<rparr>"
  have keys: "set (gkeys (gset ?ck d (im_ckptData ?st))) = insert ?ck (set (gkeys (im_ckptData ?st)))"
    by (rule gkeys_gset)
  have old: "ck_SessionID m = sid \<and> ck_CheckpointID m \<in> set (gkeys (im_ckptData ?st))"
    if "m \<in> set ?old" for m
  proof (cases "glookup (im_checkpoints ?st) sid")
    case (Some ms)
    with that have "(sid, ms) \<in> set (im_checkpoints ?st)" "m \<in> set ms" by (auto dest: map_of_SomeD)
    with assms show ?thesis unfolding ims_inv_def by blast
  qed (use that in simp)
  have entry: "ck_SessionID m = x \<and> ck_CheckpointID m \<in> insert ?ck (set (gkeys (im_ckptData ?st)))"
    if "(x, ms) \<in> set (gset sid (?old @ [?meta]) (im_checkpoints ?st))" "m \<in> set ms" for x ms m
  proof -
    from that(1) update_set_subset [of sid "?old @ [?meta]" "im_checkpoints ?st"]
    have "(x, ms) = (sid, ?old @ [?meta]) \<or> (x, ms) \<in> set (im_checkpoints ?st)" by blast
    then show ?thesis
    proof
      assume "(x, ms) = (sid, ?old @ [?meta])"
      with that(2) have "x = sid" and "m = ?meta \<or> m \<in> set ?old" by auto
      with old [of m] show ?thesis by auto
    next
      assume "(x, ms) \<in> set (im_checkpoints ?st)"
      with assms that(2) show ?thesis unfolding ims_inv_def by blast
    qed
  qed
  then have "\<forall>(x, ms) \<in> set (gset sid (?old @ [?meta]) (im_checkpoints ?st)). \<forall>m \<in> set ms.
      ck_SessionID m = x \<and> ck_CheckpointID m \<in> insert ?ck (set (gkeys (im_ckptData ?st)))"
    by blast
  moreover have "insert ?ck (set (gkeys (im_ckptData ?st))) \<subseteq> uuid ` {..<Suc (mw_uuids w)}"
    using assms by (auto simp: ims_inv_def)
  ultimately show ?thesis
    using Inr keys by (simp add: ims_inv_def InMemory_Save_def Let_def)
qed

text \<open>A new checkpoint leaves the older ones alone, because its id is fresh.\<close>

lemma save_keeps_checkpoint:
  assumes "inj uuid" and "ims_inv uuid w" and "fst (InMemory_LoadCheckpoint ctx ck w) = Inr t"
  shows "fst (InMemory_LoadCheckpoint ctx ck (snd (InMemory_Save uuid ctx' sid s w))) = Inr t"
proof -
  from assms(3) have l: "glookup (im_ckptData (mw_store w)) ck = Some t"
    by (auto simp: InMemory_LoadCheckpoint_def split: option.splits)
  then have "ck \<in> set (gkeys (im_ckptData (mw_store w)))"
    by (metis glookup_None_iff option.distinct(1))
  with assms(2) obtain i where "i < mw_uuids w" "ck = uuid i" by (auto simp: ims_inv_def)
  with assms(1) have "ck \<noteq> uuid (mw_uuids w)" by (auto dest: injD)
  with l show ?thesis
    by (simp add: InMemory_LoadCheckpoint_def InMemory_Save_def Let_def split: sum.split)
qed

text \<open>Saving a list of states to one session.\<close>

fun save_states ::
  "(nat \<Rightarrow> string) \<Rightarrow> Ctx \<Rightarrow> string \<Rightarrow> AgentState list \<Rightarrow> ('h, 'x) mem_world_scheme
    \<Rightarrow> ('h, 'x) mem_world_scheme" where
  "save_states uuid ctx sid [] w = w"
| "save_states uuid ctx sid (s # ss) w = save_states uuid ctx sid ss (snd (InMemory_Save uuid ctx sid s w))"

lemma save_states_snoc:
  "save_states uuid ctx sid (ss @ [s]) w = snd (InMemory_Save uuid ctx sid s (save_states uuid ctx sid ss w))"
  by (induction ss arbitrary: w) simp_all

lemma save_states_inv: "ims_inv uuid w \<Longrightarrow> ims_inv uuid (save_states uuid ctx sid ss w)"
  by (induction ss arbitrary: w) (simp_all add: ims_inv_Save)

text \<open>What the store lists for a session, as checkpoint ids.\<close>

definition listed :: "string \<Rightarrow> ('h, 'x) mem_world_scheme \<Rightarrow> string list" where
  "listed sid w = (case fst (InMemory_ListCheckpoints Background sid w) of
     Inl _ \<Rightarrow> [] | Inr ms \<Rightarrow> map ck_CheckpointID ms)"

lemma listed_Save:
  "state_json_ok s \<Longrightarrow> listed sid (snd (InMemory_Save uuid ctx sid' s w))
    = (if sid' = sid then listed sid w @ [uuid (mw_uuids w)] else listed sid w)"
  by (auto simp: listed_def in_memory_defs marshal_state_def split: option.splits)

section \<open>Properties of package memory\<close>

text \<open>
  C18: time travel in the in-memory store. After saving a list of encodable states to a session
  of a store that keeps its invariant, the store lists one new checkpoint per save, oldest first,
  and every one of them still loads the state saved at that point (as JSON decodes it), while
  \<open>Load\<close> returns the last one. Older checkpoints of any session are untouched.
\<close>

theorem in_memory_time_travel:
  assumes "inj uuid" and "ims_inv uuid w" and "\<forall>s \<in> set ss. state_json_ok s"
  shows "\<exists>cks. listed sid (save_states uuid ctx sid ss w) = listed sid w @ cks
    \<and> map (\<lambda>ck. fst (InMemory_LoadCheckpoint ctx ck (save_states uuid ctx sid ss w))) cks
      = map (\<lambda>s. Inr (json_state s)) ss
    \<and> (ss \<noteq> [] \<longrightarrow> fst (InMemory_Load ctx sid (save_states uuid ctx sid ss w)) = Inr (json_state (last ss)))
    \<and> (\<forall>ck t. fst (InMemory_LoadCheckpoint ctx ck w) = Inr t
        \<longrightarrow> fst (InMemory_LoadCheckpoint ctx ck (save_states uuid ctx sid ss w)) = Inr t)"
  using assms(3)
proof (induction ss rule: rev_induct)
  case Nil
  then show ?case by simp
next
  case (snoc s ss)
  let ?w = "save_states uuid ctx sid ss w"
  from snoc obtain cks where cks: "listed sid ?w = listed sid w @ cks"
    "map (\<lambda>ck. fst (InMemory_LoadCheckpoint ctx ck ?w)) cks = map (\<lambda>s. Inr (json_state s)) ss"
    "\<forall>ck t. fst (InMemory_LoadCheckpoint ctx ck w) = Inr t
        \<longrightarrow> fst (InMemory_LoadCheckpoint ctx ck ?w) = Inr t" by auto
  let ?w' = "snd (InMemory_Save uuid ctx sid s ?w)"
  have inv: "ims_inv uuid ?w" using assms(2) by (rule save_states_inv)
  from snoc.prems obtain w1 where sv: "InMemory_Save uuid ctx sid s ?w = (Inr (uuid (mw_uuids ?w)), w1)"
    by (auto simp: InMemory_Save_def marshal_state_def Let_def)
  have keep: "fst (InMemory_LoadCheckpoint ctx ck ?w') = Inr t"
    if "fst (InMemory_LoadCheckpoint ctx ck ?w) = Inr t" for ck t
    using save_keeps_checkpoint [OF assms(1) inv that] .
  have "fst (InMemory_LoadCheckpoint ctx ck ?w') = fst (InMemory_LoadCheckpoint ctx ck ?w)"
    if ck: "ck \<in> set cks" for ck
  proof -
    from ck have "fst (InMemory_LoadCheckpoint ctx ck ?w)
        \<in> set (map (\<lambda>ck. fst (InMemory_LoadCheckpoint ctx ck ?w)) cks)" by simp
    then obtain t where "fst (InMemory_LoadCheckpoint ctx ck ?w) = Inr t"
      unfolding cks(2) by auto
    with keep show ?thesis by simp
  qed
  then have "map (\<lambda>ck. fst (InMemory_LoadCheckpoint ctx ck ?w')) cks = map (\<lambda>s. Inr (json_state s)) ss"
    unfolding cks(2) [symmetric] by simp
  moreover have "fst (InMemory_LoadCheckpoint ctx (uuid (mw_uuids ?w)) ?w') = Inr (json_state s)"
    "fst (InMemory_Load ctx sid ?w') = Inr (json_state s)"
    using ims.checkpoint_after_save [of uuid ctx sid s ?w] ims.load_after_save [of uuid ctx sid s ?w] sv
    by simp_all
  moreover have "listed sid ?w' = listed sid w @ (cks @ [uuid (mw_uuids ?w)])"
    using snoc.prems cks(1) listed_Save [of s sid uuid ctx sid ?w] by simp
  ultimately show ?case
    using cks(3) keep
    by (intro exI [of _ "cks @ [uuid (mw_uuids ?w)]"]) (simp add: save_states_snoc)
qed

text \<open>A concrete source of distinct ids.\<close>

definition uuid_x :: "nat \<Rightarrow> string" where
  "uuid_x n = replicate n (CHR ''x'')"

lemma inj_uuid_x: "inj uuid_x"
  by (auto intro!: injI simp: uuid_x_def dest: arg_cong [of _ _ length])

theorem in_memory_time_travel_witness:
  "\<exists>cks. listed ''s'' (save_states uuid_x Background ''s'' [NewState, WithStatus NewState StatusPaused]
      (new_mem_world :: unit mem_world)) = cks \<and> length cks = 2
    \<and> fst (InMemory_LoadCheckpoint Background (hd cks) (save_states uuid_x Background ''s''
        [NewState, WithStatus NewState StatusPaused] (new_mem_world :: unit mem_world)))
      = Inr (json_state NewState)"
proof -
  have ok: "\<forall>s \<in> set [NewState, WithStatus NewState StatusPaused]. state_json_ok s"
    by (simp add: state_json_ok_def NewState_def WithStatus_def clone_def vars_def vars_json_ok_def)
  obtain cks where "listed ''s'' (save_states uuid_x Background ''s''
        [NewState, WithStatus NewState StatusPaused] (new_mem_world :: unit mem_world))
      = listed ''s'' (new_mem_world :: unit mem_world) @ cks"
    and m: "map (\<lambda>ck. fst (InMemory_LoadCheckpoint Background ck (save_states uuid_x Background ''s''
        [NewState, WithStatus NewState StatusPaused] (new_mem_world :: unit mem_world)))) cks
      = map (\<lambda>s. Inr (json_state s)) [NewState, WithStatus NewState StatusPaused]"
    using in_memory_time_travel [OF inj_uuid_x ims_inv_new ok, of "''s''" Background] by blast
  moreover have "listed ''s'' (new_mem_world :: unit mem_world) = []"
    by (simp add: listed_def new_mem_world_def NewInMemoryStore_def InMemory_ListCheckpoints_def)
  moreover from m have "length cks = 2" by (metis length_map length_Cons list.size(3) numeral_2_eq_2)
  moreover from m have "fst (InMemory_LoadCheckpoint Background (hd cks) (save_states uuid_x Background ''s''
        [NewState, WithStatus NewState StatusPaused] (new_mem_world :: unit mem_world)))
      = Inr (json_state NewState)" by (cases cks) simp_all
  ultimately show ?thesis by simp
qed

section \<open>The event bus delivers to its subscribers\<close>

definition handlers_for :: "EventType \<Rightarrow> ('h, 'x) mem_world_scheme \<Rightarrow> 'h list" where
  "handlers_for et w = (case glookup (mw_subs w) et of None \<Rightarrow> [] | Some m \<Rightarrow> map snd m)"

text \<open>Every subscription id in the bus is a UUID drawn before.\<close>

definition bus_inv :: "(nat \<Rightarrow> string) \<Rightarrow> ('h, 'x) mem_world_scheme \<Rightarrow> bool" where
  "bus_inv uuid w \<longleftrightarrow> gomap_ok (mw_subs w)
     \<and> (\<forall>x \<in> set (mw_subs w). set (gkeys (snd x)) \<subseteq> uuid ` {..<mw_uuids w})"

lemma bus_inv_new [simp]: "bus_inv uuid new_mem_world"
  by (simp add: bus_inv_def new_mem_world_def)

lemma glookup_update_first:
  assumes "gomap_ok m" and "\<forall>x \<in> set m. P x \<longleftrightarrow> fst x = k"
  shows "glookup (update_first P (\<lambda>x. (fst x, f (snd x))) m) t
    = (if t = k then map_option f (glookup m k) else glookup m t)"
  using assms by (induction m) (auto simp: map_of_eq_None_iff [symmetric])

text \<open>The effect of \<open>Subscribe\<close> on a bus where the new id is fresh.\<close>

definition subs_of :: "EventType \<Rightarrow> ('h, 'x) mem_world_scheme \<Rightarrow> (string, 'h) gomap" where
  "subs_of et w = (case glookup (mw_subs w) et of None \<Rightarrow> [] | Some m \<Rightarrow> m)"

lemma gset_gset: "gset k v (gset k v' m) = gset k v m"
  by (induction m) auto

lemma set_gset_ok: "gomap_ok m \<Longrightarrow> set (gset k v m) = insert (k, v) {x \<in> set m. fst x \<noteq> k}"
  by (induction m) (auto simp: image_iff)

lemma Subscribe_subs:
  "mw_subs (snd (InMemory_Subscribe uuid et h w))
    = gset et (gset (uuid (mw_uuids w)) h (subs_of et w)) (mw_subs w)"
  by (simp add: InMemory_Subscribe_def Let_def subs_of_def gset_gset split: option.split)

lemma bus_inv_fresh:
  assumes "inj uuid" and "bus_inv uuid w" and "x \<in> set (mw_subs w)"
  shows "uuid (mw_uuids w) \<notin> set (gkeys (snd x))"
proof
  assume "uuid (mw_uuids w) \<in> set (gkeys (snd x))"
  with assms(2,3) obtain i where "i < mw_uuids w" "uuid (mw_uuids w) = uuid i"
    unfolding bus_inv_def by blast
  with assms(1) show False by (auto dest: injD)
qed

lemma subs_of_cases: "subs_of et w = [] \<or> (et, subs_of et w) \<in> set (mw_subs w)"
  by (auto simp: subs_of_def split: option.splits dest: map_of_SomeD)

lemma subs_of_fresh:
  assumes "inj uuid" and "bus_inv uuid w"
  shows "uuid (mw_uuids w) \<notin> set (gkeys (subs_of et w))"
  using subs_of_cases [of et w]
proof
  assume "(et, subs_of et w) \<in> set (mw_subs w)"
  from bus_inv_fresh [OF assms this] show ?thesis by simp
qed simp

lemma bus_inv_Subscribe:
  assumes "bus_inv uuid w"
  shows "bus_inv uuid (snd (InMemory_Subscribe uuid et h w))"
proof -
  have old: "set (gkeys (subs_of et w)) \<subseteq> uuid ` {..<mw_uuids w}"
    using subs_of_cases [of et w]
  proof
    assume "(et, subs_of et w) \<in> set (mw_subs w)"
    with assms show ?thesis unfolding bus_inv_def by (metis snd_conv)
  qed simp
  have "mw_uuids (snd (InMemory_Subscribe uuid et h w)) = Suc (mw_uuids w)"
    by (simp add: InMemory_Subscribe_def Let_def)
  moreover have "uuid ` {..<mw_uuids w} \<subseteq> uuid ` {..<Suc (mw_uuids w)}" by auto
  moreover have "set (gkeys (gset (uuid (mw_uuids w)) h (subs_of et w))) \<subseteq> uuid ` {..<Suc (mw_uuids w)}"
    using old unfolding gkeys_gset by auto
  moreover have ok: "gomap_ok (mw_subs w)" using assms by (simp add: bus_inv_def)
  moreover have "set (gkeys (snd x)) \<subseteq> uuid ` {..<Suc (mw_uuids w)}"
    if "x \<in> set (gset et (gset (uuid (mw_uuids w)) h (subs_of et w)) (mw_subs w))" for x
  proof (cases "x = (et, gset (uuid (mw_uuids w)) h (subs_of et w))")
    case True
    with calculation(3) show ?thesis by (simp only: snd_conv)
  next
    case False
    with that ok have "x \<in> set (mw_subs w)" by (simp add: set_gset_ok)
    then have "set (gkeys (snd x)) \<subseteq> uuid ` {..<mw_uuids w}"
      using assms unfolding bus_inv_def by blast
    with calculation(2) show ?thesis by (rule order_trans [rotated])
  qed
  ultimately show ?thesis unfolding bus_inv_def Subscribe_subs by (simp only: gomap_ok_gset) blast
qed

lemma handlers_for_subs: "handlers_for et w = map snd (subs_of et w)"
  by (simp add: handlers_for_def subs_of_def split: option.split)

lemma gset_fresh_end: "k \<notin> set (gkeys m) \<Longrightarrow> gset k v m = m @ [(k, v)]"
  by (induction m) auto

lemma gdelete_fresh_end: "k \<notin> set (gkeys m) \<Longrightarrow> gdelete k (m @ [(k, v)]) = m"
  by (induction m) (auto simp: AList.delete_eq)

lemma Unsubscribe_fresh:
  assumes "inj uuid" and "bus_inv uuid w"
  shows "subs_of et' (snd (InMemory_Unsubscribe (uuid (mw_uuids w))
      (snd (InMemory_Subscribe uuid et h w)))) = subs_of et' w"
proof -
  let ?sub = "uuid (mw_uuids w)"
  let ?m = "gset et (gset ?sub h (subs_of et w)) (mw_subs w)"
  have ok: "gomap_ok (mw_subs w)" using assms(2) by (simp add: bus_inv_def)
  have "\<forall>x \<in> set ?m. glookup (snd x) ?sub \<noteq> None \<longleftrightarrow> fst x = et"
    using bus_inv_fresh [OF assms] by (auto simp: set_gset_ok [OF ok] glookup_None_iff gkeys_gset simp del: set_map)
  from glookup_update_first [OF _ this, of "gdelete ?sub"] ok
  have "glookup (mw_subs (snd (InMemory_Unsubscribe ?sub (snd (InMemory_Subscribe uuid et h w))))) et'
      = (if et' = et then map_option (gdelete ?sub) (glookup ?m et) else glookup ?m et')"
    by (simp add: InMemory_Unsubscribe_def Subscribe_subs drop_sub_def [abs_def])
  moreover have "gdelete ?sub (gset ?sub h (subs_of et w)) = subs_of et w"
    using subs_of_fresh [OF assms] by (simp add: gset_fresh_end gdelete_fresh_end)
  ultimately show ?thesis by (simp add: subs_of_def)
qed

text \<open>
  The event bus delivers to exactly the live subscribers of an event's type. \<open>Publish\<close>
  runs each registered handler once, in order, and reports no error; \<open>Subscribe\<close> adds one
  handler to its event type and leaves the others alone; \<open>Unsubscribe\<close> with the returned id
  takes exactly that handler off again.
\<close>

theorem event_bus_delivery:
  assumes "inj uuid" and "bus_inv uuid w"
  shows "InMemory_Publish call ev w = (None, fold (\<lambda>h w. call h ev w) (handlers_for (ev_Type ev) w) w)
    \<and> handlers_for et' (snd (InMemory_Subscribe uuid et h w))
      = (if et' = et then handlers_for et w @ [h] else handlers_for et' w)
    \<and> bus_inv uuid (snd (InMemory_Subscribe uuid et h w))
    \<and> handlers_for et' (snd (InMemory_Unsubscribe (fst (InMemory_Subscribe uuid et h w))
          (snd (InMemory_Subscribe uuid et h w)))) = handlers_for et' w"
proof -
  have sub: "fst (InMemory_Subscribe uuid et h w) = uuid (mw_uuids w)"
    by (simp add: InMemory_Subscribe_def Let_def)
  have "subs_of et' (snd (InMemory_Subscribe uuid et h w))
      = (if et' = et then gset (uuid (mw_uuids w)) h (subs_of et w) else subs_of et' w)"
    by (simp add: subs_of_def [of et' "snd _"] Subscribe_subs) (simp add: subs_of_def)
  then show ?thesis
    using sub Unsubscribe_fresh [OF assms] subs_of_fresh [OF assms] bus_inv_Subscribe [OF assms(2)]
    by (simp add: handlers_for_subs gset_fresh_end)
      (simp add: InMemory_Publish_def handlers_for_def handlers_for_subs [symmetric] split: option.split)
qed

theorem event_bus_delivery_witness:
  "handlers_for EventAgentPaused (snd (InMemory_Subscribe uuid_x EventAgentPaused (7 :: nat) new_mem_world))
    = [7]"
proof -
  have "handlers_for EventAgentPaused (snd (InMemory_Subscribe uuid_x EventAgentPaused (7 :: nat) new_mem_world))
      = handlers_for EventAgentPaused (new_mem_world :: nat mem_world) @ [7]"
    using event_bus_delivery [OF inj_uuid_x bus_inv_new, where et' = EventAgentPaused
      and et = EventAgentPaused and h = "7 :: nat"] by simp
  moreover have "handlers_for EventAgentPaused (new_mem_world :: nat mem_world) = []"
    by (simp add: handlers_for_def new_mem_world_def)
  ultimately show ?thesis by simp
qed

end
