(* ===== verification/Engine_Props.thy ===== *)
theory Engine_Props
  imports Engine_Model Memory_Model
begin

text \<open>
  Theorems on the event loop of \<open>engine.go\<close>: it ends within the step budget, every way out of
  it saves the returned state, errors become failed or paused sessions, the path it walks is a
  path of the graph, and \<open>Resume\<close> goes on where the session was paused.
\<close>

section \<open>Shapes of the results of one pass\<close>

lemma finish_Done:
  "finish e ctx sid s st err w
    = Done (WithStatus s st) err (snd (ms_Save (e_memoryStore e) ctx sid (WithStatus s st) w))"
  by (simp add: finish_def Let_def split: prod.splits)

lemma pause_not_Next [simp]: "pause e ctx sid s p w \<noteq> Next s' w'"
  by (simp add: pause_def Let_def split: prod.splits option.splits)

lemma finish_not_Next [simp]: "finish e ctx sid s st err w \<noteq> Next s' w'"
  by (simp add: finish_Done)

lemma node_failed_not_Next [simp]: "node_failed e ctx sid n d err s w \<noteq> Next s' w'"
  by (simp add: node_failed_def Let_def split: prod.splits option.splits ErrorCategory.splits)

lemma advance_Next:
  "advance e g ctx sid nid ns s w = Next s' w' \<longleftrightarrow>
    (\<exists>n. n \<noteq> [] \<and> s' = s\<lparr>LastNodeID := n\<rparr>
      \<and> (case ns of m # _ \<Rightarrow> n = m \<and> w' = w | [] \<Rightarrow> resolveNextNode g ctx s w = (Inr (Inr n), w')))"
  by (auto simp: advance_def split: list.splits prod.splits sum.splits if_splits)

text \<open>
  A successful node in one equation: the state the pass goes on with (\<open>result_state\<close>), and what
  happens with it.
\<close>

definition result_state ::
  "'w Engine \<Rightarrow> Ctx \<Rightarrow> string \<Rightarrow> duration \<Rightarrow> NodeResult \<Rightarrow> AgentState \<Rightarrow> 'w
    \<Rightarrow> gopanic option \<times> AgentState \<times> 'w" where
  "result_state e ctx nodeID elapsed result s w =
     (let meta = \<lparr>hm_Point = HookAfterNode, hm_NodeID = nodeID, hm_StepCount = StepCount s,
        hm_Elapsed = elapsed, hm_Err = None\<rparr>;
        ptr = (case nr_State result of RNil \<Rightarrow> None | RSame \<Rightarrow> Some s | RNew t \<Rightarrow> Some t) in
      case fireHooks e ptr meta w of (ptr1, w1) \<Rightarrow>
      (let s1 = (case (nr_State result, ptr1) of (RSame, Some s') \<Rightarrow> s' | _ \<Rightarrow> s) in
       case ptr1 of
         None \<Rightarrow> (None, s1, w1)
       | Some t \<Rightarrow>
           let t1 = t\<lparr>StepCount := StepCount s1, LastNodeID := nodeID\<rparr> in
           (case sync_task e ctx nodeID (length (Artifacts s1)) t1 w1 of (p, w2) \<Rightarrow> (p, t1, w2))))"

lemma node_succeeded_eq:
  "node_succeeded e g ctx sid nodeID elapsed result s w =
    (case result_state e ctx nodeID elapsed result s w of
       (Some p, _, w2) \<Rightarrow> Crash p w2
     | (None, s2, w2) \<Rightarrow> (case nr_Interrupt result of
          Some sig \<Rightarrow> pause e ctx sid s2 (Some (is_Payload sig)) w2
        | None \<Rightarrow> advance e g ctx sid nodeID (nr_NextNodes result) s2 w2))"
  by (simp add: node_succeeded_def result_state_def Let_def split: prod.split)

lemma node_succeeded_Next:
  assumes "node_succeeded e g ctx sid nodeID elapsed result s w = Next s' w'"
  obtains s2 w2 n where "result_state e ctx nodeID elapsed result s w = (None, s2, w2)"
    and "nr_Interrupt result = None" and "n \<noteq> []" and "s' = s2\<lparr>LastNodeID := n\<rparr>"
    and "case nr_NextNodes result of m # _ \<Rightarrow> n = m \<and> w' = w2
      | [] \<Rightarrow> resolveNextNode g ctx s2 w2 = (Inr (Inr n), w')"
  using assms
  by (auto simp: node_succeeded_eq advance_Next split: prod.splits option.splits)

lemma process_step_Next:
  assumes "process_step e g ctx sid node s w = Next s' w'"
  obtains s1 w1 t0 w2 s2 r w3 t1 w4 where
    "fireHooks_at e s \<lparr>hm_Point = HookBeforeNode, hm_NodeID = LastNodeID s,
        hm_StepCount = StepCount s, hm_Elapsed = 0, hm_Err = None\<rparr> w = (s1, w1)"
    and "rt_Now (e_rt e) w1 = (t0, w2)"
    and "processNodeWithRetry e ctx node s1 w2 = (None, s2, Some r, w3)"
    and "rt_Now (e_rt e) w3 = (t1, w4)"
    and "node_succeeded e g ctx sid (LastNodeID s) (t1 - t0) r
        (s2\<lparr>StepCount := StepCount s2 + 1\<rparr>) w4 = Next s' w'"
  using assms by (auto simp: process_step_def Let_def split: prod.splits option.splits)

lemma run_step_Next:
  assumes "run_step e ctx sid s w = Next s' w'"
  obtains g node where "Status s \<noteq> StatusFailed" and "Status s \<noteq> StatusCompleted"
    and "StepCount s < e_maxSteps e" and "e_graph e = Some g"
    and "Graph_Node g (LastNodeID s) = Some node"
    and "process_step e g ctx sid node s w = Next s' w'"
  using assms
  by (auto simp: run_step_def split: if_splits option.splits prod.splits sum.splits)

section \<open>The step counter\<close>

text \<open>
  The engine owns \<open>StepCount\<close>: \<open>steps_kept\<close> says that no node and no hook writes it behind the
  engine's pointer. (A state of the node's own may hold any number: the engine overwrites it.)
\<close>

definition steps_kept_node :: "'w Node \<Rightarrow> bool" where
  "steps_kept_node n \<longleftrightarrow> (\<forall>ctx s w. StepCount (fst (fst (n_Process n ctx s w))) = StepCount s)"

definition steps_kept_hook :: "'w LifecycleHook \<Rightarrow> bool" where
  "steps_kept_hook h \<longleftrightarrow> (\<forall>s meta w.
     case h (Some s) meta w of (_, Some s', _) \<Rightarrow> StepCount s' = StepCount s | _ \<Rightarrow> True)"

definition steps_kept :: "'w Engine \<Rightarrow> bool" where
  "steps_kept e \<longleftrightarrow> (\<forall>h \<in> set (e_hooks e). steps_kept_hook h)
     \<and> (\<forall>g. e_graph e = Some g \<longrightarrow> (\<forall>n \<in> set (map snd (g_Nodes g)). steps_kept_node n))"

lemma steps_kept_hookD:
  assumes "steps_kept_hook h" and "h (Some s) meta w = (p, Some s', w')"
  shows "StepCount s' = StepCount s"
proof -
  from assms(1) have "case h (Some s) meta w of (_, Some s', _) \<Rightarrow> StepCount s' = StepCount s | _ \<Rightarrow> True"
    unfolding steps_kept_hook_def by (elim allE)
  with assms(2) show ?thesis by simp
qed

lemma fire_hooks_steps:
  assumes "\<forall>h \<in> set hs. steps_kept_hook h" and "fire_hooks hs st meta w = (st', w')"
  shows "map_option StepCount st' = map_option StepCount st"
  using assms
proof (induction hs arbitrary: st w)
  case Nil
  then show ?case by simp
next
  case (Cons h hs)
  obtain p st1 w1 where h: "h st meta w = (p, st1, w1)" by (metis surj_pair)
  let ?st = "case (st, st1) of (Some s, None) \<Rightarrow> Some s | (Some s, Some s') \<Rightarrow> Some s' | (None, _) \<Rightarrow> None"
  have "map_option StepCount st' = map_option StepCount ?st"
    using Cons.prems h by (intro Cons.IH [of _ w1]) simp_all
  moreover have "map_option StepCount ?st = map_option StepCount st"
    using Cons.prems(1) h by (auto split: option.splits dest: steps_kept_hookD)
  ultimately show ?case by simp
qed

lemma fireHooks_at_steps:
  "steps_kept e \<Longrightarrow> fireHooks_at e s meta w = (s', w') \<Longrightarrow> StepCount s' = StepCount s"
  using fire_hooks_steps [of "e_hooks e" "Some s" meta w]
  by (auto simp: fireHooks_at_def fireHooks_def steps_kept_def split: prod.splits option.splits)

text \<open>What every call and every wait keeps, \<open>Execute\<close> keeps.\<close>

lemma Execute_loop_keeps:
  assumes "\<And>c. I c \<Longrightarrow> I (snd (fn c))" and "\<And>c. I c \<Longrightarrow> I (snd (rnd c))"
    and "\<And>d c. I c \<Longrightarrow> I (snd (wait d c))" and "I c"
  shows "I (snd (Execute_loop p rnd wait fn attempt delay c))"
  using assms(4)
proof (induction attempt delay c
    rule: Execute_loop_induct [where p = p and rnd = rnd and wait = wait and fn = fn])
  case (ok attempt delay c c1)
  then show ?case using assms(1) [of c] by (simp add: Execute_loop_ok)
next
  case (fatal attempt delay c err c1)
  then show ?case using assms(1) [of c] by (simp add: Execute_loop_fatal)
next
  case (exhausted attempt delay c err c1)
  then show ?case using assms(1) [of c] by (simp add: Execute_loop_exhausted)
next
  case (cancelled attempt delay c err c1 r c2 x c3)
  then show ?case using assms(1) [of c] assms(2) [of c1] assms(3) [of c2 "jittered p delay r"]
    by (simp add: Execute_loop_cancelled)
next
  case (retry attempt delay c err c1 r c2 c3)
  then show ?case using assms(1) [of c] assms(2) [of c1] assms(3) [of c2 "jittered p delay r"]
    by (simp add: Execute_loop_retry)
qed simp

lemma processNodeWithRetry_keeps:
  fixes node :: "'b Node"
  assumes "\<And>s w. I s \<Longrightarrow> I (fst (fst (n_Process node ctx s w)))" and "I s"
    and "processNodeWithRetry e ctx node s w = (err, s', r, w')"
  shows "I s'"
proof -
  have "(\<lambda>c. I (fst c)) (snd (Execute_loop (e_retry e)
       (\<lambda>(s, r, w). case rt_Rand (e_rt e) w of (x, w') \<Rightarrow> (x, s, r, w'))
       (\<lambda>d (s, r, w). case rt_Wait (e_rt e) ctx d w of (x, w') \<Rightarrow> (x, s, r, w'))
       (process_call ctx node) 0 (rp_BaseDelay (e_retry e)) (s, None, w)))"
  proof (rule Execute_loop_keeps)
    fix c :: "AgentState \<times> NodeResult option \<times> 'b"
    assume "I (fst c)"
    then show "I (fst (snd (process_call ctx node c)))"
      using assms(1) [of "fst c" "snd (snd c)"]
      by (auto simp: process_call_def split: prod.splits sum.splits)
  qed (use assms(2) in \<open>auto split: prod.splits\<close>)
  with assms(3) show ?thesis by (simp add: processNodeWithRetry_def Execute_def)
qed

lemma result_state_steps:
  assumes "steps_kept e" and "result_state e ctx nid d r s w = (p, s2, w2)"
  shows "StepCount s2 = StepCount s"
proof -
  let ?ptr = "case nr_State r of RNil \<Rightarrow> None | RSame \<Rightarrow> Some s | RNew t \<Rightarrow> Some t"
  obtain ptr1 w1 where f: "fireHooks e ?ptr \<lparr>hm_Point = HookAfterNode, hm_NodeID = nid,
      hm_StepCount = StepCount s, hm_Elapsed = d, hm_Err = None\<rparr> w = (ptr1, w1)" by fastforce
  with assms(1) have "map_option StepCount ptr1 = map_option StepCount ?ptr"
    by (auto simp: steps_kept_def fireHooks_def intro: fire_hooks_steps)
  with assms(2) f show ?thesis
    by (auto simp: result_state_def Let_def split: state_ref.splits option.splits prod.splits)
qed

definition counts :: "int \<Rightarrow> 'w step \<Rightarrow> bool" where
  "counts k r = (case r of Next s' _ \<Rightarrow> StepCount s' = k | Done t _ _ \<Rightarrow> StepCount t = k
     | Crash _ _ \<Rightarrow> True)"

lemma counts_simps [simp]:
  "counts k (Next s w) \<longleftrightarrow> StepCount s = k" "counts k (Done s err w) \<longleftrightarrow> StepCount s = k"
  "counts k (Crash p w)" "counts k (finish e ctx sid s st err w) \<longleftrightarrow> StepCount s = k"
  by (simp_all add: counts_def finish_Done)

lemma counts_pause [simp]: "StepCount s = k \<Longrightarrow> counts k (pause e ctx sid s p w)"
  by (simp add: pause_def Let_def case_prod_beta split: option.split)

lemma counts_advance: "StepCount s = k \<Longrightarrow> counts k (advance e g ctx sid nid ns s w)"
  by (simp add: advance_def case_prod_beta split: list.split sum.split)

lemma counts_node_failed:
  assumes "steps_kept e"
  shows "counts (StepCount s) (node_failed e ctx sid nid d err s w)"
  using fireHooks_at_steps [OF assms]
  by (auto simp: node_failed_def Let_def split: prod.split option.split ErrorCategory.split)

lemma counts_node_succeeded:
  assumes "steps_kept e"
  shows "counts (StepCount s) (node_succeeded e g ctx sid nid d r s w)"
  using result_state_steps [OF assms]
  by (auto simp: node_succeeded_eq intro: counts_advance split: prod.split option.split)

lemma counts_process_step:
  assumes kept: "steps_kept e" and g: "e_graph e = Some g" and n: "Graph_Node g nid = Some node"
  shows "counts (StepCount s + 1) (process_step e g ctx sid node s w)"
proof -
  from n have "node \<in> set (map snd (g_Nodes g))"
    by (force simp: Graph_Node_def dest: map_of_SomeD)
  with kept g have node: "steps_kept_node node" by (auto simp: steps_kept_def)
  have proc: "StepCount s' = StepCount s1"
    if "processNodeWithRetry e ctx node s1 w1 = (err, s', r, w')" for s1 w1 err s' r w'
    by (rule processNodeWithRetry_keeps [where I = "\<lambda>x. StepCount x = StepCount s1", OF _ _ that])
      (use node in \<open>simp_all add: steps_kept_node_def\<close>)
  obtain s1 w1 where before: "fireHooks_at e s \<lparr>hm_Point = HookBeforeNode, hm_NodeID = LastNodeID s,
        hm_StepCount = StepCount s, hm_Elapsed = 0, hm_Err = None\<rparr> w = (s1, w1)" by fastforce
  obtain err s2 r w2 where p: "processNodeWithRetry e ctx node s1 (snd (rt_Now (e_rt e) w1)) = (err, s2, r, w2)"
    by (metis surj_pair)
  have "StepCount s2 + 1 = StepCount s + 1"
    using proc [OF p] fireHooks_at_steps [OF kept before] by simp
  with counts_node_failed [OF kept, of "s2\<lparr>StepCount := StepCount s2 + 1\<rparr>"]
    counts_node_succeeded [OF kept, of "s2\<lparr>StepCount := StepCount s2 + 1\<rparr>"]
  show ?thesis by (simp add: process_step_def before case_prod_beta p Let_def split: option.split)
qed

lemma run_step_counts:
  assumes "steps_kept e"
  shows "counts (if Status s = StatusFailed \<or> Status s = StatusCompleted \<or> e_maxSteps e \<le> StepCount s
      \<or> (\<exists>g. e_graph e = Some g \<and> Graph_Node g (LastNodeID s) = None)
    then StepCount s else StepCount s + 1) (run_step e ctx sid s w)"
  using counts_process_step [OF assms]
  by (auto simp: run_step_def split: option.split sum.split prod.split)

lemma run_step_steps:
  assumes "steps_kept e" and "run_step e ctx sid s w = Next s' w'"
  shows "StepCount s' = StepCount s + 1"
proof (rule run_step_Next [OF assms(2)])
  fix g node
  assume "Status s \<noteq> StatusFailed" "Status s \<noteq> StatusCompleted" "StepCount s < e_maxSteps e"
    "e_graph e = Some g" "Graph_Node g (LastNodeID s) = Some node"
  with run_step_counts [OF assms(1), of s ctx sid w] assms(2) show ?thesis by simp
qed

section \<open>The loop and the state machine\<close>

lemma engine_reach_first:
  assumes "engine_step e ctx sid c d" and "engine_reach e ctx sid d f"
  shows "engine_reach e ctx sid c f"
  using assms(2,1) by (induction rule: engine_reach.induct) (auto intro: engine_reach.intros)

text \<open>A returning loop has walked to a pass that ends it.\<close>

lemma loop_reaches:
  assumes "loop e ctx sid s w = Some out"
  shows "\<exists>s' w'. engine_reach e ctx sid (s, w) (s', w')
    \<and> (case run_step e ctx sid s' w' of Next _ _ \<Rightarrow> False
        | Done t err v \<Rightarrow> out = Returned (Some t) err v | Crash p v \<Rightarrow> out = Panicked p v)"
proof (induction rule: loop.raw_induct [OF _ assms])
  case (1 lp e ctx sid s w out)
  show ?case
  proof (cases "run_step e ctx sid s w")
    case (Next s1 w1)
    with 1(2) have "lp e ctx sid s1 w1 = Some out" by simp
    from 1(1) [OF this] obtain s' w' where "engine_reach e ctx sid (s1, w1) (s', w')"
      and "case run_step e ctx sid s' w' of Next _ _ \<Rightarrow> False
        | Done t err v \<Rightarrow> out = Returned (Some t) err v | Crash p v \<Rightarrow> out = Panicked p v"
      by blast
    with Next show ?thesis by (blast intro: engine_reach_first engine_step.pass)
  qed (use 1 engine_reach.start in fastforce)+
qed

lemma loop_Next: "run_step e ctx sid s w = Next s' w' \<Longrightarrow> loop e ctx sid s w = loop e ctx sid s' w'"
  by (subst loop.simps) simp

lemma loop_reach_eq:
  assumes "engine_reach e ctx sid c d"
  shows "loop e ctx sid (fst c) (snd c) = loop e ctx sid (fst d) (snd d)"
  using assms
proof (induction rule: engine_reach.induct)
  case (step c d f)
  from step.hyps(2) have "loop e ctx sid (fst d) (snd d) = loop e ctx sid (fst f) (snd f)"
    by (auto elim!: engine_stepE intro: loop_Next)
  with step.IH show ?case by simp
qed simp

text \<open>With the step counter in the engine's hands the loop returns or panics.\<close>

lemma loop_terminates:
  assumes "steps_kept e"
  shows "\<exists>out. loop e ctx sid s w = Some out"
proof (induction "nat (e_maxSteps e - StepCount s)" arbitrary: s w rule: less_induct)
  case less
  show ?case
  proof (cases "run_step e ctx sid s w")
    case (Next s' w')
    then have "StepCount s < e_maxSteps e" by (rule run_step_Next)
    moreover have "StepCount s' = StepCount s + 1" using run_step_steps [OF assms Next] .
    ultimately have "\<exists>out. loop e ctx sid s' w' = Some out" by (intro less) simp
    with loop_Next [OF Next] show ?thesis by simp
  qed (subst loop.simps, simp)+
qed

lemma reach_steps:
  assumes "engine_reach e ctx sid c d" and "steps_kept e"
  shows "StepCount (fst c) \<le> StepCount (fst d)
    \<and> (c = d \<or> StepCount (fst d) \<le> e_maxSteps e)"
  using assms(1)
proof (induction rule: engine_reach.induct)
  case (step c d f)
  obtain s w s' w' where d: "d = (s, w)" "f = (s', w')" by (metis surj_pair)
  with step.hyps(2) have n: "run_step e ctx sid s w = Next s' w'" by (simp add: engine_step_iff)
  then have "StepCount s < e_maxSteps e" by (rule run_step_Next)
  with run_step_steps [OF assms(2) n] step.IH d show ?case by auto
qed simp

section \<open>What every operation keeps of the world\<close>

text \<open>
  \<open>inv_kept I e\<close>: every operation the engine calls keeps the invariant \<open>I\<close> of the world. Then
  so does a pass of the loop, and a pass that ends the loop has just saved the state it returns.
\<close>

definition hooks_keep :: "('w \<Rightarrow> bool) \<Rightarrow> 'w Engine \<Rightarrow> bool" where
  "hooks_keep I e \<longleftrightarrow> (\<forall>h \<in> set (e_hooks e). \<forall>st meta w. I w \<longrightarrow> I (snd (snd (h st meta w))))"

definition graph_keeps :: "('w \<Rightarrow> bool) \<Rightarrow> 'w Graph \<Rightarrow> bool" where
  "graph_keeps I g \<longleftrightarrow>
     (\<forall>n \<in> set (map snd (g_Nodes g)). \<forall>ctx s w. I w \<longrightarrow> I (snd (n_Process n ctx s w)))
   \<and> (\<forall>ed \<in> set (g_Edges g). \<forall>r. ed_Router ed = Some r \<longrightarrow> (\<forall>ctx s w. I w \<longrightarrow> I (snd (r ctx s w))))"

definition runtime_keeps :: "('w \<Rightarrow> bool) \<Rightarrow> 'w Runtime \<Rightarrow> bool" where
  "runtime_keeps I rt \<longleftrightarrow> (\<forall>w. I w \<longrightarrow> I (snd (rt_Now rt w)) \<and> I (snd (rt_Rand rt w))
     \<and> (\<forall>ctx d. I (snd (rt_Wait rt ctx d w))))"

definition tasks_keep :: "('w \<Rightarrow> bool) \<Rightarrow> 'w TaskStore \<Rightarrow> bool" where
  "tasks_keep I ts \<longleftrightarrow> (\<forall>w. I w \<longrightarrow> (\<forall>ctx tid st. I (snd (tk_UpdateStatus ts ctx tid st w)))
     \<and> (\<forall>ctx tid a. I (snd (tk_AppendArtifact ts ctx tid a w))))"

definition inv_kept :: "('w \<Rightarrow> bool) \<Rightarrow> 'w Engine \<Rightarrow> bool" where
  "inv_kept I e \<longleftrightarrow> hooks_keep I e \<and> runtime_keeps I (e_rt e)
     \<and> (\<forall>g. e_graph e = Some g \<longrightarrow> graph_keeps I g)
     \<and> (\<forall>ts. e_taskStore e = Some ts \<longrightarrow> tasks_keep I ts)
     \<and> (\<forall>bus. e_eventBus e = Some bus \<longrightarrow> (\<forall>ev w. I w \<longrightarrow> I (snd (eb_Publish bus ev w))))
     \<and> (\<forall>ctx sid s w. I w \<longrightarrow> I (snd (ms_Save (e_memoryStore e) ctx sid s w)))"

lemma inv_keptD:
  assumes "inv_kept I e"
  shows "h \<in> set (e_hooks e) \<Longrightarrow> I w \<Longrightarrow> I (snd (snd (h st meta w)))"
    and "I w \<Longrightarrow> I (snd (rt_Now (e_rt e) w))" and "I w \<Longrightarrow> I (snd (rt_Rand (e_rt e) w))"
    and "I w \<Longrightarrow> I (snd (rt_Wait (e_rt e) ctx d w))"
    and "e_graph e = Some g \<Longrightarrow> graph_keeps I g"
    and "e_taskStore e = Some ts \<Longrightarrow> I w \<Longrightarrow> I (snd (tk_UpdateStatus ts ctx tid ust w))"
    and "e_taskStore e = Some ts \<Longrightarrow> I w \<Longrightarrow> I (snd (tk_AppendArtifact ts ctx tid a w))"
    and "e_eventBus e = Some bus \<Longrightarrow> I w \<Longrightarrow> I (snd (eb_Publish bus ev w))"
    and "I w \<Longrightarrow> I (snd (ms_Save (e_memoryStore e) ctx sid s w))"
  using assms by (simp_all add: inv_kept_def hooks_keep_def runtime_keeps_def tasks_keep_def)

lemma fire_hooks_keep:
  assumes "\<And>h st meta w. h \<in> set hs \<Longrightarrow> I w \<Longrightarrow> I (snd (snd (h st meta w)))" and "I w"
  shows "I (snd (fire_hooks hs st meta w))"
  using assms
proof (induction hs arbitrary: st w)
  case (Cons h hs)
  have "I (snd (snd (h st meta w)))" using Cons.prems by simp
  with Cons show ?case by (simp add: case_prod_beta)
qed simp

lemma fireHooks_keep: "inv_kept I e \<Longrightarrow> I w \<Longrightarrow> I (snd (fireHooks e st meta w))"
  unfolding fireHooks_def by (rule fire_hooks_keep) (simp_all add: inv_keptD)

lemma fireHooks_at_keep: "inv_kept I e \<Longrightarrow> I w \<Longrightarrow> I (snd (fireHooks_at e s meta w))"
  using fireHooks_keep [of I e w "Some s" meta]
  by (simp add: fireHooks_at_def case_prod_beta split: option.split)

lemma update_task_status_keep:
  "inv_kept I e \<Longrightarrow> I w \<Longrightarrow> I (update_task_status e ctx tid st msg w)"
  by (simp add: update_task_status_def inv_keptD case_prod_beta split: option.split)

lemma append_artifacts_keep:
  "inv_kept I e \<Longrightarrow> e_taskStore e = Some ts \<Longrightarrow> I w \<Longrightarrow> I (append_artifacts ts ctx tid new w)"
  unfolding append_artifacts_def by (induction new arbitrary: w) (simp_all add: inv_keptD)

lemma sync_task_keep: "inv_kept I e \<Longrightarrow> I w \<Longrightarrow> I (snd (sync_task e ctx nid old t w))"
  by (simp add: sync_task_def update_task_status_keep append_artifacts_keep split: option.split)

lemma node_keep:
  assumes "graph_keeps I g" and "Graph_Node g nid = Some node" and "I w"
  shows "I (snd (n_Process node ctx s w))"
proof -
  have "node \<in> set (map snd (g_Nodes g))"
    using assms(2) by (force simp: Graph_Node_def dest: map_of_SomeD)
  with assms(1,3) show ?thesis by (auto simp: graph_keeps_def)
qed

lemma processNodeWithRetry_keep:
  assumes kept: "inv_kept I e" and "I w" and g: "e_graph e = Some g"
    and node: "Graph_Node g nid = Some node"
  shows "I (snd (snd (snd (processNodeWithRetry e ctx node s w))))"
  unfolding processNodeWithRetry_def Execute_def
proof (rule Execute_loop_keeps [where I = "\<lambda>c. I (snd (snd c))"])
  fix c :: "AgentState \<times> NodeResult option \<times> 'a"
  assume "I (snd (snd c))"
  then have "I (snd (n_Process node ctx (fst c) (snd (snd c))))"
    by (rule node_keep [OF inv_keptD(5) [OF kept g] node])
  then show "I (snd (snd (snd (process_call ctx node c))))"
    by (simp add: process_call_def case_prod_beta split: sum.split)
qed (simp_all add: case_prod_beta inv_keptD [OF kept] assms(2))

lemma result_state_keep:
  "inv_kept I e \<Longrightarrow> I w \<Longrightarrow> I (snd (snd (result_state e ctx nid d r s w)))"
  by (simp add: result_state_def Let_def case_prod_beta fireHooks_keep sync_task_keep
      split: option.split)

lemma first_edge_in: "first_edge es nid = Some ed \<Longrightarrow> ed \<in> set es \<and> ed_FromID ed = nid"
  by (induction es) (auto split: if_splits)

lemma resolveNextNode_keep:
  assumes "graph_keeps I g" and "I w"
  shows "I (snd (resolveNextNode g ctx s w))"
proof -
  have "I (snd (r ctx s w))" if "first_edge (g_Edges g) (LastNodeID s) = Some ed"
    and "ed_Router ed = Some r" for ed r
    using assms(1) [unfolded graph_keeps_def] assms(2) first_edge_in [OF that(1)] that(2) by blast
  with assms(2) show ?thesis
    by (simp add: resolveNextNode_def case_prod_beta split: option.split)
qed

section \<open>Every way out of the loop\<close>

text \<open>
  \<open>saved\<close>: the returned state was saved in the world \<open>w1\<close>, and the final world differs from
  the one after that save at most by the event of a paused session.
\<close>

definition saved :: "'w Engine \<Rightarrow> Ctx \<Rightarrow> string \<Rightarrow> AgentState \<Rightarrow> 'w \<Rightarrow> 'w \<Rightarrow> bool" where
  "saved e ctx sid t w1 v \<longleftrightarrow>
     (let w2 = snd (ms_Save (e_memoryStore e) ctx sid t w1) in
      if Status t = StatusPaused then
        (case e_eventBus e of None \<Rightarrow> v = w2
         | Some bus \<Rightarrow> \<exists>p. v = snd (eb_Publish bus (paused_event sid p) w2))
      else v = w2)"

text \<open>
  The status and the error a pass may end with. An error that comes with a completed session is
  the error of the last save; a state that a node has itself marked failed comes without one.
\<close>

definition final_result :: "'w Engine \<Rightarrow> Ctx \<Rightarrow> string \<Rightarrow> AgentState \<Rightarrow> go_error option \<Rightarrow> 'w \<Rightarrow> bool" where
  "final_result e ctx sid t err w1 \<longleftrightarrow> (case Status t of
     StatusPaused \<Rightarrow> err = None
   | StatusCompleted \<Rightarrow> err = None \<or> (\<exists>er. err = Some er
        \<and> fst (ms_Save (e_memoryStore e) ctx sid t w1) = Inl er)
   | StatusFailed \<Rightarrow> True
   | _ \<Rightarrow> False)"

definition step_ok :: "('w \<Rightarrow> bool) \<Rightarrow> 'w Engine \<Rightarrow> Ctx \<Rightarrow> string \<Rightarrow> 'w step \<Rightarrow> bool" where
  "step_ok I e ctx sid r = (case r of
     Next _ w' \<Rightarrow> I w'
   | Crash _ w' \<Rightarrow> I w'
   | Done t err v \<Rightarrow> I v \<and> (\<exists>w1. I w1 \<and> saved e ctx sid t w1 v \<and> final_result e ctx sid t err w1))"

lemma finish_ok:
  assumes "inv_kept I e" and "I w" and "st = StatusCompleted \<and> err = None \<or> st = StatusFailed"
  shows "step_ok I e ctx sid (finish e ctx sid s st err w)"
  using assms by (auto simp: step_ok_def finish_Done saved_def final_result_def inv_keptD Let_def)

lemma pause_ok:
  assumes "inv_kept I e" and "I w"
  shows "step_ok I e ctx sid (pause e ctx sid s p w)"
  using assms
  by (auto simp: step_ok_def pause_def saved_def final_result_def inv_keptD Let_def case_prod_beta
      split: option.split)

lemma node_failed_ok:
  assumes "inv_kept I e" and "I w"
  shows "step_ok I e ctx sid (node_failed e ctx sid nid d err s w)"
  using assms
  by (simp add: node_failed_def Let_def case_prod_beta finish_ok pause_ok update_task_status_keep
      fireHooks_at_keep split: option.split ErrorCategory.split)

lemma advance_ok:
  assumes "inv_kept I e" and "I w" and "e_graph e = Some g"
  shows "step_ok I e ctx sid (advance e g ctx sid nid ns s w)"
proof -
  have "I (snd (resolveNextNode g ctx s w))"
    by (rule resolveNextNode_keep [OF inv_keptD(5) [OF assms(1,3)] assms(2)])
  moreover have "step_ok I e ctx sid (Next s' w') = I w'" "step_ok I e ctx sid (Crash p w') = I w'"
    for s' p and w' :: 'a by (simp_all add: step_ok_def)
  ultimately show ?thesis using assms
    by (simp add: advance_def case_prod_beta finish_ok split: list.split sum.split)
qed

lemma node_succeeded_ok:
  assumes "inv_kept I e" and "I w" and "e_graph e = Some g"
  shows "step_ok I e ctx sid (node_succeeded e g ctx sid nid d r s w)"
proof -
  obtain p s2 w2 where rs: "result_state e ctx nid d r s w = (p, s2, w2)" by (metis surj_pair)
  with assms result_state_keep [of I e w ctx nid d r s] have "I w2" by simp
  with assms rs show ?thesis
    by (cases p) (simp_all add: node_succeeded_eq advance_ok pause_ok step_ok_def [of I e ctx sid "Crash _ _"]
      split: option.split)
qed

lemma run_step_ok:
  assumes "inv_kept I e" and "I w"
  shows "step_ok I e ctx sid (run_step e ctx sid s w)"
proof -
  have crash: "step_ok I e ctx sid (Crash p w') = I w'" for p w' by (simp add: step_ok_def)
  have process: "step_ok I e ctx sid (process_step e g ctx sid node s w)"
    if "e_graph e = Some g" and "Graph_Node g (LastNodeID s) = Some node" for g node
    using assms that
    by (simp add: process_step_def Let_def case_prod_beta node_failed_ok node_succeeded_ok crash
        inv_keptD fireHooks_at_keep processNodeWithRetry_keep split: option.split)
  have terminal: "step_ok I e ctx sid (case ms_Save (e_memoryStore e) ctx sid s w of
      (Inl err, w') \<Rightarrow> Done s (Some err) w' | (Inr _, w') \<Rightarrow> Done s None w')"
    if "Status s = StatusFailed \<or> Status s = StatusCompleted"
    using assms that inv_keptD(9) [OF assms, of ctx sid s]
    by (auto simp: step_ok_def saved_def final_result_def Let_def split: prod.split sum.split)
  show ?thesis
    using assms process terminal by (simp add: run_step_def finish_ok crash split: option.split)
qed

section \<open>Runs that do not panic\<close>

text \<open>
  How a retried call ends: with a success of the call, with an error of the call (possibly
  escalated), or with an error of the context.
\<close>

lemma Execute_loop_ends:
  assumes "Execute_loop p rnd wait fn attempt delay c = (e, c')" and "attempt < rp_MaxAttempts p"
  shows "case e of
     None \<Rightarrow> \<exists>c0. fn c0 = (None, c')
   | Some err \<Rightarrow> (\<exists>c0. fn c0 = (Some err, c')) \<or> (\<exists>c0 er. fn c0 = (Some er, c') \<and> is_retriable er
        \<and> err = escalate er) \<or> (\<exists>d c0. wait d c0 = (Some err, c'))"
  using assms
proof (induction attempt delay c
    rule: Execute_loop_induct [where p = p and rnd = rnd and wait = wait and fn = fn])
  case (retry attempt delay c err c1 r c2 c3)
  then show ?case by (simp add: Execute_loop_retry)
next
  case (ok attempt delay c c1)
  then show ?case by (auto simp: Execute_loop_ok)
next
  case (fatal attempt delay c err c1)
  then show ?case by (auto simp: Execute_loop_fatal)
next
  case (exhausted attempt delay c err c1)
  then have "e = Some (escalate err)" "fn c = (Some err, c')" "is_retriable err"
    by (simp_all add: Execute_loop_exhausted)
  then show ?case by (simp, blast)
next
  case (cancelled attempt delay c err c1 r c2 x c3)
  then show ?case by (auto simp: Execute_loop_cancelled)
qed simp

text \<open>
  An error the engine can report: one that asks for a human names a cause. A node behaves when
  it never returns a nil result without an error, reports only such errors, and does not hand
  back fewer artifacts than it was given; a hook behaves when it does not remove artifacts.
\<close>

definition reportable :: "go_error \<Rightarrow> bool" where
  "reportable err = (case errors_As err of Some (ErrCategoryHumanNeeded, _, None) \<Rightarrow> False | _ \<Rightarrow> True)"

definition node_behaves :: "'w Node \<Rightarrow> bool" where
  "node_behaves n \<longleftrightarrow> (\<forall>ctx s w. case fst (n_Process n ctx s w) of
     (_, Inl err) \<Rightarrow> reportable err
   | (_, Inr None) \<Rightarrow> False
   | (s', Inr (Some r)) \<Rightarrow> (case nr_State r of RNew t \<Rightarrow> length (Artifacts s') \<le> length (Artifacts t) | _ \<Rightarrow> True))"

definition hook_behaves :: "'w LifecycleHook \<Rightarrow> bool" where
  "hook_behaves h \<longleftrightarrow> (\<forall>s meta w. case fst (snd (h (Some s) meta w)) of
     Some s' \<Rightarrow> length (Artifacts s) \<le> length (Artifacts s') | None \<Rightarrow> True)"

definition engine_behaves :: "'w Engine \<Rightarrow> bool" where
  "engine_behaves e \<longleftrightarrow> 0 < rp_MaxAttempts (e_retry e) \<and> (\<forall>h \<in> set (e_hooks e). hook_behaves h)
     \<and> (\<forall>ctx d w. case fst (rt_Wait (e_rt e) ctx d w) of Some err \<Rightarrow> reportable err | None \<Rightarrow> True)
     \<and> (case e_graph e of None \<Rightarrow> False
        | Some g \<Rightarrow> (\<forall>n \<in> set (map snd (g_Nodes g)). node_behaves n)
            \<and> (\<forall>ed \<in> set (g_Edges g). ed_IsCond ed \<longrightarrow> ed_Router ed \<noteq> None))"

definition no_crash :: "'w step \<Rightarrow> bool" where
  "no_crash r = (case r of Crash _ _ \<Rightarrow> False | _ \<Rightarrow> True)"

lemma no_crash_simps [simp]: "no_crash (Next s w)" "no_crash (Done s err w)" "\<not> no_crash (Crash p w)"
  "no_crash (finish e ctx sid s st err w)" "no_crash (pause e ctx sid s (Some pl) w)"
  by (simp_all add: no_crash_def finish_Done pause_def Let_def split: prod.split option.split)

lemma reportable_escalate: "is_retriable err \<Longrightarrow> reportable (escalate err)"
  by (auto simp: reportable_def escalate_def NewFatalError_def is_retriable_def
      split: option.splits prod.splits)

lemma node_failed_no_crash: "reportable err \<Longrightarrow> no_crash (node_failed e ctx sid nid d err s w)"
  by (auto simp: node_failed_def Let_def reportable_def
      split: prod.splits option.splits ErrorCategory.splits)

lemma fire_hooks_artifacts:
  assumes "\<forall>h \<in> set hs. hook_behaves h" and "fire_hooks hs (Some s) meta w = (Some s', w')"
  shows "length (Artifacts s) \<le> length (Artifacts s')"
  using assms
proof (induction hs arbitrary: s w)
  case (Cons h hs)
  obtain p st1 w1 where h: "h (Some s) meta w = (p, st1, w1)" by (metis surj_pair)
  from Cons.prems(1) have hb: "hook_behaves h" by simp
  let ?s = "case st1 of None \<Rightarrow> s | Some x \<Rightarrow> x"
  have "length (Artifacts s) \<le> length (Artifacts ?s)"
    using hb [unfolded hook_behaves_def, THEN spec, THEN spec, THEN spec, of s meta w] h
    by (simp split: option.splits)
  moreover have "length (Artifacts ?s) \<le> length (Artifacts s')"
    using Cons.prems h by (intro Cons.IH [of _ w1]) (auto split: option.splits)
  ultimately show ?case by simp
qed simp

lemma fire_hooks_nil: "fst (fire_hooks hs None meta w) = None"
  by (induction hs arbitrary: w) (simp_all add: case_prod_beta)

lemma result_state_no_panic:
  assumes "engine_behaves e"
    and "case nr_State r of RNew t \<Rightarrow> length (Artifacts s) \<le> length (Artifacts t) | _ \<Rightarrow> True"
  shows "fst (result_state e ctx nid d r s w) = None"
proof -
  have art: "length (Artifacts x) \<le> length (Artifacts x')"
    if "fireHooks e (Some x) meta w = (Some x', w')" for x x' meta w w'
    using that assms(1) by (auto simp: fireHooks_def engine_behaves_def intro: fire_hooks_artifacts)
  show ?thesis
  proof (cases "nr_State r")
    case (RNew t)
    with assms(2) art [of t] show ?thesis
      by (fastforce simp: result_state_def Let_def sync_task_def split: prod.split option.split
          dest: order_trans)
  next
    case RNil
    with fire_hooks_nil [of "e_hooks e"] show ?thesis
      by (simp add: result_state_def Let_def fireHooks_def case_prod_beta)
  qed (auto simp: result_state_def Let_def sync_task_def split: prod.split option.split)
qed

lemma advance_no_crash:
  assumes "engine_behaves e" and "e_graph e = Some g"
  shows "no_crash (advance e g ctx sid nid ns s w)"
proof -
  have "ed_Router ed \<noteq> None" if "first_edge (g_Edges g) (LastNodeID s) = Some ed" "ed_IsCond ed" for ed
    using assms first_edge_in [OF that(1)] that(2) by (auto simp: engine_behaves_def)
  then show ?thesis
    by (auto simp: advance_def resolveNextNode_def split: list.split option.splits prod.splits
        sum.splits if_splits)
qed

lemma processNodeWithRetry_ends:
  assumes "engine_behaves e" and "e_graph e = Some g" and "Graph_Node g nid = Some node"
    and p: "processNodeWithRetry e ctx node s w = (err, s', r, w')"
  shows "case err of Some er \<Rightarrow> reportable er
    | None \<Rightarrow> (case r of None \<Rightarrow> False | Some res \<Rightarrow>
        (case nr_State res of RNew t \<Rightarrow> length (Artifacts s') \<le> length (Artifacts t) | _ \<Rightarrow> True))"
proof -
  have "node \<in> set (map snd (g_Nodes g))"
    using assms(3) by (force simp: Graph_Node_def dest: map_of_SomeD)
  with assms(1,2) have node: "node_behaves node" by (auto simp: engine_behaves_def)
  have call: "case x of Some er \<Rightarrow> reportable er
      | None \<Rightarrow> (case r of None \<Rightarrow> False | Some res \<Rightarrow>
        (case nr_State res of RNew t \<Rightarrow> length (Artifacts s') \<le> length (Artifacts t) | _ \<Rightarrow> True))"
    if "process_call ctx node c = (x, s', r, w')" for c x
  proof -
    obtain s0 r0 w0 where c: "c = (s0, r0, w0)" by (metis surj_pair)
    from node have "case fst (n_Process node ctx s0 w0) of
         (_, Inl err) \<Rightarrow> reportable err | (_, Inr None) \<Rightarrow> False
       | (s', Inr (Some r)) \<Rightarrow> (case nr_State r of RNew t \<Rightarrow> length (Artifacts s') \<le> length (Artifacts t) | _ \<Rightarrow> True)"
      unfolding node_behaves_def by (elim allE)
    with that c show ?thesis
      by (auto simp: process_call_def split: prod.splits sum.splits option.splits)
  qed
  have wait: "reportable er" if "(\<lambda>(s, r, w). case rt_Wait (e_rt e) ctx d w of
      (x, w') \<Rightarrow> (x, s, r, w')) c0 = (Some er, y)" for d er y
    and c0 :: "AgentState \<times> NodeResult option \<times> 'a"
  proof -
    from assms(1) have "case fst (rt_Wait (e_rt e) ctx d (snd (snd c0))) of
        Some err \<Rightarrow> reportable err | None \<Rightarrow> True"
      by (simp add: engine_behaves_def)
    with that show ?thesis by (auto split: prod.splits)
  qed
  have "0 < rp_MaxAttempts (e_retry e)" using assms(1) by (simp add: engine_behaves_def)
  note ends = Execute_loop_ends [OF p [unfolded processNodeWithRetry_def Execute_def] this]
  show ?thesis
  proof (cases err)
    case None
    with ends obtain c0 where "process_call ctx node c0 = (None, s', r, w')" by auto
    from call [OF this] None show ?thesis by simp
  next
    case (Some er)
    with ends consider c0 where "process_call ctx node c0 = (Some er, s', r, w')"
      | er0 where "is_retriable er0" "er = escalate er0"
      | d and c0 :: "AgentState \<times> NodeResult option \<times> 'a" where "(\<lambda>(s, r, w).
          case rt_Wait (e_rt e) ctx d w of (x, w') \<Rightarrow> (x, s, r, w')) c0 = (Some er, s', r, w')"
      by auto
    then have "reportable er"
      using call [of _ "Some er"] wait by cases (auto intro: reportable_escalate)
    with Some show ?thesis by simp
  qed
qed

lemma run_step_no_crash:
  assumes "engine_behaves e"
  shows "no_crash (run_step e ctx sid s w)"
proof -
  from assms obtain g where g: "e_graph e = Some g"
    by (auto simp: engine_behaves_def split: option.splits)
  have ok: "no_crash (node_succeeded e g ctx sid nid d r s w)"
    if "case nr_State r of RNew t \<Rightarrow> length (Artifacts s) \<le> length (Artifacts t) | _ \<Rightarrow> True"
    for nid d r s w
    using result_state_no_panic [OF assms that, of ctx nid d w] advance_no_crash [OF assms g]
    by (auto simp: node_succeeded_eq split: prod.split option.split)
  have "no_crash (process_step e g ctx sid node s w)" if n: "Graph_Node g (LastNodeID s) = Some node" for node
  proof -
    obtain s1 w1 where before: "fireHooks_at e s \<lparr>hm_Point = HookBeforeNode, hm_NodeID = LastNodeID s,
          hm_StepCount = StepCount s, hm_Elapsed = 0, hm_Err = None\<rparr> w = (s1, w1)" by fastforce
    obtain err s2 r w2 where p: "processNodeWithRetry e ctx node s1 (snd (rt_Now (e_rt e) w1)) = (err, s2, r, w2)"
      by (metis surj_pair)
    show ?thesis
      using processNodeWithRetry_ends [OF assms g n p]
      by (auto simp: process_step_def before case_prod_beta p Let_def node_failed_no_crash
          intro!: ok split: option.splits state_ref.splits)
  qed
  then show ?thesis by (simp add: run_step_def g split: option.split prod.split sum.split)
qed

section \<open>Paths\<close>

text \<open>
  A graph without conditional edges whose nodes leave routing to the graph: their results name
  no next node and carry a state.
\<close>

definition node_plain :: "'w Node \<Rightarrow> bool" where
  "node_plain n \<longleftrightarrow> (\<forall>ctx s w. case snd (fst (n_Process n ctx s w)) of
     Inr (Some r) \<Rightarrow> nr_NextNodes r = [] \<and> nr_State r \<noteq> RNil | _ \<Rightarrow> True)"

definition graph_static :: "'w Graph \<Rightarrow> bool" where
  "graph_static g \<longleftrightarrow> (\<forall>ed \<in> set (g_Edges g). \<not> ed_IsCond ed)
     \<and> (\<forall>n \<in> set (map snd (g_Nodes g)). node_plain n)"

lemma Graph_Node_in: "Graph_Node g nid = Some node \<Longrightarrow> node \<in> set (map snd (g_Nodes g))"
  by (force simp: Graph_Node_def dest: map_of_SomeD)

lemma plain_result:
  assumes "node_plain node" and "processNodeWithRetry e ctx node s w = (err, s', Some r, w')"
  shows "nr_NextNodes r = [] \<and> nr_State r \<noteq> RNil"
proof -
  let ?I = "\<lambda>c. case fst (snd c) of Some r \<Rightarrow> nr_NextNodes r = [] \<and> nr_State r \<noteq> RNil | None \<Rightarrow> True"
  have "?I (snd (processNodeWithRetry e ctx node s w))"
    unfolding processNodeWithRetry_def Execute_def
  proof (rule Execute_loop_keeps [where I = ?I])
    fix c :: "AgentState \<times> NodeResult option \<times> 'a"
    assume c: "?I c"
    from assms(1) have "case snd (fst (n_Process node ctx (fst c) (snd (snd c)))) of
        Inr (Some r) \<Rightarrow> nr_NextNodes r = [] \<and> nr_State r \<noteq> RNil | _ \<Rightarrow> True"
      unfolding node_plain_def by (elim allE)
    with c show "?I (snd (process_call ctx node c))"
      by (auto simp: process_call_def split: prod.splits sum.splits option.splits)
  qed (auto split: prod.splits)
  with assms(2) show ?thesis by simp
qed

lemma fire_hooks_some: "\<exists>s'. fst (fire_hooks hs (Some s) meta w) = Some s'"
proof (induction hs arbitrary: s w)
  case (Cons h hs)
  obtain p st1 w1 where "h (Some s) meta w = (p, st1, w1)" by (metis surj_pair)
  with Cons.IH show ?case by (cases st1) auto
qed simp

lemma result_state_node:
  assumes "nr_State r \<noteq> RNil" and "result_state e ctx nid d r s w = (p, s2, w2)"
  shows "LastNodeID s2 = nid"
proof -
  obtain x where "(case nr_State r of RNil \<Rightarrow> None | RSame \<Rightarrow> Some s | RNew t \<Rightarrow> Some t) = Some x"
    using assms(1) by (cases "nr_State r") auto
  moreover obtain x' where "fst (fireHooks e (Some x) \<lparr>hm_Point = HookAfterNode, hm_NodeID = nid,
      hm_StepCount = StepCount s, hm_Elapsed = d, hm_Err = None\<rparr> w) = Some x'"
    unfolding fireHooks_def by (rule exE [OF fire_hooks_some])
  ultimately show ?thesis using assms(2)
    by (auto simp: result_state_def Let_def case_prod_beta)
qed

lemma resolveNextNode_static:
  assumes "\<forall>ed \<in> set (g_Edges g). \<not> ed_IsCond ed" and "resolveNextNode g ctx s w = (Inr (Inr n), w')"
    and "n \<noteq> []"
  shows "(LastNodeID s, n) \<in> static_edge (g_Edges g)"
proof -
  from assms(2,3) obtain ed where ed: "first_edge (g_Edges g) (LastNodeID s) = Some ed"
    by (auto simp: resolveNextNode_def split: option.splits)
  note first_edge_in [OF this]
  with assms ed show ?thesis by (auto simp: resolveNextNode_def static_edge_iff)
qed

lemma run_step_static:
  assumes "e_graph e = Some g" and "graph_static g" and "run_step e ctx sid s w = Next s' w'"
  shows "(LastNodeID s, LastNodeID s') \<in> static_edge (g_Edges g)"
proof -
  obtain node where n: "Graph_Node g (LastNodeID s) = Some node"
    and ps: "process_step e g ctx sid node s w = Next s' w'"
    using assms(1) by (auto intro: run_step_Next [OF assms(3)])
  from assms(2) Graph_Node_in [OF n] have plain: "node_plain node" by (auto simp: graph_static_def)
  show ?thesis
  proof (rule process_step_Next [OF ps])
    fix s1 w1 t0 w2 s2 r w3 t1 w4
    assume p: "processNodeWithRetry e ctx node s1 w2 = (None, s2, Some r, w3)"
      and ok: "node_succeeded e g ctx sid (LastNodeID s) (t1 - t0) r
        (s2\<lparr>StepCount := StepCount s2 + 1\<rparr>) w4 = Next s' w'"
    note r = plain_result [OF plain p]
    show ?thesis
    proof (rule node_succeeded_Next [OF ok])
      fix s3 w5 nx
      assume rs: "result_state e ctx (LastNodeID s) (t1 - t0) r (s2\<lparr>StepCount := StepCount s2 + 1\<rparr>) w4
          = (None, s3, w5)"
        and nx: "nx \<noteq> []" "s' = s3\<lparr>LastNodeID := nx\<rparr>"
        and res: "case nr_NextNodes r of m # _ \<Rightarrow> nx = m \<and> w' = w5
          | [] \<Rightarrow> resolveNextNode g ctx s3 w5 = (Inr (Inr nx), w')"
      from res r have "resolveNextNode g ctx s3 w5 = (Inr (Inr nx), w')" by simp
      moreover have "LastNodeID s3 = LastNodeID s" using result_state_node [OF _ rs] r by blast
      ultimately show ?thesis
        using resolveNextNode_static [of g ctx s3 w5 nx w'] assms(2) nx by (simp add: graph_static_def)
    qed
  qed
qed

lemma reach_static:
  assumes "engine_reach e ctx sid c d" and "e_graph e = Some g" and "graph_static g"
  shows "(LastNodeID (fst c), LastNodeID (fst d)) \<in> (static_edge (g_Edges g))\<^sup>*"
  using assms(1)
proof (induction rule: engine_reach.induct)
  case (step c d f)
  from step.hyps(2) have "(LastNodeID (fst d), LastNodeID (fst f)) \<in> static_edge (g_Edges g)"
    by (auto elim!: engine_stepE intro: run_step_static [OF assms(2,3)])
  with step.IH show ?case by (rule rtrancl.rtrancl_into_rtrancl)
qed simp

section \<open>Results of a whole run\<close>

lemma inv_kept_True [simp]: "inv_kept (\<lambda>w. True) e"
  by (simp add: inv_kept_def hooks_keep_def runtime_keeps_def graph_keeps_def tasks_keep_def)

lemma reach_keep:
  assumes "engine_reach e ctx sid c d" and "inv_kept I e" and "I (snd c)"
  shows "I (snd d)"
  using assms(1,3)
proof (induction rule: engine_reach.induct)
  case (step c d f)
  obtain s w s' w' where d: "d = (s, w)" "f = (s', w')" by (metis surj_pair)
  with step.hyps(2) have n: "run_step e ctx sid s w = Next s' w'" by (simp add: engine_step_iff)
  have "I w" using step.IH [OF step.prems] d by simp
  from run_step_ok [OF assms(2) this, of ctx sid s] n d show ?case by (simp add: step_ok_def)
qed simp

lemma loop_returned:
  assumes "loop e ctx sid s w = Some (Returned so err v)" and "inv_kept I e" and "I w"
  obtains t s' w' w1 where "so = Some t" and "engine_reach e ctx sid (s, w) (s', w')"
    and "run_step e ctx sid s' w' = Done t err v" and "I v" and "I w1"
    and "saved e ctx sid t w1 v" and "final_result e ctx sid t err w1"
proof -
  obtain s' w' where r: "engine_reach e ctx sid (s, w) (s', w')"
    and d: "case run_step e ctx sid s' w' of Next _ _ \<Rightarrow> False
      | Done t er u \<Rightarrow> Returned so err v = Returned (Some t) er u | Crash p u \<Rightarrow> Returned so err v = Panicked p u"
    using loop_reaches [OF assms(1)] by blast
  then obtain t where t: "so = Some t" "run_step e ctx sid s' w' = Done t err v"
    by (auto split: step.splits)
  have "I w'" using reach_keep [OF r assms(2)] assms(3) by simp
  from run_step_ok [OF assms(2) this, of ctx sid s'] t(2)
  have "I v \<and> (\<exists>w1. I w1 \<and> saved e ctx sid t w1 v \<and> final_result e ctx sid t err w1)"
    by (simp add: step_ok_def)
  then obtain w1 where "I v" "I w1" "saved e ctx sid t w1 v" "final_result e ctx sid t err w1" by (elim conjE exE)
  from that [OF t(1) r t(2) this] show ?thesis .
qed

lemma loop_result:
  assumes "steps_kept e" and "loop e ctx sid s w = Some (Returned so err v)"
  shows "\<exists>t. so = Some t \<and> Status t \<in> {StatusPaused, StatusCompleted, StatusFailed}
    \<and> (Status t = StatusPaused \<longrightarrow> err = None) \<and> StepCount t \<le> max (StepCount s) (e_maxSteps e)"
proof (rule loop_returned [OF assms(2) inv_kept_True TrueI])
  fix t s' w' w1
  assume t: "so = Some t" and r: "engine_reach e ctx sid (s, w) (s', w')"
    and d: "run_step e ctx sid s' w' = Done t err v" and f: "final_result e ctx sid t err w1"
  from reach_steps [OF r assms(1)] have "StepCount s' \<le> max (StepCount s) (e_maxSteps e)" by auto
  moreover from run_step_counts [OF assms(1), of s' ctx sid w'] d
  have "StepCount t = StepCount s' \<or> StepCount s' < e_maxSteps e \<and> StepCount t = StepCount s' + 1"
    by (simp split: if_splits)
  ultimately have "StepCount t \<le> max (StepCount s) (e_maxSteps e)" by auto
  with t f show ?thesis by (auto simp: final_result_def split: AgentStatus.splits)
qed

lemma loop_total:
  assumes "steps_kept e"
  shows "\<exists>out. loop e ctx sid s w = Some out \<and> (case out of Panicked p v \<Rightarrow> True
    | Returned so err v \<Rightarrow> \<exists>t. so = Some t \<and> Status t \<in> {StatusPaused, StatusCompleted, StatusFailed}
        \<and> (Status t = StatusPaused \<longrightarrow> err = None) \<and> StepCount t \<le> max (StepCount s) (e_maxSteps e))"
proof -
  obtain out where "loop e ctx sid s w = Some out" using loop_terminates [OF assms] by blast
  then show ?thesis using loop_result [OF assms] by (cases out) simp_all
qed

lemma loop_no_panic: "engine_behaves e \<Longrightarrow> loop e ctx sid s w \<noteq> Some (Panicked p v)"
  using loop_reaches [of e ctx sid s w "Panicked p v"] run_step_no_crash [of e ctx sid]
  by (fastforce simp: no_crash_def split: step.splits)

text \<open>The client of the store contract: what the engine returns is what the store holds.\<close>

context memory_store
begin

lemma loop_persisted:
  assumes "e_memoryStore e = M" and "inv_kept inv e" and "inv w"
    and quiet: "\<And>bus ev w. e_eventBus e = Some bus \<Longrightarrow> inv w
      \<Longrightarrow> fst (ms_Load M ctx sid (snd (eb_Publish bus ev w))) = fst (ms_Load M ctx sid w)"
    and "loop e ctx sid s w = Some (Returned so err v)"
  shows "\<exists>t w1. so = Some t \<and> inv w1 \<and> (case fst (ms_Save M ctx sid t w1) of
     Inr _ \<Rightarrow> fst (ms_Load M ctx sid v) = Inr (json_state t)
   | Inl _ \<Rightarrow> fst (ms_Load M ctx sid v) = fst (ms_Load M ctx sid w1))"
proof (rule loop_returned [OF assms(5,2,3)])
  fix t s' w' w1
  assume t: "so = Some t" "inv w1" and sv: "saved e ctx sid t w1 v"
  obtain x w2 where x: "ms_Save M ctx sid t w1 = (x, w2)" by fastforce
  with t(2) save_inv [of w1 ctx sid t] have "inv w2" by simp
  with sv x quiet assms(1) have "fst (ms_Load M ctx sid v) = fst (ms_Load M ctx sid w2)"
    by (auto simp: saved_def Let_def split: if_splits option.splits)
  with x t load_after_save [OF t(2)] failed_save [OF t(2)] show ?thesis
    by (auto split: sum.splits intro!: exI [of _ w1])
qed

end

section \<open>A sample engine\<close>

text \<open>The two-node graph on the in-memory store, for the witnesses.\<close>

definition sample_engine :: "unit mem_world Engine" where
  "sample_engine = NewEngine mem_runtime (Some sample_graph) (InMemoryStore_ops uuid_x) None []"

lemma sample_engine_fields [simp]:
  "e_graph sample_engine = Some sample_graph" "e_memoryStore sample_engine = InMemoryStore_ops uuid_x"
  "e_taskStore sample_engine = None" "e_eventBus sample_engine = None" "e_hooks sample_engine = []"
  "e_retry sample_engine = DefaultRetryPolicy" "e_maxSteps sample_engine = 100"
  "e_rt sample_engine = mem_runtime"
  by (simp_all add: sample_engine_def NewEngine_def)

lemma sample_nodes: "set (map snd (g_Nodes sample_graph)) = {sample_node ''a'', sample_node ''b''}"
  by (simp add: sample_graph_def)

lemma sample_engine_ok:
  "steps_kept sample_engine" "engine_behaves sample_engine" "graph_static (sample_graph :: 'w Graph)"
proof -
  show "steps_kept sample_engine"
    unfolding steps_kept_def sample_engine_fields option.inject
    by (simp add: sample_graph_def steps_kept_node_def sample_node_def)
  show "engine_behaves sample_engine"
    by (simp add: engine_behaves_def DefaultRetryPolicy_def mem_runtime_def sample_graph_def
        node_behaves_def sample_node_def)
  show "graph_static (sample_graph :: 'w Graph)"
    by (simp add: graph_static_def sample_graph_def node_plain_def sample_node_def)
qed

section \<open>Injected variables\<close>

lemma inject_fields:
  "Messages (inject upds s) = Messages s" "StepCount (inject upds s) = StepCount s"
  "LastNodeID (inject upds s) = LastNodeID s" "Artifacts (inject upds s) = Artifacts s"
  "TaskID (inject upds s) = TaskID s"
  unfolding inject_def by (induction upds arbitrary: s) (auto simp: case_prod_beta)

lemma vars_update: "vars (s\<lparr>LastNodeID := x\<rparr>) = vars s" "vars (s\<lparr>StepCount := n\<rparr>) = vars s"
  by (simp_all add: vars_def)

lemma inject_ok: "state_ok s \<Longrightarrow> state_ok (inject upds s)"
  unfolding inject_def by (induction upds arbitrary: s) (auto simp: case_prod_beta)

lemma inject_vars:
  assumes "state_ok s" and "gomap_ok upds"
  shows "glookup (vars (inject upds s)) k
    = (case glookup upds k of Some v \<Rightarrow> Some v | None \<Rightarrow> glookup (vars s) k)"
proof -
  have "vars (inject upds s) = fold (\<lambda>(k, v). gset k v) upds (vars s)"
    using assms(1) unfolding inject_def
    by (induction upds arbitrary: s) (auto simp: case_prod_beta vars_clone_ok)
  with glookup_fold_gset [OF assms(2), of "vars s" k] show ?thesis by (simp split: option.splits)
qed

section \<open>Properties of the engine\<close>

text \<open>
  C1: a run always ends, within the step budget, in a final status. If nodes and hooks leave the
  step counter to the engine, \<open>Start\<close> returns or panics; when it returns, it returns a state
  that is paused, completed or failed (never running), a paused session comes without an error,
  and the step counter has not passed \<open>maxSteps\<close> (unless it was already past it).
\<close>

theorem engine_run_terminates:
  assumes "steps_kept e"
  shows "\<exists>out. Start e ctx sid initialState w = Some out
    \<and> (case out of Panicked p v \<Rightarrow> True
       | Returned so err v \<Rightarrow> \<exists>t. so = Some t \<and> Status t \<in> {StatusPaused, StatusCompleted, StatusFailed}
           \<and> (Status t = StatusPaused \<longrightarrow> err = None)
           \<and> StepCount t \<le> max (case initialState of None \<Rightarrow> 0 | Some s \<Rightarrow> StepCount s) (e_maxSteps e))"
proof -
  let ?s = "WithStatus (case initialState of None \<Rightarrow> NewState | Some s \<Rightarrow> s) StatusRunning"
  have steps: "StepCount ?s = (case initialState of None \<Rightarrow> 0 | Some s \<Rightarrow> StepCount s)"
    by (simp split: option.split)
  note run = loop_total [OF assms, of "ctx\<lparr>ctx_session := Some sid\<rparr>" sid _ w]
  show ?thesis
  proof (cases "LastNodeID ?s = []")
    case True
    show ?thesis
    proof (cases "e_graph e")
      case None
      with True show ?thesis by (simp add: Start_def Let_def)
    next
      case (Some g)
      with True have st: "Start e ctx sid initialState w
          = loop e (ctx\<lparr>ctx_session := Some sid\<rparr>) sid (?s\<lparr>LastNodeID := g_Entry g\<rparr>) w"
        by (simp add: Start_def Let_def runLoop_def)
      have eq: "StepCount (?s\<lparr>LastNodeID := g_Entry g\<rparr>) = (case initialState of None \<Rightarrow> 0 | Some s \<Rightarrow> StepCount s)"
        using steps by simp
      show ?thesis unfolding st by (rule run [of "?s\<lparr>LastNodeID := g_Entry g\<rparr>", unfolded eq])
    qed
  next
    case False
    then have st: "Start e ctx sid initialState w = loop e (ctx\<lparr>ctx_session := Some sid\<rparr>) sid ?s w"
      by (simp add: Start_def Let_def runLoop_def)
    show ?thesis unfolding st by (rule run [of ?s, unfolded steps])
  qed
qed

theorem engine_run_terminates_witness:
  "\<exists>out. Start sample_engine Background ''s'' None new_mem_world = Some out
    \<and> (case out of Panicked p v \<Rightarrow> True | Returned so err v \<Rightarrow> \<exists>t. so = Some t \<and> StepCount t \<le> 100)"
proof -
  let ?r = "\<lambda>out. case out of Panicked p v \<Rightarrow> True
    | Returned so err v \<Rightarrow> \<exists>t. so = Some t \<and> Status t \<in> {StatusPaused, StatusCompleted, StatusFailed}
        \<and> (Status t = StatusPaused \<longrightarrow> err = None) \<and> StepCount t \<le> max 0 100"
  have "\<exists>out. Start sample_engine Background ''s'' None new_mem_world = Some out \<and> ?r out"
    using engine_run_terminates [OF sample_engine_ok(1), of Background "''s''" None new_mem_world]
    unfolding option.case sample_engine_fields .
  then obtain out where "Start sample_engine Background ''s'' None new_mem_world = Some out" "?r out" by (elim exE conjE)
  then show ?thesis by (cases out) auto
qed

text \<open>
  C2: what the engine returns is what is stored. On the in-memory store, with an event bus whose
  handlers do not write the store, every state that \<open>runLoop\<close> returns was saved: loading the
  session afterwards gives that state (as JSON decodes it), unless the state itself cannot be
  encoded, in which case the dropped error of \<open>Save\<close> is the encoder's.
\<close>

theorem engine_persists_results:
  fixes e :: "('h, 'x) mem_world_scheme Engine"
  assumes "e_memoryStore e = InMemoryStore_ops uuid"
    and "\<forall>bus ev w. e_eventBus e = Some bus \<longrightarrow> mw_store (snd (eb_Publish bus ev w)) = mw_store w"
    and "runLoop e ctx sid s w = Some (Returned so err v)"
  shows "\<exists>t. so = Some t \<and> (if state_json_ok t then fst (InMemory_Load ctx sid v) = Inr (json_state t)
    else fst (InMemory_Save uuid ctx sid t v) = Inl marshal_error)"
proof -
  have load: "fst (InMemory_Load c sid x) = fst (InMemory_Load c' sid y)" if "mw_store x = mw_store y" for c c' x y
    using that by (simp add: InMemory_Load_def split: option.split)
  let ?ctx = "ctx\<lparr>ctx_session := Some sid\<rparr>"
  have "\<exists>t (w1 :: ('h, 'x) mem_world_scheme). so = Some t \<and> True \<and> (case fst (ms_Save (InMemoryStore_ops uuid) ?ctx sid t w1) of
      Inr _ \<Rightarrow> fst (ms_Load (InMemoryStore_ops uuid) ?ctx sid v) = Inr (json_state t)
    | Inl _ \<Rightarrow> fst (ms_Load (InMemoryStore_ops uuid) ?ctx sid v) = fst (ms_Load (InMemoryStore_ops uuid) ?ctx sid w1))"
  proof (rule ims.loop_persisted [OF assms(1) inv_kept_True TrueI])
    fix bus ev w
    assume "e_eventBus e = Some bus"
    with assms(2) have "mw_store (snd (eb_Publish bus ev w)) = mw_store w" by blast
    then show "fst (ms_Load (InMemoryStore_ops uuid) ?ctx sid (snd (eb_Publish bus ev w)))
        = fst (ms_Load (InMemoryStore_ops uuid) ?ctx sid w)" unfolding InMemoryStore_ops_simps by (rule load)
  qed (use assms(3) in \<open>simp add: runLoop_def\<close>)
  then obtain t and w1 :: "('h, 'x) mem_world_scheme" where t: "so = Some t"
    and c: "case fst (InMemory_Save uuid ?ctx sid t w1) of
      Inr _ \<Rightarrow> fst (InMemory_Load ?ctx sid v) = Inr (json_state t)
    | Inl _ \<Rightarrow> fst (InMemory_Load ?ctx sid v) = fst (InMemory_Load ?ctx sid w1)"
    unfolding InMemoryStore_ops_simps by (elim exE conjE)
  have "fst (InMemory_Load ctx sid v) = fst (InMemory_Load ?ctx sid v)" by (rule load) simp
  with t c show ?thesis by (auto simp: InMemory_Save_def marshal_state_def Let_def)
qed

text \<open>Evaluating the sample engine.\<close>

lemma sample_process:
  "processNodeWithRetry sample_engine ctx (sample_node i) s w
    = (None, s, Some \<lparr>nr_State = RSame, nr_NextNodes = [], nr_Interrupt = None\<rparr>, w)"
  unfolding processNodeWithRetry_def Execute_def
  by (rule Execute_loop_ok) (simp_all add: DefaultRetryPolicy_def process_call_def sample_node_def)

lemma sample_step_a:
  assumes "LastNodeID s = ''a''" and "Status s = StatusRunning" and "StepCount s < 100"
  shows "run_step sample_engine ctx sid s w
    = Next (s\<lparr>StepCount := StepCount s + 1, LastNodeID := ''b''\<rparr>) w"
  using assms
  by (simp add: run_step_def sample_graph_def Graph_Node_def process_step_def fireHooks_at_def
      fireHooks_def sample_process mem_runtime_def node_succeeded_def sync_task_def advance_def
      resolveNextNode_def)

lemma sample_step_b:
  assumes "LastNodeID s = ''b''" and "Status s = StatusRunning" and "StepCount s < 100"
  shows "run_step sample_engine ctx sid s w
    = finish sample_engine ctx sid (s\<lparr>StepCount := StepCount s + 1, LastNodeID := ''b''\<rparr>) StatusCompleted None w"
  using assms
  by (simp add: run_step_def sample_graph_def Graph_Node_def process_step_def fireHooks_at_def
      fireHooks_def sample_process mem_runtime_def node_succeeded_def sync_task_def advance_def
      resolveNextNode_def is_terminal_def Let_def)

theorem engine_persists_results_witness:
  "\<exists>t err v. runLoop sample_engine Background ''s'' (NewState\<lparr>LastNodeID := ''a''\<rparr>) new_mem_world
      = Some (Returned (Some t) err v) \<and> Status t = StatusCompleted
    \<and> fst (InMemory_Load Background ''s'' v) = Inr (json_state t)"
proof -
  let ?t = "WithStatus (NewState\<lparr>StepCount := 2, LastNodeID := ''b''\<rparr>) StatusCompleted"
  let ?v = "snd (InMemory_Save uuid_x (Background\<lparr>ctx_session := Some ''s''\<rparr>) ''s'' ?t new_mem_world)"
  have r: "runLoop sample_engine Background ''s'' (NewState\<lparr>LastNodeID := ''a''\<rparr>) new_mem_world
      = Some (Returned (Some ?t) None ?v)"
    unfolding runLoop_def
    by (subst loop.simps, simp add: sample_step_a, subst loop.simps, simp add: sample_step_b finish_Done)
  have "state_json_ok ?t"
    by (simp add: state_json_ok_def NewState_def WithStatus_def clone_def vars_def vars_json_ok_def)
  with r engine_persists_results [OF sample_engine_fields(2) _ r] show ?thesis by auto
qed

text \<open>
  C4: a well-behaved engine never panics. With a graph, at least one attempt in the retry policy,
  a router on every conditional edge, nodes that return a result or a reportable error and do not
  drop artifacts, and hooks that do not drop artifacts (a hook may panic: that is recovered),
  neither \<open>Start\<close> nor \<open>Resume\<close> ends in a run-time panic.
\<close>

theorem engine_never_panics:
  assumes "engine_behaves e"
  shows "Start e ctx sid initialState w \<noteq> Some (Panicked p v)
    \<and> Resume e ctx sid injection w \<noteq> Some (Panicked p v)"
proof -
  from assms obtain g where g: "e_graph e = Some g"
    by (auto simp: engine_behaves_def split: option.splits)
  note no_panic = loop_no_panic [OF assms]
  have router: "\<exists>r. ed_Router ed = Some r" if "first_edge (g_Edges g) n = Some ed" "ed_IsCond ed" for ed n
    using assms g first_edge_in [OF that(1)] that(2) by (auto simp: engine_behaves_def)
  then have "fst (resolveNextNode g ctx s w) \<noteq> Inl q" for s w q
    by (auto simp: resolveNextNode_def split: option.split prod.split dest: router)
  then have route: "resolveNextNode g ctx s w \<noteq> (Inl q, u)" for s w q u by (metis fst_conv)
  have "Start e ctx sid initialState w \<noteq> Some (Panicked p v)"
    using no_panic by (simp add: Start_def Let_def g runLoop_def)
  moreover have "Resume e ctx sid injection w \<noteq> Some (Panicked p v)"
    using no_panic route
    by (simp add: Resume_def Let_def g runLoop_def split: prod.split sum.split)
  ultimately show ?thesis by blast
qed

theorem engine_never_panics_witness:
  "Start sample_engine Background ''s'' None new_mem_world \<noteq> Some (Panicked NilDereference new_mem_world)"
  using engine_never_panics [OF sample_engine_ok(2), of Background "''s''" None new_mem_world
      NilDereference new_mem_world "[]"] by blast

text \<open>
  C3: the engine walks the graph the builder validated. For a graph that \<open>Build\<close> accepts, with
  static edges only and nodes that leave routing to the graph, every node the loop comes to from
  the entry is registered, is reached by a path of the graph's edges, and is not one of the nodes
  the builder warned about: the loop never fails on a missing node.
\<close>

theorem static_runs_follow_the_graph:
  assumes "builder_ok b" and "Build b = (Inr g, warned)" and "e_graph e = Some g" and "graph_static g"
    and "engine_reach e ctx sid (s0, w0) (s, w)" and "LastNodeID s0 = g_Entry g"
  shows "Graph_Node g (LastNodeID s) \<noteq> None \<and> LastNodeID s \<notin> set warned
    \<and> (g_Entry g, LastNodeID s) \<in> (static_edge (g_Edges g))\<^sup>*"
proof -
  from build_parts [OF assms(1,2)] have ok: "graph_ok g" and parts: "g_Edges g = b_edges b"
    "g_Entry g = b_entry b" "warned = checkReachability b" by simp_all
  have path: "(g_Entry g, LastNodeID s) \<in> (static_edge (g_Edges g))\<^sup>*"
    using reach_static [OF assms(5,3,4)] assms(6) by simp
  then have "Graph_Node g (LastNodeID s) \<noteq> None"
    using ok by (cases rule: rtranclE) (auto simp: graph_ok_def static_edge_iff)
  moreover have "LastNodeID s \<notin> set warned"
    using path parts by (simp add: checkReachability_def Let_def bfs_reachable)
  ultimately show ?thesis using path by blast
qed

theorem static_runs_follow_the_graph_witness:
  "\<exists>s. engine_reach sample_engine Background ''s'' (NewState\<lparr>LastNodeID := ''a''\<rparr>, new_mem_world) (s, new_mem_world)
    \<and> LastNodeID s = ''b'' \<and> Graph_Node (sample_graph :: unit mem_world Graph) (LastNodeID s) \<noteq> None"
proof -
  let ?s = "NewState\<lparr>LastNodeID := ''b'', StepCount := 1\<rparr>"
  have step: "engine_step sample_engine Background ''s''
      (NewState\<lparr>LastNodeID := ''a''\<rparr>, new_mem_world) (?s, new_mem_world)"
    by (simp add: engine_step_iff sample_step_a NewState_def)
  have reach: "engine_reach sample_engine Background ''s''
      (NewState\<lparr>LastNodeID := ''a''\<rparr>, new_mem_world) (?s, new_mem_world)"
    by (rule engine_reach.step [OF engine_reach.start step])
  have build: "Build sample_builder = (Inr (sample_graph :: unit mem_world Graph), snd (Build (sample_builder :: unit mem_world Builder)))"
    by (metis Build_sample prod.collapse)
  have "LastNodeID (NewState\<lparr>LastNodeID := ''a''\<rparr>) = g_Entry (sample_graph :: unit mem_world Graph)"
    by (simp add: sample_graph_def)
  from static_runs_follow_the_graph [OF sample_builder_ok build _ sample_engine_ok(3) reach this]
  have "Graph_Node (sample_graph :: unit mem_world Graph) (LastNodeID ?s) \<noteq> None" by simp
  with reach show ?thesis by (intro exI [of _ ?s]) simp
qed

text \<open>
  C5: \<open>Resume\<close> goes on behind the node that paused. A paused session with a static edge out of
  the paused node continues at that edge's target, with status running, the same messages and
  step count, and every injected variable overriding the stored one, in whatever order the
  injected map is visited. The values injected do not influence where it continues.
\<close>

theorem resume_continues_at_successor:
  assumes "ms_Load (e_memoryStore e) ctx sid w = (Inr s, w1)" and "state_ok s"
    and "Status s = StatusPaused" and "e_graph e = Some g"
    and "first_edge (g_Edges g) (LastNodeID s) = Some ed" and "\<not> ed_IsCond ed" and "ed_ToID ed \<noteq> []"
    and "gomap_ok injection"
  shows "\<exists>s1. Resume e ctx sid injection w = runLoop e ctx sid s1 w1
    \<and> LastNodeID s1 = ed_ToID ed \<and> Status s1 = StatusRunning \<and> Messages s1 = Messages s
    \<and> StepCount s1 = StepCount s
    \<and> (\<forall>k. glookup (vars s1) k = (case glookup injection k of Some v \<Rightarrow> Some v | None \<Rightarrow> glookup (vars s) k))"
proof -
  let ?s = "WithStatus (inject injection s) StatusRunning"
  have "resolveNextNode g ctx ?s w1 = (Inr (Inr (ed_ToID ed)), w1)"
    using assms(5,6) by (simp add: resolveNextNode_def inject_fields)
  then have "Resume e ctx sid injection w = runLoop e ctx sid (?s\<lparr>LastNodeID := ed_ToID ed\<rparr>) w1"
    using assms by (simp add: Resume_def Let_def)
  moreover have "vars (?s\<lparr>LastNodeID := ed_ToID ed\<rparr>) = vars (inject injection s)"
    using inject_ok [OF assms(2), of injection] by (simp add: vars_update vars_clone_ok)
  moreover have "glookup (vars (inject injection s)) k
      = (case glookup injection k of Some v \<Rightarrow> Some v | None \<Rightarrow> glookup (vars s) k)" for k
    using inject_vars [OF assms(2,8)] by (simp split: option.split)
  ultimately show ?thesis
    by (intro exI [of _ "?s\<lparr>LastNodeID := ed_ToID ed\<rparr>"]) (simp add: inject_fields)
qed

text \<open>A session of the sample engine that is paused at its first node.\<close>

definition paused_world :: "unit mem_world" where
  "paused_world = snd (InMemory_Save uuid_x Background ''s''
     (NewState\<lparr>LastNodeID := ''a'', Status := StatusPaused\<rparr>) new_mem_world)"

lemma paused_world_load:
  "InMemory_Load Background ''s'' paused_world = (Inr (NewState\<lparr>LastNodeID := ''a'', Status := StatusPaused\<rparr>), paused_world)"
  by (simp add: paused_world_def InMemory_Load_def InMemory_Save_def marshal_state_def state_json_ok_def
      NewState_def vars_json_ok_def json_state_def json_vars_def Let_def)

theorem resume_continues_at_successor_witness:
  "\<exists>s1. Resume sample_engine Background ''s'' [(''approved'', GBool False)] paused_world
      = runLoop sample_engine Background ''s'' s1 paused_world
    \<and> LastNodeID s1 = ''b'' \<and> glookup (vars s1) ''approved'' = Some (GBool False)"
proof -
  have "\<exists>s1. Resume sample_engine Background ''s'' [(''approved'', GBool False)] paused_world
      = runLoop sample_engine Background ''s'' s1 paused_world
    \<and> LastNodeID s1 = ed_ToID (hd (g_Edges (sample_graph :: unit mem_world Graph))) \<and> Status s1 = StatusRunning
    \<and> Messages s1 = Messages (NewState\<lparr>LastNodeID := ''a'', Status := StatusPaused\<rparr>)
    \<and> StepCount s1 = StepCount (NewState\<lparr>LastNodeID := ''a'', Status := StatusPaused\<rparr>)
    \<and> (\<forall>k. glookup (vars s1) k = (case glookup [(''approved'', GBool False)] k of Some v \<Rightarrow> Some v
        | None \<Rightarrow> glookup (vars (NewState\<lparr>LastNodeID := ''a'', Status := StatusPaused\<rparr>)) k))"
    by (rule resume_continues_at_successor [where g = sample_graph])
      (simp_all add: paused_world_load sample_graph_def state_ok_def NewState_def vars_def)
  then show ?thesis by (auto simp: sample_graph_def)
qed


text \<open>A node that asks for a human.\<close>

definition asking_node :: "string \<Rightarrow> 'w Node" where
  "asking_node i = \<lparr>n_ID = i, n_Process = (\<lambda>ctx s w.
     ((s, Inl (AgentErr ErrCategoryHumanNeeded i (Some (ErrorText ''please approve'')) 0)), w))\<rparr>"

definition asking_engine :: "unit mem_world Engine" where
  "asking_engine = sample_engine\<lparr>e_graph := Some (sample_graph\<lparr>g_Nodes := [(''a'', asking_node ''a'')]\<rparr>)\<rparr>"

lemma asking_process:
  "processNodeWithRetry asking_engine ctx (asking_node i) s w
    = (Some (AgentErr ErrCategoryHumanNeeded i (Some (ErrorText ''please approve'')) 0), s, None, w)"
  unfolding processNodeWithRetry_def Execute_def
  by (rule Execute_loop_fatal)
    (simp_all add: asking_engine_def DefaultRetryPolicy_def process_call_def asking_node_def is_retriable_def)


end
