(* ===== verification/Hooks_Model.thy ===== *)
theory Hooks_Model
  imports Engine_Props
begin

text \<open>
  Package \<open>engine\<close>, file \<open>hooks.go\<close>: the four hooks that come with the engine. Each
  \<open>OnHook\<close> is a function on the hook's own state; \<open>hook_on\<close> turns it into a lifecycle hook of
  the engine, given where in the world the hook's state is kept.
\<close>

section \<open>TokenCounterHook\<close>

record tokenCounter =
  tco_InputTokens :: "(string, int) gomap"
  tco_OutputTokens :: "(string, int) gomap"

record TokenCounterHook =
  tch_counters :: "(string, tokenCounter) gomap"

definition NewTokenCounterHook :: TokenCounterHook where
  "NewTokenCounterHook = \<lparr>tch_counters = []\<rparr>"

text \<open>\<open>m[k]\<close> of a \<open>map[string]int\<close>: zero for a missing key.\<close>

definition int_at :: "('k, int) gomap \<Rightarrow> 'k \<Rightarrow> int" where
  "int_at m k = (case glookup m k of None \<Rightarrow> 0 | Some n \<Rightarrow> n)"

text \<open>\<open>s, _ := m[k].(string)\<close>: the empty string when the key is missing or not a string.\<close>

definition string_or_empty :: "gvars \<Rightarrow> string \<Rightarrow> string" where
  "string_or_empty m k = (case map_string m k of None \<Rightarrow> [] | Some s \<Rightarrow> s)"

definition TokenCounter_OnHook :: "AgentState option \<Rightarrow> HookMeta \<Rightarrow> TokenCounterHook \<Rightarrow> TokenCounterHook" where
  "TokenCounter_OnHook st meta h =
     (if hm_Point meta \<noteq> HookAfterNode then h
      else (case st of
        None \<Rightarrow> h
      | Some s \<Rightarrow> (case Variables s of
          None \<Rightarrow> h
        | Some m \<Rightarrow> (case glookup m ''__token_usage__'' of
            Some (GUsage i u) \<Rightarrow>
              (let key = string_or_empty m ''tenant_id'' @ '':'' @ string_or_empty m ''model_name'';
                   c = (case glookup (tch_counters h) key of
                          None \<Rightarrow> \<lparr>tco_InputTokens = [], tco_OutputTokens = []\<rparr> | Some c \<Rightarrow> c)
               in h\<lparr>tch_counters := gset key
                    \<lparr>tco_InputTokens = gset key (int_at (tco_InputTokens c) key + i) (tco_InputTokens c),
                     tco_OutputTokens = gset key (int_at (tco_OutputTokens c) key + u) (tco_OutputTokens c)\<rparr>
                    (tch_counters h)\<rparr>)
          | _ \<Rightarrow> h))))"

definition GetSummary :: "TokenCounterHook \<Rightarrow> (string, int \<times> int) gomap" where
  "GetSummary h = fold (\<lambda>(k, v). gset k (int_at (tco_InputTokens v) k, int_at (tco_OutputTokens v) k))
     (tch_counters h) []"

section \<open>LatencyMetricHook\<close>

record LatencyMetricHook =
  lm_startTimestamps :: "(string, time) gomap"
  lm_Min :: "(string, duration) gomap"
  lm_Max :: "(string, duration) gomap"
  lm_Total :: "(string, duration) gomap"
  lm_Count :: "(string, int) gomap"

definition NewLatencyMetricHook :: LatencyMetricHook where
  "NewLatencyMetricHook = \<lparr>lm_startTimestamps = [], lm_Min = [], lm_Max = [], lm_Total = [], lm_Count = []\<rparr>"

definition Latency_record :: "string \<Rightarrow> duration \<Rightarrow> LatencyMetricHook \<Rightarrow> LatencyMetricHook" where
  "Latency_record n elapsed h = h\<lparr>
     lm_startTimestamps := gdelete n (lm_startTimestamps h),
     lm_Count := gset n (int_at (lm_Count h) n + 1) (lm_Count h),
     lm_Total := gset n (int_at (lm_Total h) n + elapsed) (lm_Total h),
     lm_Min := (case glookup (lm_Min h) n of
        None \<Rightarrow> gset n elapsed (lm_Min h)
      | Some cur \<Rightarrow> if elapsed < cur then gset n elapsed (lm_Min h) else lm_Min h),
     lm_Max := (case glookup (lm_Max h) n of
        None \<Rightarrow> gset n elapsed (lm_Max h)
      | Some cur \<Rightarrow> if cur < elapsed then gset n elapsed (lm_Max h) else lm_Max h)\<rparr>"

definition Latency_OnHook :: "time \<Rightarrow> HookMeta \<Rightarrow> LatencyMetricHook \<Rightarrow> LatencyMetricHook" where
  "Latency_OnHook now meta h = (case hm_Point meta of
     HookBeforeNode \<Rightarrow> h\<lparr>lm_startTimestamps := gset (hm_NodeID meta) now (lm_startTimestamps h)\<rparr>
   | HookPointOther _ \<Rightarrow> h
   | _ \<Rightarrow> (case glookup (lm_startTimestamps h) (hm_NodeID meta) of
       None \<Rightarrow> h
     | Some started \<Rightarrow> Latency_record (hm_NodeID meta) (now - started) h))"

definition Avg :: "LatencyMetricHook \<Rightarrow> string \<Rightarrow> duration" where
  "Avg h n = (if int_at (lm_Count h) n = 0 then 0
     else go_div (int_at (lm_Total h) n) (int_at (lm_Count h) n))"

section \<open>AuditLogHook\<close>

record AuditEvent =
  ae_Timestamp :: time
  ae_TenantID :: string
  ae_SessionID :: string
  ae_NodeID :: string
  ae_Point :: HookPoint
  ae_StepCount :: int
  ae_Err :: string

definition Audit_OnHook ::
  "(AuditEvent \<Rightarrow> 'w \<Rightarrow> 'w) option \<Rightarrow> time \<Rightarrow> AgentState option \<Rightarrow> HookMeta \<Rightarrow> 'w \<Rightarrow> 'w" where
  "Audit_OnHook sink now st meta w =
     (let m = (case st of None \<Rightarrow> [] | Some s \<Rightarrow> vars s);
          ev = \<lparr>ae_Timestamp = now, ae_TenantID = string_or_empty m ''tenant_id'',
                ae_SessionID = string_or_empty m ''session_id'', ae_NodeID = hm_NodeID meta,
                ae_Point = hm_Point meta, ae_StepCount = hm_StepCount meta,
                ae_Err = (case hm_Err meta of None \<Rightarrow> [] | Some e \<Rightarrow> Error e)\<rparr>
      in case sink of None \<Rightarrow> w | Some f \<Rightarrow> f ev w)"

section \<open>ContextWindowGuardHook\<close>

record ContextWindowGuardHook =
  cwg_MaxTokens :: int
  cwg_ThresholdPct :: rat

fun estimate_parts :: "Part list \<Rightarrow> nat" where
  "estimate_parts [] = 0"
| "estimate_parts (p # ps) = length (p_Text p) div 4 + estimate_parts ps"

fun estimate_messages :: "Message list \<Rightarrow> nat" where
  "estimate_messages [] = 0"
| "estimate_messages (m # ms) = estimate_parts (m_Parts m) + estimate_messages ms"

definition estimateTokens :: "AgentState \<Rightarrow> int" where
  "estimateTokens s = int (estimate_messages (Messages s))"

definition guard_threshold :: "ContextWindowGuardHook \<Rightarrow> int" where
  "guard_threshold h = trunc_rat (of_int (cwg_MaxTokens h) * cwg_ThresholdPct h)"

definition ContextWindowGuard_OnHook ::
  "ContextWindowGuardHook \<Rightarrow> AgentState option \<Rightarrow> HookMeta \<Rightarrow> AgentState option" where
  "ContextWindowGuard_OnHook h st meta =
     (if hm_Point meta \<noteq> HookBeforeNode then st
      else (case st of
        None \<Rightarrow> None
      | Some s \<Rightarrow>
          if guard_threshold h \<le> estimateTokens s then
            (case Variables s of
               None \<Rightarrow> Some s
             | Some m \<Rightarrow> Some (s\<lparr>Variables := Some (gset ''__context_window_pressure__'' (GBool True) m)\<rparr>))
          else Some s))"

section \<open>As hooks of the engine\<close>

definition hook_on ::
  "('w \<Rightarrow> 'a) \<Rightarrow> ('a \<Rightarrow> 'w \<Rightarrow> 'w) \<Rightarrow> (AgentState option \<Rightarrow> HookMeta \<Rightarrow> 'w \<Rightarrow> 'a \<Rightarrow> 'a) \<Rightarrow> 'w LifecycleHook" where
  "hook_on get put f st meta w = (None, st, put (f st meta w (get w)) w)"

definition TokenCounter_hook ::
  "('w \<Rightarrow> TokenCounterHook) \<Rightarrow> (TokenCounterHook \<Rightarrow> 'w \<Rightarrow> 'w) \<Rightarrow> 'w LifecycleHook" where
  "TokenCounter_hook get put = hook_on get put (\<lambda>st meta w. TokenCounter_OnHook st meta)"

definition Latency_hook ::
  "'w Runtime \<Rightarrow> ('w \<Rightarrow> LatencyMetricHook) \<Rightarrow> (LatencyMetricHook \<Rightarrow> 'w \<Rightarrow> 'w) \<Rightarrow> 'w LifecycleHook" where
  "Latency_hook rt get put = hook_on get put (\<lambda>st meta w. Latency_OnHook (fst (rt_Now rt w)) meta)"

definition Audit_hook :: "'w Runtime \<Rightarrow> (AuditEvent \<Rightarrow> 'w \<Rightarrow> 'w) option \<Rightarrow> 'w LifecycleHook" where
  "Audit_hook rt sink st meta w = (case rt_Now rt w of (now, w1) \<Rightarrow> (None, st, Audit_OnHook sink now st meta w1))"

definition ContextWindowGuard_hook :: "ContextWindowGuardHook \<Rightarrow> 'w LifecycleHook" where
  "ContextWindowGuard_hook h st meta w = (None, ContextWindowGuard_OnHook h st meta, w)"

section \<open>Lemmas: latency statistics\<close>

text \<open>
  The invariant of the statistics at clock time \<open>now\<close>: the running timers started in the past,
  and for a node with \<open>n\<close> samples the total lies between \<open>n\<close> times the minimum and \<open>n\<close>
  times the maximum.
\<close>

definition stats_ok :: "LatencyMetricHook \<Rightarrow> string \<Rightarrow> bool" where
  "stats_ok h n = (case (glookup (lm_Min h) n, glookup (lm_Max h) n) of
     (None, None) \<Rightarrow> int_at (lm_Count h) n = 0 \<and> int_at (lm_Total h) n = 0
   | (Some mn, Some mx) \<Rightarrow> 0 \<le> mn \<and> mn \<le> mx \<and> 0 < int_at (lm_Count h) n
       \<and> int_at (lm_Count h) n * mn \<le> int_at (lm_Total h) n
       \<and> int_at (lm_Total h) n \<le> int_at (lm_Count h) n * mx
   | _ \<Rightarrow> False)"

definition latency_inv :: "time \<Rightarrow> LatencyMetricHook \<Rightarrow> bool" where
  "latency_inv now h \<longleftrightarrow>
     (\<forall>n t. glookup (lm_startTimestamps h) n = Some t \<longrightarrow> t \<le> now) \<and> (\<forall>n. stats_ok h n)"

lemma stats_ok_start [simp]: "stats_ok (h\<lparr>lm_startTimestamps := m\<rparr>) n = stats_ok h n"
  by (simp add: stats_ok_def split: option.split)

lemma int_at_gset [simp]: "int_at (gset k v m) k' = (if k' = k then v else int_at m k')"
  by (simp add: int_at_def)

lemma latency_inv_new [simp]: "latency_inv now NewLatencyMetricHook"
  by (simp add: latency_inv_def stats_ok_def NewLatencyMetricHook_def int_at_def)

lemma latency_inv_mono: "latency_inv now h \<Longrightarrow> now \<le> now' \<Longrightarrow> latency_inv now' h"
  by (fastforce simp: latency_inv_def)

lemma total_bounds:
  fixes c t mn mx d :: int
  assumes "0 < c" and "c * mn \<le> t" and "t \<le> c * mx" and "mn \<le> mx"
  shows "(c + 1) * min mn d \<le> t + d" and "t + d \<le> (c + 1) * max mx d"
proof -
  have "c * min mn d \<le> c * mn" "c * mx \<le> c * max mx d" using assms(1) by (intro mult_left_mono; auto)+
  moreover have "(c + 1) * min mn d = c * min mn d + min mn d" "(c + 1) * max mx d = c * max mx d + max mx d"
    by (simp_all add: algebra_simps)
  moreover have "min mn d \<le> d" "d \<le> max mx d" by simp_all
  ultimately show "(c + 1) * min mn d \<le> t + d" "t + d \<le> (c + 1) * max mx d"
    using assms(2,3) by linarith+
qed

lemma latency_inv_record:
  assumes "latency_inv now h" and "0 \<le> d"
  shows "latency_inv now (Latency_record n d h)"
proof -
  have node: "stats_ok h k" for k using assms(1) by (simp add: latency_inv_def)
  let ?h = "Latency_record n d h"
  have "stats_ok ?h k" for k
  proof (cases "k = n")
    case False
    with node [of k] show ?thesis by (simp add: stats_ok_def Latency_record_def split: option.splits)
  next
    case True
    show ?thesis
    proof (cases "glookup (lm_Min h) n")
      case None
      with node [of n] True assms(2) show ?thesis
        by (auto simp: stats_ok_def Latency_record_def split: option.splits)
    next
      case (Some mn)
      with node [of n] obtain mx where mx: "glookup (lm_Max h) n = Some mx"
        by (auto simp: stats_ok_def split: option.splits)
      with Some node [of n] have b: "0 \<le> mn" "mn \<le> mx" "0 < int_at (lm_Count h) n"
        "int_at (lm_Count h) n * mn \<le> int_at (lm_Total h) n"
        "int_at (lm_Total h) n \<le> int_at (lm_Count h) n * mx" by (simp_all add: stats_ok_def)
      have "glookup (lm_Min ?h) n = Some (min mn d)" "glookup (lm_Max ?h) n = Some (max mx d)"
        using Some mx by (auto simp: Latency_record_def)
      with True b assms(2) total_bounds [OF b(3,4,5,2), of d] show ?thesis
        by (simp add: stats_ok_def) (simp add: Latency_record_def)
    qed
  qed
  moreover have "\<forall>k t. glookup (lm_startTimestamps ?h) k = Some t \<longrightarrow> t \<le> now"
    using assms(1) by (auto simp: Latency_record_def latency_inv_def)
  ultimately show ?thesis unfolding latency_inv_def by blast
qed

lemma latency_inv_OnHook:
  assumes "latency_inv now h"
  shows "latency_inv now (Latency_OnHook now meta h)"
proof -
  have "t \<le> now" if "glookup (lm_startTimestamps h) n = Some t" for n t
    using assms that by (simp add: latency_inv_def)
  moreover have "latency_inv now (h\<lparr>lm_startTimestamps := gset n now (lm_startTimestamps h)\<rparr>)" for n
    using assms by (simp add: latency_inv_def)
  ultimately show ?thesis
    using assms latency_inv_record
    by (auto simp: Latency_OnHook_def split: HookPoint.split option.split)
qed

text \<open>A run of the hook: calls at times that do not go back.\<close>

fun latency_run :: "(time \<times> HookMeta) list \<Rightarrow> LatencyMetricHook \<Rightarrow> LatencyMetricHook" where
  "latency_run [] h = h"
| "latency_run ((t, meta) # evs) h = latency_run evs (Latency_OnHook t meta h)"

lemma latency_run_inv:
  assumes "latency_inv t0 h" and "sorted (t0 # map fst evs)"
  shows "latency_inv (last (t0 # map fst evs)) (latency_run evs h)"
  using assms
proof (induction evs arbitrary: t0 h)
  case Nil
  then show ?case by simp
next
  case (Cons ev evs)
  obtain t meta where ev: "ev = (t, meta)" by (cases ev)
  from Cons.prems ev have "latency_inv t h" by (auto intro: latency_inv_mono)
  then have "latency_inv t (Latency_OnHook t meta h)" by (rule latency_inv_OnHook)
  from Cons.IH [OF this] Cons.prems ev show ?case by auto
qed

section \<open>Properties of hooks.go\<close>

text \<open>
  The latency statistics are consistent. After any sequence of hook calls with a clock that
  does not go back, a node that has completed at least once has non-negative minimum and maximum
  with minimum \<open>\<le>\<close> average \<open>\<le>\<close> maximum; a node that never completed has average zero.
\<close>

theorem latency_average_between:
  assumes "sorted (t0 # map fst evs)"
  shows "let h = latency_run evs NewLatencyMetricHook in
    (case (glookup (lm_Min h) n, glookup (lm_Max h) n) of
       (Some mn, Some mx) \<Rightarrow> 0 \<le> mn \<and> mn \<le> Avg h n \<and> Avg h n \<le> mx
     | (None, None) \<Rightarrow> Avg h n = 0
     | _ \<Rightarrow> False)"
proof -
  let ?h = "latency_run evs NewLatencyMetricHook"
  let ?c = "int_at (lm_Count ?h) n" and ?t = "int_at (lm_Total ?h) n"
  have "latency_inv (last (t0 # map fst evs)) ?h"
    by (rule latency_run_inv [OF latency_inv_new assms])
  then have i: "case (glookup (lm_Min ?h) n, glookup (lm_Max ?h) n) of
        (None, None) \<Rightarrow> ?c = 0 \<and> ?t = 0
      | (Some mn, Some mx) \<Rightarrow> 0 \<le> mn \<and> mn \<le> mx \<and> 0 < ?c \<and> ?c * mn \<le> ?t \<and> ?t \<le> ?c * mx
      | _ \<Rightarrow> False" by (simp add: latency_inv_def stats_ok_def)
  have avg: "mn \<le> Avg ?h n \<and> Avg ?h n \<le> mx"
    if "0 \<le> mn" "0 < ?c" "?c * mn \<le> ?t" "?t \<le> ?c * mx" for mn mx
  proof -
    have "0 \<le> ?t" using that by (meson mult_nonneg_nonneg order_trans less_imp_le)
    then have "Avg ?h n = ?t div ?c" using that(2) by (simp add: Avg_def go_div_nonneg)
    moreover have "mn \<le> ?t div ?c"
      using zdiv_mono1 [OF that(3,2)] that(2) by simp
    moreover have "?t div ?c \<le> mx"
      using zdiv_mono1 [OF that(4), of ?c] that(2) by simp
    ultimately show ?thesis by simp
  qed
  show ?thesis using i avg by (auto simp: Let_def Avg_def split: option.splits)
qed

theorem latency_average_between_witness:
  "let m = (\<lambda>p. \<lparr>hm_Point = p, hm_NodeID = ''a'', hm_StepCount = 0, hm_Elapsed = 0, hm_Err = None\<rparr>);
       h = latency_run [(1, m HookBeforeNode), (4, m HookAfterNode), (5, m HookBeforeNode), (12, m HookOnError)]
             NewLatencyMetricHook
   in glookup (lm_Min h) ''a'' = Some 3 \<and> glookup (lm_Max h) ''a'' = Some 7
     \<and> 3 \<le> Avg h ''a'' \<and> Avg h ''a'' \<le> 7"
proof -
  let ?m = "\<lambda>p. \<lparr>hm_Point = p, hm_NodeID = ''a'', hm_StepCount = 0, hm_Elapsed = 0, hm_Err = None\<rparr>"
  let ?evs = "[(1, ?m HookBeforeNode), (4, ?m HookAfterNode), (5, ?m HookBeforeNode), (12, ?m HookOnError)]"
  let ?h = "latency_run ?evs NewLatencyMetricHook"
  have "glookup (lm_Min ?h) ''a'' = Some 3" "glookup (lm_Max ?h) ''a'' = Some 7"
    by (simp_all add: Latency_OnHook_def Latency_record_def NewLatencyMetricHook_def)
  moreover have "sorted ((0 :: int) # map fst ?evs)" by simp
  note latency_average_between [OF this, of "''a''"]
  ultimately show ?thesis by (simp only: Let_def option.case prod.case)
qed



text \<open>
  The context window guard signals pressure exactly at its threshold. Before a node, on a
  state whose variable map is not nil, the flag is set if and only if the estimate (a quarter of
  the bytes of each text part, rounded down) reaches the threshold; nothing else of the state
  changes, and at every other point the state is left as it is.
\<close>

theorem context_guard_exact:
  assumes "Variables s = Some m"
  shows "\<exists>s'. ContextWindowGuard_OnHook h (Some s) meta = Some s' \<and> s' = s\<lparr>Variables := Variables s'\<rparr>
    \<and> (\<forall>k. glookup (vars s') k =
        (if k = ''__context_window_pressure__'' \<and> hm_Point meta = HookBeforeNode
            \<and> trunc_rat (of_int (cwg_MaxTokens h) * cwg_ThresholdPct h)
                \<le> (\<Sum>ms \<leftarrow> Messages s. \<Sum>p \<leftarrow> m_Parts ms. int (length (p_Text p) div 4))
         then Some (GBool True) else glookup m k))"
proof -
  have parts: "int (estimate_parts ps) = (\<Sum>p \<leftarrow> ps. int (length (p_Text p) div 4))" for ps
    by (induction ps) auto
  have "int (estimate_messages ms) = (\<Sum>x \<leftarrow> ms. \<Sum>p \<leftarrow> m_Parts x. int (length (p_Text p) div 4))" for ms
    by (induction ms) (auto simp: parts)
  with assms show ?thesis
    by (simp add: ContextWindowGuard_OnHook_def guard_threshold_def estimateTokens_def vars_def)
qed

theorem context_guard_exact_witness:
  "\<exists>s'. ContextWindowGuard_OnHook \<lparr>cwg_MaxTokens = 0, cwg_ThresholdPct = 1/2\<rparr> (Some NewState)
      \<lparr>hm_Point = HookBeforeNode, hm_NodeID = ''a'', hm_StepCount = 0, hm_Elapsed = 0, hm_Err = None\<rparr> = Some s'
    \<and> glookup (vars s') ''__context_window_pressure__'' = Some (GBool True)"
proof -
  have "Variables NewState = Some []" by (simp add: NewState_def)
  from context_guard_exact [OF this, of "\<lparr>cwg_MaxTokens = 0, cwg_ThresholdPct = 1/2\<rparr>"
      "\<lparr>hm_Point = HookBeforeNode, hm_NodeID = ''a'', hm_StepCount = 0, hm_Elapsed = 0, hm_Err = None\<rparr>"]
  show ?thesis by (auto simp: trunc_rat_def)
qed

text \<open>
  The token counter: a sum per tenant and model, but only for values of the type \<open>usage\<close> that
  is local to \<open>OnHook\<close>; any other dynamic value under the key leaves the counters alone.
\<close>

lemma TokenCounter_other:
  assumes "\<forall>i u. glookup (vars s) ''__token_usage__'' \<noteq> Some (GUsage i u)"
  shows "TokenCounter_OnHook (Some s) meta h = h"
  using assms
  by (auto simp: TokenCounter_OnHook_def vars_def split: option.splits gany.splits)

end
