(* ===== verification/Security_Model.thy ===== *)
theory Security_Model
  imports Hooks_Model
begin

text \<open>
  Package \<open>security\<close>: the input sanitizer, the output guard and the security audit log.

  \<^bold>\<open>Regular expressions.\<close> The patterns of the package are values of \<open>regex\<close>. \<open>rx_match\<close> lists the
  ways a pattern matches at a position, in the order in which a backtracking search tries them;
  its head is the match of Go's leftmost-first semantics. The patterns of the sanitizer are
  case-insensitive literals; besides the two cases of an ASCII letter, \<open>(?i)\<close> lets \<open>s\<close> match
  U+017F and \<open>k\<close> match U+212A.
\<close>

section \<open>The sanitizer (security/sanitizer.go)\<close>

text \<open>Whether a text starts with a literal, under Unicode case folding.\<close>

fun fold_prefix :: "string \<Rightarrow> string \<Rightarrow> bool" where
  "fold_prefix [] t = True"
| "fold_prefix (p # ps) [] = False"
| "fold_prefix (p # ps) (c # cs) =
     (if byte_lower c = byte_lower p then fold_prefix ps cs
      else if byte_lower p = CHR ''s'' \<and> c = CHR 0xC5 \<and> cs \<noteq> [] \<and> hd cs = CHR 0xBF then fold_prefix ps (tl cs)
      else if byte_lower p = CHR ''k'' \<and> c = CHR 0xE2 \<and> take 2 cs = [CHR 0x84, CHR 0xAA] then fold_prefix ps (drop 2 cs)
      else False)"

fun fold_contains :: "string \<Rightarrow> string \<Rightarrow> bool" where
  "fold_contains p [] = fold_prefix p []"
| "fold_contains p (c # cs) = (fold_prefix p (c # cs) \<or> fold_contains p cs)"

text \<open>Each pattern with its source text and the literals it stands for.\<close>

definition injectionPatterns :: "(string \<times> string list) list" where
  "injectionPatterns =
    [(''(?i)ignore (all )?previous instructions'',
        [''ignore all previous instructions'', ''ignore previous instructions'']),
     (''(?i)system prompt'', [''system prompt'']),
     (''(?i)instead of what I just said'', [''instead of what I just said'']),
     (''(?i)you are now a'', [''you are now a'']),
     (''(?i)new role'', [''new role''])]"

fun check_patterns :: "(string \<times> string list) list \<Rightarrow> string \<Rightarrow> go_error option" where
  "check_patterns [] text = None"
| "check_patterns ((src, lits) # ps) text =
     (if list_ex (\<lambda>l. fold_contains l text) lits
      then Some (ErrorText (''potential prompt injection detected: matching pattern '' @ src))
      else check_patterns ps text)"

definition SanitizeInput :: "string \<Rightarrow> go_error option" where
  "SanitizeInput text = (case check_patterns injectionPatterns text of
     Some err \<Rightarrow> Some err
   | None \<Rightarrow> if 50000 < length text then Some (ErrorText ''input text exceeds maximum security limit (50k chars)'') else None)"

fun sanitize_parts :: "Part list \<Rightarrow> go_error option" where
  "sanitize_parts [] = None"
| "sanitize_parts (p # ps) =
     (if p_Type p = PartTypeText then
        (case SanitizeInput (p_Text p) of Some err \<Rightarrow> Some err | None \<Rightarrow> sanitize_parts ps)
      else sanitize_parts ps)"

definition SanitizeMessage :: "Message \<Rightarrow> go_error option" where
  "SanitizeMessage m = sanitize_parts (m_Parts m)"

text \<open>\<open>strings.Map\<close> over the runes: control characters other than tab, newline and return go.\<close>

definition kept_rune :: "string \<Rightarrow> bool" where
  "kept_rune r = (case r of [c] \<Rightarrow> 32 \<le> (of_char c :: nat) \<or> c \<in> {CHR 0x09, CHR 0x0A, CHR 0x0D} | _ \<Rightarrow> True)"

definition StripSensitiveChars :: "string \<Rightarrow> string" where
  "StripSensitiveChars text = concat (filter kept_rune (utf8_runes text))"

section \<open>The output guard (security/guard.go)\<close>

datatype regex =
    RClass "char \<Rightarrow> bool"
  | RStar bool "char \<Rightarrow> bool"
  | RSeq regex regex
  | ROpt regex
  | RWordB

type_synonym rx_pos = "char option \<times> string"

fun star_matches :: "(char \<Rightarrow> bool) \<Rightarrow> char option \<Rightarrow> string \<Rightarrow> rx_pos list" where
  "star_matches P prev [] = [(prev, [])]"
| "star_matches P prev (c # cs) = (if P c then star_matches P (Some c) cs @ [(prev, c # cs)] else [(prev, c # cs)])"

definition digit :: "char \<Rightarrow> bool" where "digit c \<longleftrightarrow> byte_in 48 57 c"
definition letter :: "char \<Rightarrow> bool" where "letter c \<longleftrightarrow> byte_in 65 90 c \<or> byte_in 97 122 c"
definition wordchar :: "char option \<Rightarrow> bool" where
  "wordchar c = (case c of None \<Rightarrow> False | Some c \<Rightarrow> digit c \<or> letter c \<or> c = CHR ''_'')"

fun rx_match :: "regex \<Rightarrow> rx_pos \<Rightarrow> rx_pos list" where
  "rx_match (RClass P) (prev, s) = (case s of c # cs \<Rightarrow> if P c then [(Some c, cs)] else [] | [] \<Rightarrow> [])"
| "rx_match (RStar greedy P) (prev, s) = (if greedy then star_matches P prev s else rev (star_matches P prev s))"
| "rx_match (RSeq a b) p = concat (map (rx_match b) (rx_match a p))"
| "rx_match (ROpt a) p = rx_match a p @ [p]"
| "rx_match RWordB (prev, s) = (if wordchar prev = wordchar (case s of [] \<Rightarrow> None | c # _ \<Rightarrow> Some c) then [] else [(prev, s)])"

text \<open>\<open>a{n}\<close> followed by \<open>r\<close>, and \<open>a{0,n}\<close>.\<close>

fun rx_times :: "nat \<Rightarrow> regex \<Rightarrow> regex \<Rightarrow> regex" where
  "rx_times 0 a r = r"
| "rx_times (Suc n) a r = RSeq a (rx_times n a r)"

fun rx_upto :: "nat \<Rightarrow> regex \<Rightarrow> regex" where
  "rx_upto 0 a = ROpt a"
| "rx_upto (Suc n) a = ROpt (RSeq a (rx_upto n a))"

definition rx_plus :: "(char \<Rightarrow> bool) \<Rightarrow> regex" where
  "rx_plus P = RSeq (RClass P) (RStar True P)"

definition credit_card :: regex where
  "credit_card = (let x = RSeq (RClass digit) (RStar False (\<lambda>c. c = CHR '' '' \<or> c = CHR ''-''))
     in rx_times 13 x (rx_upto 2 x))"

definition email :: regex where
  "email = RSeq (rx_plus (\<lambda>c. letter c \<or> digit c \<or> c \<in> set ''._%+-''))
     (RSeq (RClass (\<lambda>c. c = CHR ''@''))
     (RSeq (rx_plus (\<lambda>c. letter c \<or> digit c \<or> c \<in> set ''.-''))
     (RSeq (RClass (\<lambda>c. c = CHR ''.''))
     (RSeq (RClass letter) (RSeq (RClass letter) (RStar True letter))))))"

definition ip_address :: regex where
  "ip_address = (let d3 = RSeq (RClass digit) (rx_upto 1 (RClass digit))
     in RSeq RWordB (rx_times 3 (RSeq d3 (RClass (\<lambda>c. c = CHR ''.''))) (RSeq d3 RWordB)))"

definition piiPatterns :: "regex list" where
  "piiPatterns = [credit_card, email, ip_address]"

text \<open>
  \<open>ReplaceAllStringFunc\<close>: the leftmost match is replaced and the search goes on behind it. No
  pattern of the package matches the empty string; an empty match would be skipped here.
\<close>

function replace_all :: "regex \<Rightarrow> (string \<Rightarrow> string) \<Rightarrow> char option \<Rightarrow> string \<Rightarrow> string" where
  "replace_all r f prev [] = []"
| "replace_all r f prev (c # cs) = (case rx_match r (prev, c # cs) of
     (prev', rest) # _ \<Rightarrow>
       if length rest \<le> length cs then f (take (Suc (length cs) - length rest) (c # cs)) @ replace_all r f prev' rest
       else c # replace_all r f (Some c) cs
   | [] \<Rightarrow> c # replace_all r f (Some c) cs)"
  by pat_completeness auto
termination by (relation "measure (\<lambda>(r, f, prev, s). length s)") auto

definition mask_match :: "string \<Rightarrow> string" where
  "mask_match m = (if length m \<le> 4 then ''****''
     else take 2 m @ replicate (length m - 4) (CHR ''*'') @ drop (length m - 2) m)"

text \<open>The loop over the map of patterns, in the order the iteration visits them.\<close>

definition applyMask :: "regex list \<Rightarrow> string \<Rightarrow> string" where
  "applyMask ps text = fold (\<lambda>p content. replace_all p mask_match None content) ps text"

definition MaskPII :: "regex list \<Rightarrow> string \<Rightarrow> string" where
  "MaskPII ps text = fold (\<lambda>p content. replace_all p (\<lambda>_. ''****'') None content) ps text"

definition mask_part :: "regex list \<Rightarrow> Part \<Rightarrow> Part" where
  "mask_part ps p =
     (if p_Type p = PartTypeText then p\<lparr>p_Text := applyMask ps (p_Text p)\<rparr>
      else if p_Type p = PartTypeToolResult
      then p\<lparr>p_ToolResult := map_option (\<lambda>r. r\<lparr>tr_Result := applyMask ps (tr_Result r)\<rparr>) (p_ToolResult p)\<rparr>
      else p)"

text \<open>The hook; a nil state is dereferenced.\<close>

definition OutputGuard_hook :: "regex list \<Rightarrow> 'w LifecycleHook" where
  "OutputGuard_hook ps st meta w =
     (if hm_Point meta \<noteq> HookAfterNode then (None, st, w)
      else (case st of
        None \<Rightarrow> (Some NilDereference, None, w)
      | Some s \<Rightarrow>
          if Messages s = [] \<or> m_Role (last (Messages s)) \<noteq> RoleAssistant then (None, Some s, w)
          else (None, Some (s\<lparr>Messages := butlast (Messages s) @
             [(last (Messages s))\<lparr>m_Parts := map (mask_part ps) (m_Parts (last (Messages s)))\<rparr>]\<rparr>), w)))"

section \<open>The audit log (security/audit.go)\<close>

text \<open>
  The channel of capacity 1000, whether it is closed, the lines the logging goroutine has written
  and the lines that went to the standard logger because the channel was full.
\<close>

record SecAuditLog =
  sal_ch :: "string list"
  sal_closed :: bool
  sal_file :: "string list"
  sal_stderr :: "string list"

definition NewSecAuditLog :: SecAuditLog where
  "NewSecAuditLog = \<lparr>sal_ch = [], sal_closed = False, sal_file = [], sal_stderr = []\<rparr>"

definition audit_capacity :: nat where "audit_capacity = 1000"

text \<open>\<open>log\<close>: a non-blocking send; \<open>None\<close> is the panic of sending on a closed channel.\<close>

definition audit_log :: "string \<Rightarrow> SecAuditLog \<Rightarrow> SecAuditLog option" where
  "audit_log msg h =
     (if sal_closed h then None
      else if length (sal_ch h) < audit_capacity then Some (h\<lparr>sal_ch := sal_ch h @ [msg]\<rparr>)
      else Some (h\<lparr>sal_stderr := sal_stderr h @ [''AUDIT_LOG_BUS_FULL: '' @ msg]\<rparr>))"

text \<open>One pass of the logging goroutine.\<close>

definition audit_write :: "SecAuditLog \<Rightarrow> SecAuditLog" where
  "audit_write h = (case sal_ch h of [] \<Rightarrow> h | m # ms \<Rightarrow> h\<lparr>sal_ch := ms, sal_file := sal_file h @ [m]\<rparr>)"

definition audit_close :: "SecAuditLog \<Rightarrow> SecAuditLog option" where
  "audit_close h = (if sal_closed h then None else Some (h\<lparr>sal_closed := True\<rparr>))"

definition LogViolation :: "string \<Rightarrow> string \<Rightarrow> string \<Rightarrow> string \<Rightarrow> SecAuditLog \<Rightarrow> SecAuditLog option" where
  "LogViolation tenantID sessionID violationType detail =
     audit_log (''[POLICY_VIOLATION] Type='' @ violationType @ '' Tenant='' @ tenantID @ '' Session='' @ sessionID
       @ '' Details='' @ detail)"

definition audit_tenant :: "AgentState option \<Rightarrow> string" where
  "audit_tenant st = (let tid = string_or_empty (case st of None \<Rightarrow> [] | Some s \<Rightarrow> vars s) ''tenant_id''
     in if tid = [] then ''default'' else tid)"

text \<open>The message \<open>OnHook\<close> logs at a point, if any; a nil state at the first node is dereferenced.\<close>

definition SecAudit_message :: "AgentState option \<Rightarrow> HookMeta \<Rightarrow> gopanic + string option" where
  "SecAudit_message st meta = (case hm_Point meta of
     HookBeforeNode \<Rightarrow>
       if hm_StepCount meta = 0 then (case st of
         None \<Rightarrow> Inl NilDereference
       | Some s \<Rightarrow> Inr (Some (''[SESSION_STARTED] Tenant='' @ audit_tenant st @ '' Session='' @ ContextID s @ '' TaskID='' @ TaskID s)))
       else Inr None
   | HookOnError \<Rightarrow> Inr (Some (''[EXECUTION_ERROR] Tenant='' @ audit_tenant st @ '' Node='' @ hm_NodeID meta @ '' Error=''
       @ (case hm_Err meta of None \<Rightarrow> ''<nil>'' | Some e \<Rightarrow> Error e)))
   | _ \<Rightarrow> Inr None)"

definition SecAudit_hook :: "('w \<Rightarrow> SecAuditLog) \<Rightarrow> (SecAuditLog \<Rightarrow> 'w \<Rightarrow> 'w) \<Rightarrow> 'w LifecycleHook" where
  "SecAudit_hook get put st meta w = (case SecAudit_message st meta of
     Inl p \<Rightarrow> (Some p, st, w)
   | Inr None \<Rightarrow> (None, st, w)
   | Inr (Some msg) \<Rightarrow> (case audit_log msg (get w) of
       None \<Rightarrow> (Some SendOnClosed, st, w) | Some h \<Rightarrow> (None, st, put h w)))"

text \<open>
  The hook of a program that drops the error of \<open>NewAuditLogHook\<close>: without a log file it is a nil
  pointer, which panics where it would log.
\<close>

definition audit_pointer :: "bool \<Rightarrow> ('w \<Rightarrow> SecAuditLog) \<Rightarrow> (SecAuditLog \<Rightarrow> 'w \<Rightarrow> 'w) \<Rightarrow> 'w LifecycleHook" where
  "audit_pointer opened get put st meta w =
     (if opened then SecAudit_hook get put st meta w
      else (case SecAudit_message st meta of Inr None \<Rightarrow> (None, st, w) | _ \<Rightarrow> (Some NilDereference, st, w)))"

lemma audit_pointer_state: "\<exists>p w'. audit_pointer opened get put st meta w = (p, st, w')"
  by (auto simp: audit_pointer_def SecAudit_hook_def split: sum.splits option.splits)

section \<open>Lemmas: the sanitizer\<close>

definition ascii :: "string \<Rightarrow> bool" where
  "ascii t \<longleftrightarrow> (\<forall>c \<in> set t. byte_in 0 127 c)"

lemma fold_prefix_ascii: "ascii t \<Longrightarrow> fold_prefix p t \<longleftrightarrow> HasPrefix (ToLower t) (ToLower p)"
proof (induction p t rule: fold_prefix.induct)
  case (3 p ps c cs)
  then have "c \<noteq> CHR 0xC5" "c \<noteq> CHR 0xE2" "ascii cs" by (auto simp: ascii_def byte_in_def)
  with 3 show ?case by (auto simp: HasPrefix_def ToLower_def)
qed (auto simp: HasPrefix_def ToLower_def)

lemma fold_contains_ascii: "ascii t \<Longrightarrow> fold_contains p t \<longleftrightarrow> Contains (ToLower t) (ToLower p)"
proof (induction t)
  case Nil
  then show ?case by (simp add: fold_prefix_ascii Contains.simps ToLower_def)
next
  case (Cons c cs)
  then have "ascii cs" by (simp add: ascii_def)
  with Cons fold_prefix_ascii [of "c # cs" p] show ?case
    by (subst Contains.simps) (simp add: ToLower_def)
qed

lemma check_patterns_None:
  "check_patterns ps text = None \<longleftrightarrow> (\<forall>x \<in> set ps. \<forall>l \<in> set (snd x). \<not> fold_contains l text)"
  by (induction ps) (auto simp: list_ex_iff split: if_splits)

lemma sanitize_parts_None:
  "sanitize_parts ps = None \<longleftrightarrow> (\<forall>p \<in> set ps. p_Type p = PartTypeText \<longrightarrow> SanitizeInput (p_Text p) = None)"
  by (induction ps) (auto split: option.splits)

section \<open>Lemmas: matching and masking\<close>

text \<open>The least number of bytes a pattern consumes.\<close>

fun rx_min :: "regex \<Rightarrow> nat" where
  "rx_min (RClass P) = 1"
| "rx_min (RStar g P) = 0"
| "rx_min (RSeq a b) = rx_min a + rx_min b"
| "rx_min (ROpt a) = 0"
| "rx_min RWordB = 0"

lemma star_matches_suffix: "q \<in> set (star_matches P prev s) \<Longrightarrow> suffix (snd q) s"
  by (induction P prev s rule: star_matches.induct) (auto simp: suffix_def split: if_splits)

lemma rx_match_suffix: "q \<in> set (rx_match r p) \<Longrightarrow> suffix (snd q) (snd p) \<and> rx_min r + length (snd q) \<le> length (snd p)"
proof (induction r arbitrary: p q)
  case (RClass P)
  then show ?case by (cases p) (auto simp: suffix_def split: list.splits if_splits)
next
  case (RStar g P)
  obtain prev s where p: "p = (prev, s)" by (cases p)
  with RStar have "q \<in> set (star_matches P prev s)" by (auto split: if_splits)
  from star_matches_suffix [OF this] p show ?case by (simp add: suffix_length_le)
next
  case (RSeq a b)
  then obtain m where m: "m \<in> set (rx_match a p)" "q \<in> set (rx_match b m)" by auto
  from RSeq.IH(1) [OF m(1)] RSeq.IH(2) [OF m(2)] show ?case by (auto intro: suffix_order.trans)
next
  case (ROpt a)
  then show ?case by (auto dest: ROpt.IH)
next
  case RWordB
  then show ?case by (cases p) (auto split: if_splits)
qed

lemma rx_min_times [simp]: "rx_min (rx_times n a r) = n * rx_min a + rx_min r"
  by (induction n) auto

lemma rx_min_upto [simp]: "rx_min (rx_upto n a) = 0"
  by (cases n) auto

lemma pii_min: "p \<in> set piiPatterns \<Longrightarrow> 5 \<le> rx_min p"
  by (auto simp: piiPatterns_def credit_card_def email_def ip_address_def rx_plus_def Let_def)

text \<open>A masked text: each byte is kept or replaced by a star.\<close>

definition masked :: "string \<Rightarrow> string \<Rightarrow> bool" where
  "masked t t' \<longleftrightarrow> list_all2 (\<lambda>a b. b = a \<or> b = CHR ''*'') t t'"

lemma masked_refl [simp]: "masked t t"
  by (simp add: masked_def list_all2_same)

lemma masked_trans: "masked a b \<Longrightarrow> masked b c \<Longrightarrow> masked a c"
  unfolding masked_def by (erule (1) list_all2_trans [rotated]) auto

lemma masked_append: "masked a b \<Longrightarrow> masked c d \<Longrightarrow> masked (a @ c) (b @ d)"
  unfolding masked_def by (rule list_all2_appendI)

lemma masked_mask: "5 \<le> length m \<Longrightarrow> masked m (mask_match m)"
proof -
  assume m: "5 \<le> length m"
  have "masked (take 2 m @ take (length m - 4) (drop 2 m) @ drop (length m - 2) m)
      (take 2 m @ replicate (length m - 4) (CHR ''*'') @ drop (length m - 2) m)"
    using m by (intro masked_append masked_refl) (auto simp: masked_def list_all2_conv_all_nth)
  moreover have "take 2 m @ take (length m - 4) (drop 2 m) @ drop (length m - 2) m = m"
  proof -
    have two: "length m - 2 = Suc (Suc (length m - 4))" using m by arith
    have "take (length m - 4) (drop 2 m) @ drop (length m - 2) m = drop 2 m"
      using append_take_drop_id [of "length m - 4" "drop 2 m"] two by simp
    then show ?thesis by simp
  qed
  ultimately show ?thesis using m by (simp add: mask_match_def)
qed

lemma masked_replace_all: "5 \<le> rx_min p \<Longrightarrow> masked t (replace_all p mask_match prev t)"
proof (induction t arbitrary: prev rule: length_induct)
  case (1 t)
  show ?case
  proof (cases t)
    case (Cons c cs)
    have tail: "masked (c # cs) (c # replace_all p mask_match (Some c) cs)"
      using "1.IH" "1.prems" Cons masked_append [of "[c]" "[c]"] by simp
    show ?thesis
    proof (cases "rx_match p (prev, c # cs)")
      case (Cons q qs)
      obtain prev' rest where q: "q = (prev', rest)" by (cases q)
      from rx_match_suffix [of q p "(prev, c # cs)"] Cons q
      have sub: "suffix rest (c # cs)" and len: "rx_min p + length rest \<le> Suc (length cs)" by auto
      let ?m = "take (Suc (length cs) - length rest) (c # cs)"
      obtain zs where zs: "c # cs = zs @ rest" using sub by (auto simp: suffix_def)
      then have "Suc (length cs) = length zs + length rest" by (metis length_Cons length_append)
      with zs have "?m @ rest = c # cs" by simp
      moreover have "masked ?m (mask_match ?m)" using len "1.prems" by (intro masked_mask) auto
      moreover have "masked rest (replace_all p mask_match prev' rest)"
        using "1.IH" "1.prems" len \<open>t = c # cs\<close> by auto
      ultimately have "masked (c # cs) (mask_match ?m @ replace_all p mask_match prev' rest)"
        by (metis masked_append)
      then show ?thesis using \<open>t = c # cs\<close> Cons q tail by auto
    qed (use \<open>t = c # cs\<close> tail in simp)
  qed (simp add: masked_def)
qed

lemma masked_applyMask: "set ps \<subseteq> set piiPatterns \<Longrightarrow> masked t (applyMask ps t)"
proof (induction ps arbitrary: t)
  case (Cons p ps)
  then have "masked t (replace_all p mask_match None t)" "masked (replace_all p mask_match None t) (applyMask ps (replace_all p mask_match None t))"
    by (auto intro: masked_replace_all pii_min)
  then show ?case by (auto simp: applyMask_def intro: masked_trans)
qed (simp add: applyMask_def)

text \<open>The leftmost match of a pattern: nothing starts earlier.\<close>

fun no_match :: "regex \<Rightarrow> char option \<Rightarrow> string \<Rightarrow> string \<Rightarrow> bool" where
  "no_match p prev [] s = True"
| "no_match p prev (c # a) s = (rx_match p (prev, c # a @ s) = [] \<and> no_match p (Some c) a s)"

definition prev_of :: "char option \<Rightarrow> string \<Rightarrow> char option" where
  "prev_of prev a = (if a = [] then prev else Some (last a))"

lemma replace_all_first:
  assumes "no_match p prev a (m @ b)" and "rx_match p (prev_of prev a, m @ b) = (prev', b) # qs" and "m \<noteq> []"
  shows "replace_all p f prev (a @ m @ b) = a @ f m @ replace_all p f prev' b"
  using assms
proof (induction a arbitrary: prev)
  case Nil
  then obtain c m' where m: "m = c # m'" by (cases m) auto
  then have "Suc (length (m' @ b)) - length b = length m" by simp
  moreover have "take (length m) (c # m' @ b) = m" using m by simp
  ultimately show ?case using Nil m by (simp add: prev_of_def)
next
  case (Cons c a)
  then have "rx_match p (prev_of (Some c) a, m @ b) = (prev', b) # qs" by (auto simp: prev_of_def split: if_splits)
  with Cons show ?case by simp
qed

section \<open>Lemmas: the audit log\<close>

datatype audit_event = ALog string | AWrite | AClose

fun audit_run :: "audit_event list \<Rightarrow> SecAuditLog \<Rightarrow> SecAuditLog option" where
  "audit_run [] h = Some h"
| "audit_run (ALog m # es) h = (case audit_log m h of None \<Rightarrow> None | Some h' \<Rightarrow> audit_run es h')"
| "audit_run (AWrite # es) h = audit_run es (audit_write h)"
| "audit_run (AClose # es) h = (case audit_close h of None \<Rightarrow> None | Some h' \<Rightarrow> audit_run es h')"

fun logged :: "audit_event list \<Rightarrow> string list" where
  "logged [] = []"
| "logged (ALog m # es) = m # logged es"
| "logged (_ # es) = logged es"

definition bus_full :: "string \<Rightarrow> string" where
  "bus_full m = ''AUDIT_LOG_BUS_FULL: '' @ m"

lemma audit_run_split:
  assumes "audit_run es h = Some h'" and "length (sal_ch h) \<le> audit_capacity"
  shows "length (sal_ch h') \<le> audit_capacity \<and> (\<exists>kept dropped.
    sal_file h' @ sal_ch h' = sal_file h @ sal_ch h @ kept \<and> sal_stderr h' = sal_stderr h @ map bus_full dropped
    \<and> logged es \<in> shuffles kept dropped)"
  using assms
proof (induction es arbitrary: h)
  case (Cons e es)
  show ?case
  proof (cases e)
    case (ALog m)
    with Cons.prems obtain h1 where h1: "audit_log m h = Some h1" "audit_run es h1 = Some h'"
      by (auto split: option.splits)
    then have "length (sal_ch h1) \<le> audit_capacity"
      using Cons.prems(2) by (auto simp: audit_log_def split: if_splits)
    from Cons.IH [OF h1(2) this] obtain kept dropped where r: "length (sal_ch h') \<le> audit_capacity"
      "sal_file h' @ sal_ch h' = sal_file h1 @ sal_ch h1 @ kept" "sal_stderr h' = sal_stderr h1 @ map bus_full dropped"
      "logged es \<in> shuffles kept dropped" by blast
    show ?thesis
    proof (cases "length (sal_ch h) < audit_capacity")
      case True
      with h1 have "h1 = h\<lparr>sal_ch := sal_ch h @ [m]\<rparr>" by (auto simp: audit_log_def split: if_splits)
      with r ALog show ?thesis
        by (intro conjI exI [of _ "m # kept"] exI [of _ dropped]) (auto intro: Cons_in_shuffles_leftI)
    next
      case False
      with h1 have "h1 = h\<lparr>sal_stderr := sal_stderr h @ [bus_full m]\<rparr>"
        by (auto simp: audit_log_def bus_full_def split: if_splits)
      with r ALog show ?thesis
        by (intro conjI exI [of _ kept] exI [of _ "m # dropped"]) (auto intro: Cons_in_shuffles_rightI)
    qed
  next
    case AWrite
    have "sal_file (audit_write h) @ sal_ch (audit_write h) = sal_file h @ sal_ch h"
      "sal_stderr (audit_write h) = sal_stderr h" "length (sal_ch (audit_write h)) \<le> audit_capacity"
      using Cons.prems(2) by (auto simp: audit_write_def split: list.splits)
    with AWrite Cons.prems Cons.IH [of "audit_write h"] show ?thesis
      by (metis append.assoc audit_run.simps(3) logged.simps(3))
  next
    case AClose
    with Cons.prems obtain h1 where h1: "audit_close h = Some h1" "audit_run es h1 = Some h'"
      by (auto split: option.splits)
    then have "sal_ch h1 = sal_ch h" "sal_file h1 = sal_file h" "sal_stderr h1 = sal_stderr h"
      by (auto simp: audit_close_def split: if_splits)
    with Cons.IH [OF h1(2)] Cons.prems(2) AClose show ?thesis by simp
  qed
qed (auto intro!: exI [of _ "[]"])

section \<open>Properties of the security components\<close>

text \<open>
  C37: what the sanitizer lets through. A message whose text parts are ASCII passes if and only if
  every text part has at most 50000 bytes and contains, in any mix of upper and lower case, none
  of the six phrases; parts of other types are not looked at.
\<close>

theorem sanitizer_exact:
  assumes "\<forall>p \<in> set (m_Parts m). p_Type p = PartTypeText \<longrightarrow> ascii (p_Text p)"
  shows "SanitizeMessage m = None \<longleftrightarrow> (\<forall>p \<in> set (m_Parts m). p_Type p = PartTypeText \<longrightarrow>
    length (p_Text p) \<le> 50000 \<and> (\<forall>l \<in> {''ignore all previous instructions'', ''ignore previous instructions'',
      ''system prompt'', ''instead of what i just said'', ''you are now a'', ''new role''}.
        \<not> Contains (ToLower (p_Text p)) l))"
proof -
  have i: "char_of (105 :: nat) = CHR ''i''" by code_simp
  have lits: "(\<forall>x \<in> set injectionPatterns. \<forall>l \<in> set (snd x). Q (ToLower l)) \<longleftrightarrow>
    (\<forall>l \<in> {''ignore all previous instructions'', ''ignore previous instructions'',
      ''system prompt'', ''instead of what i just said'', ''you are now a'', ''new role''}. Q l)" for Q
    by (simp add: injectionPatterns_def ToLower_def byte_lower_def i)
  have "SanitizeInput t = None \<longleftrightarrow> length t \<le> 50000 \<and> (\<forall>l \<in> {''ignore all previous instructions'',
      ''ignore previous instructions'', ''system prompt'', ''instead of what i just said'', ''you are now a'', ''new role''}.
        \<not> Contains (ToLower t) l)" if "ascii t" for t
    unfolding lits [symmetric] using that check_patterns_None [of injectionPatterns t]
    by (cases "check_patterns injectionPatterns t") (auto simp: SanitizeInput_def fold_contains_ascii)
  with assms show ?thesis by (auto simp: SanitizeMessage_def sanitize_parts_None)
qed

theorem sanitizer_exact_witness:
  "SanitizeMessage (zero_Message\<lparr>m_Parts := [text_part ''You Are Now A pirate'']\<rparr>) \<noteq> None"
proof -
  let ?m = "zero_Message\<lparr>m_Parts := [text_part ''You Are Now A pirate'']\<rparr>"
  have "\<forall>p \<in> set (m_Parts ?m). p_Type p = PartTypeText \<longrightarrow> ascii (p_Text p)"
    by (simp add: text_part_def ascii_def byte_in_def)
  note sanitizer_exact [OF this]
  moreover have "Contains (ToLower ''You Are Now A pirate'') ''you are now a''" by code_simp
  ultimately show ?thesis by (simp add: text_part_def)
qed

text \<open>
  Masking is in place. Whatever order the map of patterns is visited in, the masked text has
  the length of the original and each byte is the original one or a star; and the leftmost match
  of the pattern that is visited first keeps its first and last two bytes at most: everything
  between is stars in the result.
\<close>

theorem masking_in_place:
  assumes "set (p # ps) \<subseteq> set piiPatterns"
    and "t = a @ m @ b" and "no_match p None a (m @ b)" and "rx_match p (prev_of None a, m @ b) = (prev', b) # qs"
  shows "length (applyMask (p # ps) t) = length t
    \<and> (\<forall>i < length t. applyMask (p # ps) t ! i = t ! i \<or> applyMask (p # ps) t ! i = CHR ''*'')
    \<and> (\<forall>i. length a + 2 \<le> i \<and> i < length a + length m - 2 \<longrightarrow> applyMask (p # ps) t ! i = CHR ''*'')"
proof -
  have min: "5 \<le> rx_min p" using assms(1) by (intro pii_min) auto
  have len: "5 \<le> length m" using rx_match_suffix [of "(prev', b)" p "(prev_of None a, m @ b)"] assms(4) min by auto
  have all: "masked t (applyMask (p # ps) t)" using assms(1) by (rule masked_applyMask)
  let ?u = "replace_all p mask_match None t"
  have u: "?u = a @ mask_match m @ replace_all p mask_match prev' b"
    using assms(2-4) len by (subst assms(2), intro replace_all_first) auto
  have star: "?u ! i = CHR ''*''" if "length a + 2 \<le> i" "i < length a + length m - 2" for i
  proof -
    have "?u ! i = mask_match m ! (i - length a)" using that len unfolding u by (simp add: nth_append mask_match_def)
    also have "\<dots> = CHR ''*''"
    proof -
      have "\<not> i - length a < 2" "i - length a - 2 < length m - 4" using that len by arith+
      then show ?thesis using len by (simp add: mask_match_def nth_append)
    qed
    finally show ?thesis .
  qed
  have "masked ?u (applyMask ps ?u)" using assms(1) by (intro masked_applyMask) auto
  have "applyMask (p # ps) t = applyMask ps ?u" by (simp add: applyMask_def)
  have "length ?u = length t" using masked_replace_all [OF min, of t None]
    by (simp add: masked_def list_all2_lengthD)
  have rest: "applyMask (p # ps) t ! i = CHR ''*''" if "length a + 2 \<le> i" "i < length a + length m - 2" for i
  proof -
    have "i < length t" using that assms(2) by simp
    with \<open>masked ?u (applyMask ps ?u)\<close> \<open>length ?u = length t\<close> star [OF that] show ?thesis
      by (auto simp: masked_def list_all2_conv_all_nth \<open>applyMask (p # ps) t = applyMask ps ?u\<close>)
  qed
  from all rest show ?thesis by (simp add: masked_def list_all2_conv_all_nth)
qed

theorem masking_in_place_witness:
  "applyMask [email, ip_address] ''to ab@cd.ef'' ! 7 = CHR ''*'' \<and> length (applyMask [email, ip_address] ''to ab@cd.ef'') = 11"
proof -
  have "set [email, ip_address] \<subseteq> set piiPatterns" by (simp add: piiPatterns_def)
  moreover have "no_match email None ''to '' (''ab@cd.ef'' @ [])" by code_simp
  moreover have "rx_match email (prev_of None ''to '', ''ab@cd.ef'' @ []) = [(Some CHR ''f'', [])]" by code_simp
  ultimately have "length (applyMask [email, ip_address] ''to ab@cd.ef'') = length ''to ab@cd.ef''
    \<and> (\<forall>i < length ''to ab@cd.ef''. applyMask [email, ip_address] ''to ab@cd.ef'' ! i = ''to ab@cd.ef'' ! i
        \<or> applyMask [email, ip_address] ''to ab@cd.ef'' ! i = CHR ''*'')
    \<and> (\<forall>i. length ''to '' + 2 \<le> i \<and> i < length ''to '' + length ''ab@cd.ef'' - 2
        \<longrightarrow> applyMask [email, ip_address] ''to ab@cd.ef'' ! i = CHR ''*'')"
    by (intro masking_in_place [where b = "[]"]) simp_all
  then show ?thesis by (simp del: nth_Cons_numeral)
qed

text \<open>
  The audit log loses nothing. Under every interleaving of log calls, writes of the logging
  goroutine and a close, the channel stays within its capacity, the lines written followed by the
  lines pending are the accepted messages in the order they were logged, and every other message
  went to the standard logger, also in order.
\<close>

theorem audit_log_complete:
  assumes "audit_run es NewSecAuditLog = Some h"
  shows "length (sal_ch h) \<le> 1000 \<and> (\<exists>dropped. sal_stderr h = map (\<lambda>m. ''AUDIT_LOG_BUS_FULL: '' @ m) dropped
    \<and> logged es \<in> shuffles (sal_file h @ sal_ch h) dropped)"
proof -
  from audit_run_split [OF assms] obtain kept dropped where
    "length (sal_ch h) \<le> audit_capacity" "sal_file h @ sal_ch h = kept"
    "sal_stderr h = map bus_full dropped" "logged es \<in> shuffles kept dropped"
    by (auto simp: NewSecAuditLog_def)
  then show ?thesis
    by (intro conjI exI [of _ dropped]) (auto simp: bus_full_def audit_capacity_def)
qed


theorem audit_log_complete_witness:
  "\<exists>h. audit_run [ALog ''a'', AWrite, ALog ''b'', AClose, AWrite] NewSecAuditLog = Some h
    \<and> length (sal_ch h) \<le> 1000 \<and> sal_file h = [''a'', ''b''] \<and> sal_stderr h = []"
proof -
  let ?h = "\<lparr>sal_ch = [], sal_closed = True, sal_file = [''a'', ''b''], sal_stderr = []\<rparr>"
  have "audit_run [ALog ''a'', AWrite, ALog ''b'', AClose, AWrite] NewSecAuditLog = Some ?h"
    by (simp add: NewSecAuditLog_def audit_log_def audit_capacity_def audit_write_def audit_close_def)
  with audit_log_complete [OF this] show ?thesis by auto
qed

end
