(* ===== verification/Redis_Model.thy ===== *)
theory Redis_Model
  imports Interfaces
begin

text \<open>
  The Redis client that package \<open>storage\<close> is written against. Redis itself is not part of the
  sources: the client is a record of operations (the interface \<open>RedisClient\<close> of
  \<open>redis_store.go\<close>), a parameter of the stores, and what the stores rely on is the locale
  \<open>redis_client\<close>, the documented behaviour of the commands on a healthy connection whose keys
  have not expired. The locale is interpreted on a database that implements the commands.

  A stored string is the JSON document it holds, represented by the value it decodes to. A
  transaction is the list of commands its closure queues.
\<close>

section \<open>The client interface (storage/redis\_store.go)\<close>

datatype redis_value =
    DState AgentState | DMeta CheckpointMeta | DMessage Message
  | DTask Task | DArtifact Artifact | DText string

datatype redis_cmd =
    CSet string redis_value duration
  | CRPush string "redis_value list"
  | CZAdd string int redis_value

record 'w RedisClient =
  rc_Get :: "Ctx \<Rightarrow> string \<Rightarrow> 'w \<Rightarrow> (go_error + redis_value) \<times> 'w"
  rc_RPush :: "Ctx \<Rightarrow> string \<Rightarrow> redis_value list \<Rightarrow> 'w \<Rightarrow> go_error option \<times> 'w"
  rc_LRange :: "Ctx \<Rightarrow> string \<Rightarrow> int \<Rightarrow> int \<Rightarrow> 'w \<Rightarrow> (go_error + redis_value list) \<times> 'w"
  rc_LTrim :: "Ctx \<Rightarrow> string \<Rightarrow> int \<Rightarrow> int \<Rightarrow> 'w \<Rightarrow> go_error option \<times> 'w"
  rc_ZRange :: "Ctx \<Rightarrow> string \<Rightarrow> int \<Rightarrow> int \<Rightarrow> 'w \<Rightarrow> (go_error + redis_value list) \<times> 'w"
  rc_ZRemRangeByRank :: "Ctx \<Rightarrow> string \<Rightarrow> int \<Rightarrow> int \<Rightarrow> 'w \<Rightarrow> go_error option \<times> 'w"
  rc_TxExec :: "Ctx \<Rightarrow> redis_cmd list \<Rightarrow> 'w \<Rightarrow> go_error option \<times> 'w"

section \<open>Ranges\<close>

text \<open>
  The documented meaning of a pair of indices: negative ones count from the end, and both are
  clipped to the list.
\<close>

definition range_start :: "int \<Rightarrow> nat \<Rightarrow> nat" where
  "range_start i n = nat (max 0 (if i < 0 then int n + i else i))"

definition range_end :: "int \<Rightarrow> nat \<Rightarrow> nat" where
  "range_end i n = nat (min (int n) ((if i < 0 then int n + i else i) + 1))"

definition redis_range :: "int \<Rightarrow> int \<Rightarrow> 'a list \<Rightarrow> 'a list" where
  "redis_range i j xs = drop (range_start i (length xs)) (take (range_end j (length xs)) xs)"

definition redis_remove_range :: "int \<Rightarrow> int \<Rightarrow> 'a list \<Rightarrow> 'a list" where
  "redis_remove_range i j xs =
     (let a = range_start i (length xs); b = range_end j (length xs) in
      if b \<le> a then xs else take a xs @ drop b xs)"

lemma redis_range_all: "redis_range 0 (- 1) xs = xs"
  by (simp add: redis_range_def range_start_def range_end_def)

lemma redis_range_last: "0 < n \<Longrightarrow> redis_range (- n) (- 1) xs = last_n (nat n) xs"
  by (auto simp: redis_range_def range_start_def range_end_def last_n_def max_def nat_diff_distrib)

lemma redis_range_first: "0 < n \<Longrightarrow> redis_range 0 (n - 1) xs = take (nat n) xs"
  by (auto simp: redis_range_def range_start_def range_end_def min_def)

lemma redis_remove_all_but_last:
  "0 < n \<Longrightarrow> redis_remove_range 0 (- n - 1) xs = last_n (nat n) xs"
  by (auto simp: redis_remove_range_def range_start_def range_end_def last_n_def Let_def min_def
      nat_diff_distrib nat_add_distrib)

section \<open>The contract\<close>

text \<open>The strings a list of commands sets, and the lists it appends to.\<close>

fun cmd_strings :: "redis_cmd \<Rightarrow> (string \<Rightarrow> redis_value option) \<Rightarrow> (string \<Rightarrow> redis_value option)" where
  "cmd_strings (CSet k v ttl) f = f(k \<mapsto> v)"
| "cmd_strings _ f = f"

fun cmd_lists :: "redis_cmd \<Rightarrow> (string \<Rightarrow> redis_value list) \<Rightarrow> (string \<Rightarrow> redis_value list)" where
  "cmd_lists (CRPush k vs) f = f(k := f k @ vs)"
| "cmd_lists _ f = f"

text \<open>A sorted set after \<open>ZADD\<close>: the member has the new score, the set is ordered by score.\<close>

definition zadded :: "int \<Rightarrow> 'm \<Rightarrow> (int \<times> 'm) list \<Rightarrow> (int \<times> 'm) list \<Rightarrow> bool" where
  "zadded score x z z' \<longleftrightarrow> sorted (map fst z') \<and> distinct (map snd z')
     \<and> set z' = insert (score, x) {y \<in> set z. snd y \<noteq> x}"

fun cmd_zsets ::
  "redis_cmd \<Rightarrow> (string \<Rightarrow> (int \<times> redis_value) list) \<Rightarrow> (string \<Rightarrow> (int \<times> redis_value) list) \<Rightarrow> bool" where
  "cmd_zsets (CZAdd k score x) f g \<longleftrightarrow> zadded score x (f k) (g k) \<and> (\<forall>k'. k' \<noteq> k \<longrightarrow> g k' = f k')"
| "cmd_zsets _ f g \<longleftrightarrow> g = f"

fun cmds_zsets ::
  "redis_cmd list \<Rightarrow> (string \<Rightarrow> (int \<times> redis_value) list) \<Rightarrow> (string \<Rightarrow> (int \<times> redis_value) list) \<Rightarrow> bool" where
  "cmds_zsets [] f g \<longleftrightarrow> g = f"
| "cmds_zsets (c # cs) f g \<longleftrightarrow> (\<exists>h. cmd_zsets c f h \<and> cmds_zsets cs h g)"

text \<open>
  \<open>str\<close>, \<open>lst\<close> and \<open>zst\<close> read the strings, lists and sorted sets of a world. \<open>gen\<close> draws a
  UUID and \<open>clock\<close> reads the time; neither touches the database. UUIDs have no colon.
\<close>

locale redis_client =
  fixes R :: "'w RedisClient"
    and gen :: "'w \<Rightarrow> string \<times> 'w"
    and clock :: "'w \<Rightarrow> time \<times> 'w"
    and inv :: "'w \<Rightarrow> bool"
    and str :: "'w \<Rightarrow> string \<Rightarrow> redis_value option"
    and lst :: "'w \<Rightarrow> string \<Rightarrow> redis_value list"
    and zst :: "'w \<Rightarrow> string \<Rightarrow> (int \<times> redis_value) list"
  assumes get: "inv w \<Longrightarrow> rc_Get R ctx k w
      = ((case str w k of None \<Rightarrow> Inl (Sentinel ErrRedisKeyNotFound) | Some v \<Rightarrow> Inr v), w)"
    and lrange: "inv w \<Longrightarrow> rc_LRange R ctx k i j w = (Inr (redis_range i j (lst w k)), w)"
    and zrange: "inv w \<Longrightarrow> rc_ZRange R ctx k i j w = (Inr (map snd (redis_range i j (zst w k))), w)"
    and rpush: "inv w \<Longrightarrow> rc_RPush R ctx k vs w = (None, w') \<Longrightarrow> inv w' \<and> str w' = str w
      \<and> lst w' = (lst w)(k := lst w k @ vs) \<and> zst w' = zst w"
    and rpush_failed: "inv w \<Longrightarrow> rc_RPush R ctx k vs w = (Some e, w') \<Longrightarrow> inv w' \<and> str w' = str w
      \<and> lst w' = lst w \<and> zst w' = zst w"
    and ltrim: "inv w \<Longrightarrow> rc_LTrim R ctx k i j w = (None, w') \<Longrightarrow> inv w' \<and> str w' = str w
      \<and> lst w' = (lst w)(k := redis_range i j (lst w k)) \<and> zst w' = zst w"
    and zrem: "inv w \<Longrightarrow> rc_ZRemRangeByRank R ctx k i j w = (res, w') \<Longrightarrow> inv w' \<and> str w' = str w
      \<and> lst w' = lst w \<and> zst w' = (if res = None then (zst w)(k := redis_remove_range i j (zst w k)) else zst w)"
    and tx: "inv w \<Longrightarrow> rc_TxExec R ctx cmds w = (None, w') \<Longrightarrow> inv w'
      \<and> str w' = fold cmd_strings cmds (str w) \<and> lst w' = fold cmd_lists cmds (lst w)
      \<and> cmds_zsets cmds (zst w) (zst w')"
    and tx_failed: "inv w \<Longrightarrow> rc_TxExec R ctx cmds w = (Some e, w') \<Longrightarrow> inv w' \<and> str w' = str w
      \<and> lst w' = lst w \<and> zst w' = zst w"
    and gen: "inv w \<Longrightarrow> gen w = (u, w') \<Longrightarrow> inv w' \<and> str w' = str w \<and> lst w' = lst w \<and> zst w' = zst w"
    and gen_format: "inv w \<Longrightarrow> gen w = (u, w') \<Longrightarrow> CHR '':'' \<notin> set u"
    and clock: "inv w \<Longrightarrow> clock w = (t, w') \<Longrightarrow> inv w' \<and> str w' = str w \<and> lst w' = lst w \<and> zst w' = zst w"

section \<open>A database\<close>

text \<open>
  An in-process database that implements the commands, in the way of the stub the repository's
  tests use (\<open>storage/redis_store_test.go\<close>), with sorted sets kept in score order as Redis
  does. Its commands do not fail.
\<close>

record redis_world =
  rw_strings :: "(string, redis_value) gomap"
  rw_lists :: "string \<Rightarrow> redis_value list"
  rw_zsets :: "string \<Rightarrow> (int \<times> redis_value) list"
  rw_uuids :: nat
  rw_clock :: time

fun zinsert :: "int \<times> 'm \<Rightarrow> (int \<times> 'm) list \<Rightarrow> (int \<times> 'm) list" where
  "zinsert x [] = [x]"
| "zinsert x (y # ys) = (if fst x < fst y then x # y # ys else y # zinsert x ys)"

definition zadd :: "int \<Rightarrow> 'm \<Rightarrow> (int \<times> 'm) list \<Rightarrow> (int \<times> 'm) list" where
  "zadd score x z = zinsert (score, x) (filter (\<lambda>y. snd y \<noteq> x) z)"

fun run_cmd :: "redis_cmd \<Rightarrow> ('x) redis_world_scheme \<Rightarrow> ('x) redis_world_scheme" where
  "run_cmd (CSet k v ttl) w = w\<lparr>rw_strings := gset k v (rw_strings w)\<rparr>"
| "run_cmd (CRPush k vs) w = w\<lparr>rw_lists := (rw_lists w)(k := rw_lists w k @ vs)\<rparr>"
| "run_cmd (CZAdd k score x) w = w\<lparr>rw_zsets := (rw_zsets w)(k := zadd score x (rw_zsets w k))\<rparr>"

definition redis_db :: "('x) redis_world_scheme RedisClient" where
  "redis_db = \<lparr>
     rc_Get = (\<lambda>ctx k w. ((case glookup (rw_strings w) k of
        None \<Rightarrow> Inl (Sentinel ErrRedisKeyNotFound) | Some v \<Rightarrow> Inr v), w)),
     rc_RPush = (\<lambda>ctx k vs w. (None, run_cmd (CRPush k vs) w)),
     rc_LRange = (\<lambda>ctx k i j w. (Inr (redis_range i j (rw_lists w k)), w)),
     rc_LTrim = (\<lambda>ctx k i j w. (None, w\<lparr>rw_lists := (rw_lists w)(k := redis_range i j (rw_lists w k))\<rparr>)),
     rc_ZRange = (\<lambda>ctx k i j w. (Inr (map snd (redis_range i j (rw_zsets w k))), w)),
     rc_ZRemRangeByRank = (\<lambda>ctx k i j w.
        (None, w\<lparr>rw_zsets := (rw_zsets w)(k := redis_remove_range i j (rw_zsets w k))\<rparr>)),
     rc_TxExec = (\<lambda>ctx cmds w. (None, fold run_cmd cmds w))\<rparr>"

definition redis_gen :: "('x) redis_world_scheme \<Rightarrow> string \<times> ('x) redis_world_scheme" where
  "redis_gen w = (replicate (rw_uuids w) (CHR ''x''), w\<lparr>rw_uuids := Suc (rw_uuids w)\<rparr>)"

definition redis_clock :: "('x) redis_world_scheme \<Rightarrow> time \<times> ('x) redis_world_scheme" where
  "redis_clock w = (rw_clock w, w)"

definition new_redis :: redis_world where
  "new_redis = \<lparr>rw_strings = [], rw_lists = (\<lambda>k. []), rw_zsets = (\<lambda>k. []), rw_uuids = 0, rw_clock = 0\<rparr>"

text \<open>Sorted sets are sorted and have distinct members.\<close>

definition zset_ok :: "(int \<times> 'm) list \<Rightarrow> bool" where
  "zset_ok z \<longleftrightarrow> sorted (map fst z) \<and> distinct (map snd z)"

definition redis_ok :: "('x) redis_world_scheme \<Rightarrow> bool" where
  "redis_ok w \<longleftrightarrow> (\<forall>k. zset_ok (rw_zsets w k))"

lemma set_zinsert [simp]: "set (zinsert x z) = insert x (set z)"
  by (induction z) auto

lemma sorted_zinsert: "sorted (map fst z) \<Longrightarrow> sorted (map fst (zinsert x z))"
  by (induction z) auto

lemma distinct_zinsert: "distinct (map snd z) \<Longrightarrow> snd x \<notin> set (map snd z) \<Longrightarrow> distinct (map snd (zinsert x z))"
  by (induction z) auto

lemma sorted_filter_fst: "sorted (map fst z) \<Longrightarrow> sorted (map fst (filter P z))"
  by (induction z) auto

lemma distinct_filter_snd: "distinct (map snd z) \<Longrightarrow> distinct (map snd (filter P z))"
  by (induction z) auto

lemma zadd_zadded: "zset_ok z \<Longrightarrow> zadded score x z (zadd score x z)"
  unfolding zset_ok_def zadded_def zadd_def
  by (auto intro!: sorted_zinsert distinct_zinsert sorted_filter_fst distinct_filter_snd)

lemma zadded_ok: "zadded score x z z' \<Longrightarrow> zset_ok z'"
  by (simp add: zadded_def zset_ok_def)

lemma zset_ok_sub: "zset_ok (xs @ ys @ zs) \<Longrightarrow> zset_ok (xs @ zs)"
  by (auto simp: zset_ok_def sorted_append)

lemma zset_ok_remove_range: "zset_ok z \<Longrightarrow> zset_ok (redis_remove_range i j z)"
proof -
  assume ok: "zset_ok z"
  let ?a = "range_start i (length z)" and ?b = "range_end j (length z)"
  have "zset_ok (take ?a z @ drop ?b z)" if "?a < ?b"
  proof (rule zset_ok_sub)
    have "z = take ?a z @ drop ?a (take ?b z) @ drop ?b z"
      using that by (metis append_take_drop_id append.assoc less_imp_le min.absorb1 take_take)
    with ok show "zset_ok (take ?a z @ drop ?a (take ?b z) @ drop ?b z)" by simp
  qed
  with ok show ?thesis by (auto simp: redis_remove_range_def Let_def)
qed

lemma run_cmd_views:
  assumes "redis_ok w"
  shows "redis_ok (run_cmd c w) \<and> glookup (rw_strings (run_cmd c w)) = cmd_strings c (glookup (rw_strings w))
    \<and> rw_lists (run_cmd c w) = cmd_lists c (rw_lists w) \<and> cmd_zsets c (rw_zsets w) (rw_zsets (run_cmd c w))"
proof (cases c)
  case (CZAdd k score x)
  have "zadded score x (rw_zsets w k) (zadd score x (rw_zsets w k))"
    using assms by (intro zadd_zadded) (simp add: redis_ok_def)
  with assms CZAdd show ?thesis by (auto simp: redis_ok_def zadded_ok)
qed (use assms in \<open>auto simp: redis_ok_def\<close>)

lemma run_cmds_views:
  assumes "redis_ok w"
  shows "redis_ok (fold run_cmd cs w) \<and> glookup (rw_strings (fold run_cmd cs w)) = fold cmd_strings cs (glookup (rw_strings w))
    \<and> rw_lists (fold run_cmd cs w) = fold cmd_lists cs (rw_lists w)
    \<and> cmds_zsets cs (rw_zsets w) (rw_zsets (fold run_cmd cs w))"
  using assms
proof (induction cs arbitrary: w)
  case (Cons c cs)
  note v = run_cmd_views [OF Cons.prems, of c]
  with Cons.IH [of "run_cmd c w"] show ?case by auto
qed simp

interpretation rdb: redis_client redis_db redis_gen redis_clock redis_ok
  "\<lambda>w. glookup (rw_strings w)" rw_lists rw_zsets
proof unfold_locales
  fix w :: "'x redis_world_scheme" and ctx cmds w'
  assume "redis_ok w" "rc_TxExec redis_db ctx cmds w = (None, w')"
  then show "redis_ok w' \<and> glookup (rw_strings w') = fold cmd_strings cmds (glookup (rw_strings w))
      \<and> rw_lists w' = fold cmd_lists cmds (rw_lists w) \<and> cmds_zsets cmds (rw_zsets w) (rw_zsets w')"
    using run_cmds_views [of w cmds] by (auto simp: redis_db_def)
qed (auto simp: redis_db_def redis_gen_def redis_clock_def redis_ok_def zset_ok_remove_range)

end
