(* ===== verification/Redis_Store.thy ===== *)
theory Redis_Store
  imports Redis_Model
begin

text \<open>
  Package \<open>storage\<close>, file \<open>redis_store.go\<close>: the Redis-backed memory store. The goroutine that
  \<open>Save\<close> starts to prune old checkpoints is the separate operation \<open>pruneCheckpoints\<close>, which
  may run at any later time.
\<close>

section \<open>The store\<close>

record RedisMemoryStore =
  rs_keyPrefix :: string
  rs_stateTTL :: duration
  rs_maxCheckpoints :: int
  rs_maxMessages :: int

text \<open>Options with the zero value get the defaults.\<close>

definition NewRedisMemoryStore :: "RedisMemoryStore \<Rightarrow> RedisMemoryStore" where
  "NewRedisMemoryStore opts = \<lparr>
     rs_keyPrefix = (if rs_keyPrefix opts = [] then ''fluxgraph'' else rs_keyPrefix opts),
     rs_stateTTL = (if rs_stateTTL opts = 0 then 24 * 3600 * 1000000000 else rs_stateTTL opts),
     rs_maxCheckpoints = (if rs_maxCheckpoints opts = 0 then 50 else rs_maxCheckpoints opts),
     rs_maxMessages = (if rs_maxMessages opts = 0 then 200 else rs_maxMessages opts)\<rparr>"

definition stateKey :: "RedisMemoryStore \<Rightarrow> string \<Rightarrow> string \<Rightarrow> string" where
  "stateKey s tenantID sessionID = rs_keyPrefix s @ '':'' @ tenantID @ '':'' @ sessionID @ '':state''"

definition ckptIndexKey :: "RedisMemoryStore \<Rightarrow> string \<Rightarrow> string \<Rightarrow> string" where
  "ckptIndexKey s tenantID sessionID = rs_keyPrefix s @ '':'' @ tenantID @ '':'' @ sessionID @ '':ckpts''"

definition ckptDataKey :: "RedisMemoryStore \<Rightarrow> string \<Rightarrow> string" where
  "ckptDataKey s checkpointID = rs_keyPrefix s @ '':ckpt:'' @ checkpointID"

definition messagesKey :: "RedisMemoryStore \<Rightarrow> string \<Rightarrow> string \<Rightarrow> string" where
  "messagesKey s tenantID sessionID = rs_keyPrefix s @ '':'' @ tenantID @ '':'' @ sessionID @ '':msgs''"

definition tenantFromCtx :: "Ctx \<Rightarrow> string" where
  "tenantFromCtx ctx = (case ctx_tenantID ctx of Some v \<Rightarrow> v | None \<Rightarrow> ''default'')"

text \<open>\<open>UnixMilli\<close> of a time.\<close>

definition UnixMilli :: "time \<Rightarrow> int" where
  "UnixMilli t = t div 1000000"

definition Redis_Save ::
  "'w RedisClient \<Rightarrow> ('w \<Rightarrow> string \<times> 'w) \<Rightarrow> ('w \<Rightarrow> time \<times> 'w) \<Rightarrow> RedisMemoryStore \<Rightarrow> Ctx \<Rightarrow> string
    \<Rightarrow> AgentState \<Rightarrow> 'w \<Rightarrow> (go_error + string) \<times> 'w" where
  "Redis_Save R gen clock s ctx sessionID state w =
     (let tenantID = tenantFromCtx ctx in
      case gen w of (ckptID, w1) \<Rightarrow>
      case clock w1 of (now, w2) \<Rightarrow>
      case marshal_state state of
        Inl err \<Rightarrow> (Inl err, w2)
      | Inr data \<Rightarrow>
          (case rc_TxExec R ctx
             [CSet (stateKey s tenantID sessionID) (DState data) (rs_stateTTL s),
              CSet (ckptDataKey s ckptID) (DState data) (rs_stateTTL s * 2),
              CZAdd (ckptIndexKey s tenantID sessionID) (UnixMilli now)
                (DMeta \<lparr>ck_CheckpointID = ckptID, ck_SessionID = sessionID, ck_CreatedAt = now\<rparr>)] w2 of
             (Some err, w3) \<Rightarrow> (Inl err, w3)
           | (None, w3) \<Rightarrow> (Inr ckptID, w3)))"

definition pruneCheckpoints ::
  "'w RedisClient \<Rightarrow> RedisMemoryStore \<Rightarrow> string \<Rightarrow> string \<Rightarrow> 'w \<Rightarrow> 'w" where
  "pruneCheckpoints R s tenantID sessionID w =
     snd (rc_ZRemRangeByRank R Background (ckptIndexKey s tenantID sessionID) 0 (- rs_maxCheckpoints s - 1) w)"

definition Redis_Load ::
  "'w RedisClient \<Rightarrow> RedisMemoryStore \<Rightarrow> Ctx \<Rightarrow> string \<Rightarrow> 'w \<Rightarrow> (go_error + AgentState) \<times> 'w" where
  "Redis_Load R s ctx sessionID w =
     (case rc_Get R ctx (stateKey s (tenantFromCtx ctx) sessionID) w of
        (Inl err, w1) \<Rightarrow> (if errors_Is err ErrRedisKeyNotFound
           then (Inl (ErrorText (''session '' @ sessionID @ '' not found'')), w1) else (Inl err, w1))
      | (Inr (DState st), w1) \<Rightarrow> (Inr st, w1)
      | (Inr _, w1) \<Rightarrow> (Inl (ErrorText ''json: cannot unmarshal''), w1))"

definition Redis_LoadCheckpoint ::
  "'w RedisClient \<Rightarrow> RedisMemoryStore \<Rightarrow> Ctx \<Rightarrow> string \<Rightarrow> 'w \<Rightarrow> (go_error + AgentState) \<times> 'w" where
  "Redis_LoadCheckpoint R s ctx checkpointID w =
     (case rc_Get R ctx (ckptDataKey s checkpointID) w of
        (Inl err, w1) \<Rightarrow> (if errors_Is err ErrRedisKeyNotFound
           then (Inl (ErrorText (''checkpoint '' @ checkpointID @ '' not found'')), w1) else (Inl err, w1))
      | (Inr (DState st), w1) \<Rightarrow> (Inr st, w1)
      | (Inr _, w1) \<Rightarrow> (Inl (ErrorText ''json: cannot unmarshal''), w1))"

fun decode_metas :: "redis_value list \<Rightarrow> CheckpointMeta list" where
  "decode_metas [] = []"
| "decode_metas (DMeta m # vs) = m # decode_metas vs"
| "decode_metas (_ # vs) = decode_metas vs"

definition Redis_ListCheckpoints ::
  "'w RedisClient \<Rightarrow> RedisMemoryStore \<Rightarrow> Ctx \<Rightarrow> string \<Rightarrow> 'w \<Rightarrow> (go_error + CheckpointMeta list) \<times> 'w" where
  "Redis_ListCheckpoints R s ctx sessionID w =
     (case rc_ZRange R ctx (ckptIndexKey s (tenantFromCtx ctx) sessionID) 0 (- 1) w of
        (Inl err, w1) \<Rightarrow> (Inl err, w1)
      | (Inr members, w1) \<Rightarrow> (Inr (rev (decode_metas members)), w1))"

fun push_messages ::
  "'w RedisClient \<Rightarrow> Ctx \<Rightarrow> string \<Rightarrow> Message list \<Rightarrow> 'w \<Rightarrow> go_error option \<times> 'w" where
  "push_messages R ctx key [] w = (None, w)"
| "push_messages R ctx key (msg # msgs) w = (case marshal_message msg of
     Inl err \<Rightarrow> (Some err, w)
   | Inr b \<Rightarrow> (case rc_RPush R ctx key [DMessage b] w of
       (Some err, w1) \<Rightarrow> (Some err, w1)
     | (None, w1) \<Rightarrow> push_messages R ctx key msgs w1))"

definition Redis_AppendMessages ::
  "'w RedisClient \<Rightarrow> RedisMemoryStore \<Rightarrow> Ctx \<Rightarrow> string \<Rightarrow> Message list \<Rightarrow> 'w \<Rightarrow> go_error option \<times> 'w" where
  "Redis_AppendMessages R s ctx sessionID messages w =
     (let key = messagesKey s (tenantFromCtx ctx) sessionID in
      case push_messages R ctx key messages w of
        (Some err, w1) \<Rightarrow> (Some err, w1)
      | (None, w1) \<Rightarrow> rc_LTrim R ctx key (- rs_maxMessages s) (- 1) w1)"

definition Redis_Search :: "Ctx \<Rightarrow> string \<Rightarrow> string \<Rightarrow> int \<Rightarrow> 'w \<Rightarrow> (go_error + Message list) \<times> 'w" where
  "Redis_Search ctx sessionID query topK w = (Inr [], w)"

definition RedisMemoryStore_ops ::
  "'w RedisClient \<Rightarrow> ('w \<Rightarrow> string \<times> 'w) \<Rightarrow> ('w \<Rightarrow> time \<times> 'w) \<Rightarrow> RedisMemoryStore \<Rightarrow> 'w MemoryStore" where
  "RedisMemoryStore_ops R gen clock s = \<lparr>ms_Save = Redis_Save R gen clock s, ms_Load = Redis_Load R s,
     ms_LoadCheckpoint = Redis_LoadCheckpoint R s, ms_ListCheckpoints = Redis_ListCheckpoints R s,
     ms_AppendMessages = Redis_AppendMessages R s, ms_Search = Redis_Search\<rparr>"

lemma RedisMemoryStore_ops_simps [simp]:
  "ms_Save (RedisMemoryStore_ops R gen clock s) = Redis_Save R gen clock s"
  "ms_Load (RedisMemoryStore_ops R gen clock s) = Redis_Load R s"
  "ms_LoadCheckpoint (RedisMemoryStore_ops R gen clock s) = Redis_LoadCheckpoint R s"
  by (simp_all add: RedisMemoryStore_ops_def)

section \<open>Keys\<close>

definition no_colon :: "string \<Rightarrow> bool" where
  "no_colon s \<longleftrightarrow> CHR '':'' \<notin> set s"

lemma colon_split:
  "no_colon a \<Longrightarrow> no_colon b \<Longrightarrow> a @ '':'' @ x = b @ '':'' @ y \<longleftrightarrow> a = b \<and> x = y"
proof (induction a arbitrary: b)
  case Nil
  then show ?case by (cases b) (auto simp: no_colon_def)
next
  case (Cons c a)
  then show ?case by (cases b) (auto simp: no_colon_def)
qed

lemma colon_count: "no_colon u \<Longrightarrow> a @ '':'' @ u = t @ '':'' @ s @ '':'' @ r \<Longrightarrow> no_colon a \<Longrightarrow> False"
proof -
  assume u: "no_colon u" and a: "no_colon a" and e: "a @ '':'' @ u = t @ '':'' @ s @ '':'' @ r"
  from arg_cong [OF e, of "\<lambda>x. count_list x (CHR '':'')"]
  have "count_list a (CHR '':'') + count_list u (CHR '':'') + 1
      = count_list t (CHR '':'') + count_list s (CHR '':'') + count_list r (CHR '':'') + 2" by simp
  moreover have "count_list a (CHR '':'') = 0" "count_list u (CHR '':'') = 0"
    using u a by (simp_all add: no_colon_def count_list_0_iff)
  ultimately show False by simp
qed

lemma ckptDataKey_stateKey: "no_colon u \<Longrightarrow> ckptDataKey s u \<noteq> stateKey s t sid"
  using colon_count [of u "''ckpt''" t sid "''state''"]
  by (auto simp: ckptDataKey_def stateKey_def no_colon_def)

lemma stateKey_session: "stateKey s t sid = stateKey s t sid' \<longleftrightarrow> sid = sid'"
  by (simp add: stateKey_def)

section \<open>The store keeps its contract\<close>

text \<open>What each operation does to the strings of the database.\<close>

context redis_client
begin

lemma save_views:
  assumes "inv w" and "Redis_Save R gen clock s ctx sid st w = (res, w')"
  shows "inv w' \<and> (case res of
      Inl e \<Rightarrow> str w' = str w
    | Inr ck \<Rightarrow> no_colon ck \<and> state_json_ok st
        \<and> str w' = (str w)(stateKey s (tenantFromCtx ctx) sid \<mapsto> DState (json_state st),
            ckptDataKey s ck \<mapsto> DState (json_state st)))"
proof -
  obtain u w1 where g: "gen w = (u, w1)" by fastforce
  obtain t w2 where c: "clock w1 = (t, w2)" by fastforce
  from gen [OF assms(1) g] gen_format [OF assms(1) g] clock [of w1 t w2] c
  have i: "inv w2" "str w2 = str w" "no_colon u" by (auto simp: no_colon_def)
  let ?cmds = "[CSet (stateKey s (tenantFromCtx ctx) sid) (DState (json_state st)) (rs_stateTTL s),
            CSet (ckptDataKey s u) (DState (json_state st)) (rs_stateTTL s * 2),
            CZAdd (ckptIndexKey s (tenantFromCtx ctx) sid) (UnixMilli t)
              (DMeta \<lparr>ck_CheckpointID = u, ck_SessionID = sid, ck_CreatedAt = t\<rparr>)]"
  obtain e w3 where x: "rc_TxExec R ctx ?cmds w2 = (e, w3)" by fastforce
  show ?thesis
  proof (cases "state_json_ok st")
    case False
    with assms(2) g c i show ?thesis by (auto simp: Redis_Save_def marshal_state_def)
  next
    case True
    with assms(2) g c x have r: "(res, w') = (case e of None \<Rightarrow> (Inr u, w3) | Some er \<Rightarrow> (Inl er, w3))"
      by (auto simp: Redis_Save_def marshal_state_def split: option.splits)
    show ?thesis
    proof (cases e)
      case None
      with tx [OF i(1), of ctx ?cmds w3] x r i True show ?thesis by simp
    next
      case (Some er)
      with tx_failed [OF i(1), of ctx ?cmds er w3] x r i show ?thesis by simp
    qed
  qed
qed

lemma load_view:
  "inv w \<Longrightarrow> Redis_Load R s ctx sid w = (case str w (stateKey s (tenantFromCtx ctx) sid) of
      None \<Rightarrow> (Inl (ErrorText (''session '' @ sid @ '' not found'')), w)
    | Some (DState st) \<Rightarrow> (Inr st, w) | Some _ \<Rightarrow> (Inl (ErrorText ''json: cannot unmarshal''), w))"
  by (auto simp: get Redis_Load_def split: option.split redis_value.split)

lemma checkpoint_view:
  "inv w \<Longrightarrow> Redis_LoadCheckpoint R s ctx ck w = (case str w (ckptDataKey s ck) of
      None \<Rightarrow> (Inl (ErrorText (''checkpoint '' @ ck @ '' not found'')), w)
    | Some (DState st) \<Rightarrow> (Inr st, w) | Some _ \<Rightarrow> (Inl (ErrorText ''json: cannot unmarshal''), w))"
  by (auto simp: get Redis_LoadCheckpoint_def split: option.split redis_value.split)

lemma load_after_save_view:
  assumes "inv w" and "Redis_Save R gen clock s ctx sid st w = (Inr ck, w')"
  shows "fst (Redis_Load R s ctx sid w') = Inr (json_state st)"
    and "fst (Redis_LoadCheckpoint R s ctx ck w') = Inr (json_state st)"
proof -
  from save_views [OF assms] have v: "inv w'" "no_colon ck"
    "str w' = (str w)(stateKey s (tenantFromCtx ctx) sid \<mapsto> DState (json_state st), ckptDataKey s ck \<mapsto> DState (json_state st))"
    by auto
  show "fst (Redis_Load R s ctx sid w') = Inr (json_state st)"
    using v ckptDataKey_stateKey [OF v(2), of s "tenantFromCtx ctx" sid] by (simp add: load_view)
  show "fst (Redis_LoadCheckpoint R s ctx ck w') = Inr (json_state st)"
    using v by (simp add: checkpoint_view)
qed

lemma save_other_view:
  assumes "inv w" and "Redis_Save R gen clock s ctx sid st w = (res, w')"
    and "sid \<noteq> sid' \<or> (\<exists>e. res = Inl e)"
  shows "fst (Redis_Load R s ctx sid' w') = fst (Redis_Load R s ctx sid' w)"
proof (cases res)
  case (Inl e)
  with save_views [OF assms(1,2)] assms(1) show ?thesis
    by (simp add: load_view split: option.split redis_value.split)
next
  case (Inr ck)
  with save_views [OF assms(1,2)] assms(1,3) ckptDataKey_stateKey [of ck s "tenantFromCtx ctx" sid']
  show ?thesis by (auto simp: load_view stateKey_session split: option.split redis_value.split)
qed

end

sublocale redis_client \<subseteq> redis_memory: memory_store
  "RedisMemoryStore_ops R gen clock s" inv "\<lambda>ctx sid sid'. sid \<noteq> sid'"
  for s
proof (unfold_locales, unfold RedisMemoryStore_ops_simps)
  fix w ctx sid st
  assume "inv w"
  then show "inv (snd (Redis_Save R gen clock s ctx sid st w))"
    using save_views [of w s ctx sid st] by (cases "Redis_Save R gen clock s ctx sid st w") auto
next
  fix w ctx sid
  assume "inv w"
  then show "snd (Redis_Load R s ctx sid w) = w" "snd (Redis_LoadCheckpoint R s ctx sid w) = w"
    by (auto simp: load_view checkpoint_view split: option.split redis_value.split)
next
  fix w ctx sid st ck w'
  assume "inv w" "Redis_Save R gen clock s ctx sid st w = (Inr ck, w')"
  then show "fst (Redis_Load R s ctx sid w') = Inr (json_state st)"
    "fst (Redis_LoadCheckpoint R s ctx ck w') = Inr (json_state st)"
    by (rule load_after_save_view)+
next
  fix w ctx and sid sid' :: string and st
  assume "inv w" "sid \<noteq> sid'"
  then show "fst (Redis_Load R s ctx sid' (snd (Redis_Save R gen clock s ctx sid st w))) = fst (Redis_Load R s ctx sid' w)"
    using save_other_view [of w s ctx sid st _ _ sid'] by (cases "Redis_Save R gen clock s ctx sid st w") auto
next
  fix w ctx sid sid' st e w'
  assume "inv w" "Redis_Save R gen clock s ctx sid st w = (Inl e, w')"
  then show "fst (Redis_Load R s ctx sid' w') = fst (Redis_Load R s ctx sid' w)"
    by (rule save_other_view) simp
qed

section \<open>Tenants, windows and checkpoint lists\<close>

lemma stateKey_inj:
  assumes "no_colon t" and "no_colon t'"
  shows "stateKey s t sid = stateKey s t' sid' \<longleftrightarrow> t = t' \<and> sid = sid'"
  using colon_split [OF assms, of "sid @ '':state''" "sid' @ '':state''"] by (simp add: stateKey_def)

text \<open>The index of checkpoints: documents of checkpoints, scored by their time in milliseconds.\<close>

definition index_ok :: "(int \<times> redis_value) list \<Rightarrow> bool" where
  "index_ok z \<longleftrightarrow> zset_ok z \<and> (\<forall>x \<in> set z. \<exists>m. x = (UnixMilli (ck_CreatedAt m), DMeta m))"

lemma decode_index:
  assumes "\<forall>x \<in> set z. \<exists>m. x = (UnixMilli (ck_CreatedAt m), DMeta m)"
  shows "map (\<lambda>m. UnixMilli (ck_CreatedAt m)) (decode_metas (map snd z)) = map fst z
    \<and> set (decode_metas (map snd z)) = {m. DMeta m \<in> snd ` set z} \<and> length (decode_metas (map snd z)) = length z"
  using assms
proof (induction z)
  case (Cons x z)
  then obtain m where "x = (UnixMilli (ck_CreatedAt m), DMeta m)" by auto
  with Cons show ?case by auto
qed simp

lemma decode_metas_append: "decode_metas (xs @ ys) = decode_metas xs @ decode_metas ys"
  by (induction xs rule: decode_metas.induct) auto

lemma decode_last_n:
  assumes "\<forall>x \<in> set z. \<exists>m. x = (UnixMilli (ck_CreatedAt m), DMeta m)"
  shows "decode_metas (map snd (last_n n z)) = last_n n (decode_metas (map snd z))"
proof -
  let ?a = "take (length z - n) z" and ?b = "drop (length z - n) z"
  have "decode_metas (map snd z) = decode_metas (map snd ?a) @ decode_metas (map snd ?b)"
    by (metis append_take_drop_id decode_metas_append map_append)
  moreover have "length (decode_metas (map snd ?b)) = length ?b" "length (decode_metas (map snd ?a)) = length ?a"
    using assms decode_index [of ?b] decode_index [of ?a] by (meson in_set_takeD in_set_dropD)+
  ultimately show ?thesis by (simp add: last_n_def)
qed

context redis_client
begin

lemma push_messages_view:
  assumes "inv w" and "\<forall>m \<in> set msgs. message_json_ok m" and "push_messages R ctx k msgs w = (None, w')"
  shows "inv w' \<and> str w' = str w \<and> lst w' = (lst w)(k := lst w k @ map (\<lambda>m. DMessage (json_message m)) msgs) \<and> zst w' = zst w"
  using assms
proof (induction msgs arbitrary: w)
  case (Cons m msgs)
  obtain e w1 where p: "rc_RPush R ctx k [DMessage (json_message m)] w = (e, w1)" by fastforce
  with Cons.prems have e: "e = None" "push_messages R ctx k msgs w1 = (None, w')"
    by (auto simp: marshal_message_def split: option.splits)
  with rpush [OF Cons.prems(1)] p have v: "inv w1" "str w1 = str w" "zst w1 = zst w"
    "lst w1 = (lst w)(k := lst w k @ [DMessage (json_message m)])" by auto
  from Cons.IH [OF v(1) _ e(2)] Cons.prems(2) v show ?case by (auto simp: fun_eq_iff)
qed simp

lemma append_messages_view:
  assumes "inv w" and "\<forall>m \<in> set msgs. message_json_ok m" and "0 < rs_maxMessages s"
    and "Redis_AppendMessages R s ctx sid msgs w = (None, w')"
  shows "str w' = str w \<and> lst w' (messagesKey s (tenantFromCtx ctx) sid)
    = last_n (nat (rs_maxMessages s)) (lst w (messagesKey s (tenantFromCtx ctx) sid)
        @ map (\<lambda>m. DMessage (json_message m)) msgs)"
proof -
  let ?k = "messagesKey s (tenantFromCtx ctx) sid"
  obtain e w1 where p: "push_messages R ctx ?k msgs w = (e, w1)" by fastforce
  with assms(4) have "e = None" "rc_LTrim R ctx ?k (- rs_maxMessages s) (- 1) w1 = (None, w')"
    by (auto simp: Redis_AppendMessages_def Let_def split: option.splits)
  with p push_messages_view [OF assms(1,2), of ctx ?k w1] ltrim [of w1 ctx ?k "- rs_maxMessages s" "- 1" w'] assms(3)
  show ?thesis by (simp add: redis_range_last)
qed

lemma list_view:
  "inv w \<Longrightarrow> Redis_ListCheckpoints R s ctx sid w
    = (Inr (rev (decode_metas (map snd (zst w (ckptIndexKey s (tenantFromCtx ctx) sid))))), w)"
  by (simp add: Redis_ListCheckpoints_def zrange redis_range_all)

lemma prune_view:
  assumes "inv w" and "0 < rs_maxCheckpoints s"
  shows "inv (pruneCheckpoints R s t sid w) \<and> str (pruneCheckpoints R s t sid w) = str w
    \<and> (zst (pruneCheckpoints R s t sid w) = zst w
       \<or> zst (pruneCheckpoints R s t sid w) = (zst w)(ckptIndexKey s t sid
            := last_n (nat (rs_maxCheckpoints s)) (zst w (ckptIndexKey s t sid))))"
proof -
  obtain e w' where p: "rc_ZRemRangeByRank R Background (ckptIndexKey s t sid) 0 (- rs_maxCheckpoints s - 1) w = (e, w')"
    by fastforce
  from zrem [OF assms(1) p] p assms(2) show ?thesis
    by (auto simp: pruneCheckpoints_def redis_remove_all_but_last)
qed

end

section \<open>Properties of redis\_store.go\<close>


text \<open>A store with the default options.\<close>

definition default_redis_store :: RedisMemoryStore where
  "default_redis_store = NewRedisMemoryStore \<lparr>rs_keyPrefix = [], rs_stateTTL = 0,
     rs_maxCheckpoints = 0, rs_maxMessages = 0\<rparr>"

lemma new_redis_ok [simp]: "redis_ok new_redis"
  by (simp add: redis_ok_def new_redis_def zset_ok_def)

lemma redis_db_saves:
  "state_json_ok st \<Longrightarrow> \<exists>ck w'. Redis_Save redis_db redis_gen redis_clock s ctx sid st w = (Inr ck, w')"
  by (simp add: Redis_Save_def redis_gen_def redis_clock_def redis_db_def marshal_state_def Let_def)

lemma NewState_json_ok [simp]: "state_json_ok NewState"
  by (simp add: state_json_ok_def vars_json_ok_def NewState_def)


text \<open>
  Tenant ids with a colon are not kept apart. The keys join tenant and session with colons,
  so a state saved by tenant \<open>"a:b"\<close> as session \<open>"c"\<close> is what tenant \<open>"a"\<close> loads as
  session \<open>"b:c"\<close>, for every client that keeps the Redis contract.
\<close>

theorem redis_tenant_collision:
  assumes "redis_client R gen clock ok str lst zst" and "ok w"
    and "Redis_Save R gen clock s (ctx\<lparr>ctx_tenantID := Some ''a:b''\<rparr>) ''c'' st w = (Inr ck, w')"
  shows "fst (Redis_Load R s (ctx'\<lparr>ctx_tenantID := Some ''a''\<rparr>) ''b:c'' w') = Inr (json_state st)"
proof -
  let ?k = "stateKey s ''a:b'' ''c''"
  have k: "stateKey s ''a'' ''b:c'' = ?k" by (simp add: stateKey_def)
  from redis_client.save_views [OF assms] have v: "ok w'" "no_colon ck"
    "str w' = (str w)(?k \<mapsto> DState (json_state st), ckptDataKey s ck \<mapsto> DState (json_state st))"
    by (auto simp: tenantFromCtx_def)
  with ckptDataKey_stateKey [OF v(2), of s "''a:b''" "''c''"] show ?thesis
    by (simp add: redis_client.load_view [OF assms(1)] tenantFromCtx_def k)
qed

theorem redis_tenant_collision_witness:
  "\<exists>ck w'. Redis_Save redis_db redis_gen redis_clock default_redis_store (Background\<lparr>ctx_tenantID := Some ''a:b''\<rparr>) ''c''
        NewState new_redis = (Inr ck, w')
    \<and> fst (Redis_Load redis_db default_redis_store (Background\<lparr>ctx_tenantID := Some ''a''\<rparr>) ''b:c'' w') = Inr (json_state NewState)"
proof -
  obtain ck w' where sv: "Redis_Save redis_db redis_gen redis_clock default_redis_store
      (Background\<lparr>ctx_tenantID := Some ''a:b''\<rparr>) ''c'' NewState new_redis = (Inr ck, w')"
    using redis_db_saves [OF NewState_json_ok] by blast
  from redis_tenant_collision [OF rdb.redis_client_axioms new_redis_ok sv] sv show ?thesis by blast
qed

text \<open>
  The message window and the checkpoint list are bounded and ordered. For every client that
  keeps the Redis contract, a successful \<open>AppendMessages\<close> leaves the last \<open>maxMessages\<close>
  messages of the list, and does not touch the stored session; the checkpoint list is in
  descending order of its time stamps (in milliseconds), and pruning leaves exactly its first
  \<open>maxCheckpoints\<close> entries, or, if the command failed, all of them.
\<close>

theorem redis_windows_bounded:
  assumes "redis_client R gen clock ok str lst zst" and "ok w"
    and "index_ok (zst w (ckptIndexKey s (tenantFromCtx ctx) sid))"
    and "0 < rs_maxCheckpoints s" and "0 < rs_maxMessages s"
  shows "\<exists>l. fst (Redis_ListCheckpoints R s ctx sid w) = Inr l
    \<and> sorted (rev (map (\<lambda>m. UnixMilli (ck_CreatedAt m)) l))
    \<and> (fst (Redis_ListCheckpoints R s ctx sid (pruneCheckpoints R s (tenantFromCtx ctx) sid w)) = Inr l
       \<or> fst (Redis_ListCheckpoints R s ctx sid (pruneCheckpoints R s (tenantFromCtx ctx) sid w))
           = Inr (take (nat (rs_maxCheckpoints s)) l))
    \<and> (\<forall>msgs w'. (\<forall>m \<in> set msgs. message_json_ok m) \<and> Redis_AppendMessages R s ctx sid msgs w = (None, w')
        \<longrightarrow> str w' = str w \<and> length (lst w' (messagesKey s (tenantFromCtx ctx) sid)) \<le> nat (rs_maxMessages s)
          \<and> lst w' (messagesKey s (tenantFromCtx ctx) sid) = last_n (nat (rs_maxMessages s))
              (lst w (messagesKey s (tenantFromCtx ctx) sid) @ map (\<lambda>m. DMessage (json_message m)) msgs))"
proof -
  let ?t = "tenantFromCtx ctx" and ?k = "ckptIndexKey s (tenantFromCtx ctx) sid"
  note list = redis_client.list_view [OF assms(1)]
    and prune = redis_client.prune_view [OF assms(1,2,4), of ?t sid]
  let ?l = "rev (decode_metas (map snd (zst w ?k)))"
  from assms(3) have idx: "\<forall>x \<in> set (zst w ?k). \<exists>m. x = (UnixMilli (ck_CreatedAt m), DMeta m)"
    and "sorted (map fst (zst w ?k))" by (simp_all add: index_ok_def zset_ok_def)
  with decode_index [OF idx] have srt: "sorted (rev (map (\<lambda>m. UnixMilli (ck_CreatedAt m)) ?l))"
    by (simp add: rev_map [symmetric])
  have "rev (last_n n xs) = take n (rev xs)" for n and xs :: "CheckpointMeta list"
    by (cases "n \<le> length xs") (simp_all add: last_n_def rev_drop)
  with prune decode_last_n [OF idx] have
    "fst (Redis_ListCheckpoints R s ctx sid (pruneCheckpoints R s ?t sid w)) \<in> {Inr ?l, Inr (take (nat (rs_maxCheckpoints s)) ?l)}"
    by (auto simp: list)
  with srt list [OF assms(2), of s ctx sid]
    redis_client.append_messages_view [OF assms(1,2) _ assms(5), of _ ctx sid]
  show ?thesis by (intro exI [of _ ?l]) (auto simp: length_last_n)
qed

theorem redis_windows_bounded_witness:
  "\<exists>l. fst (Redis_ListCheckpoints redis_db default_redis_store Background ''s'' new_redis) = Inr l
    \<and> sorted (rev (map (\<lambda>m. UnixMilli (ck_CreatedAt m)) l))"
proof -
  have i: "index_ok (rw_zsets new_redis (ckptIndexKey default_redis_store (tenantFromCtx Background) ''s''))"
    by (simp add: index_ok_def new_redis_def zset_ok_def)
  have "0 < rs_maxCheckpoints default_redis_store" "0 < rs_maxMessages default_redis_store"
    by (simp_all add: default_redis_store_def NewRedisMemoryStore_def)
  from redis_windows_bounded [OF rdb.redis_client_axioms new_redis_ok i this] show ?thesis by blast
qed

end
