(* ===== verification/Observability_Model.thy ===== *)
theory Observability_Model
  imports Hooks_Model Redis_Store
begin

text \<open>
  Package \<open>observability\<close>: the state inspector over a memory store, and the two hooks that
  report to external collectors. What the Prometheus hook tells the collector is the list of its
  calls; a tracing span is a number, and the hook's calls on spans are recorded in order.
\<close>

section \<open>The inspector (observability/inspector.go)\<close>

record StateSnapshot =
  sn_CheckpointID :: string
  sn_Timestamp :: int
  sn_NodeID :: string
  sn_Status :: AgentStatus
  sn_StepCount :: int

text \<open>The loop of \<open>GetTimeline\<close>: a checkpoint that cannot be loaded is left out.\<close>

fun load_snapshots ::
  "'w MemoryStore \<Rightarrow> Ctx \<Rightarrow> CheckpointMeta list \<Rightarrow> 'w \<Rightarrow> StateSnapshot list \<times> 'w" where
  "load_snapshots M ctx [] w = ([], w)"
| "load_snapshots M ctx (m # ms) w = (case ms_LoadCheckpoint M ctx (ck_CheckpointID m) w of
     (Inl err, w1) \<Rightarrow> load_snapshots M ctx ms w1
   | (Inr s, w1) \<Rightarrow> (case load_snapshots M ctx ms w1 of (out, w2) \<Rightarrow>
       (\<lparr>sn_CheckpointID = ck_CheckpointID m, sn_Timestamp = UnixMilli (ck_CreatedAt m), sn_NodeID = LastNodeID s,
         sn_Status = Status s, sn_StepCount = StepCount s\<rparr> # out, w2)))"

text \<open>
  \<open>sort.Slice\<close> is not stable: \<open>sorter\<close> is the order it leaves, and \<open>slice_sorter\<close> what it
  promises.
\<close>

definition slice_sorter :: "(StateSnapshot list \<Rightarrow> StateSnapshot list) \<Rightarrow> bool" where
  "slice_sorter sorter \<longleftrightarrow> (\<forall>xs. mset (sorter xs) = mset xs \<and> sorted (map sn_Timestamp (sorter xs)))"

definition GetTimeline ::
  "(StateSnapshot list \<Rightarrow> StateSnapshot list) \<Rightarrow> 'w MemoryStore \<Rightarrow> Ctx \<Rightarrow> string \<Rightarrow> 'w
    \<Rightarrow> (go_error + StateSnapshot list) \<times> 'w" where
  "GetTimeline sorter M ctx sessionID w = (case ms_ListCheckpoints M ctx sessionID w of
     (Inl err, w1) \<Rightarrow> (Inl err, w1)
   | (Inr metas, w1) \<Rightarrow> (case load_snapshots M ctx metas w1 of (snaps, w2) \<Rightarrow> (Inr (sorter snaps), w2)))"

record StateDiff =
  df_NewMessages :: "Message list"
  df_ChangedVars :: gvars
  df_NewArtifacts :: "Artifact list"

text \<open>\<open>render\<close> is the rendering \<open>fmt.Sprintf("%v", v)\<close> of a value.\<close>

definition changed_vars :: "(gany \<Rightarrow> string) \<Rightarrow> gvars \<Rightarrow> gvars \<Rightarrow> gvars" where
  "changed_vars render va vb = fold (\<lambda>(k, vB) acc. (case glookup va k of
     Some vA \<Rightarrow> if render vA \<noteq> render vB then gset k vB acc else acc
   | None \<Rightarrow> gset k vB acc)) vb []"

definition diff_states :: "(gany \<Rightarrow> string) \<Rightarrow> AgentState \<Rightarrow> AgentState \<Rightarrow> StateDiff" where
  "diff_states render a b = \<lparr>
     df_NewMessages = (if length (Messages a) < length (Messages b) then drop (length (Messages a)) (Messages b) else []),
     df_ChangedVars = changed_vars render (vars a) (vars b),
     df_NewArtifacts = (if length (Artifacts a) < length (Artifacts b) then drop (length (Artifacts a)) (Artifacts b) else [])\<rparr>"

definition DiffCheckpoints ::
  "(gany \<Rightarrow> string) \<Rightarrow> 'w MemoryStore \<Rightarrow> Ctx \<Rightarrow> string \<Rightarrow> string \<Rightarrow> 'w \<Rightarrow> (go_error + StateDiff) \<times> 'w" where
  "DiffCheckpoints render M ctx cpA cpB w = (case ms_LoadCheckpoint M ctx cpA w of
     (Inl err, w1) \<Rightarrow> (Inl err, w1)
   | (Inr a, w1) \<Rightarrow> (case ms_LoadCheckpoint M ctx cpB w1 of
       (Inl err, w2) \<Rightarrow> (Inl err, w2)
     | (Inr b, w2) \<Rightarrow> (Inr (diff_states render a b), w2)))"

text \<open>\<open>MermaidGantt\<close>: a section per snapshot; the last one lasts a second.\<close>

fun gantt_sections :: "StateSnapshot list \<Rightarrow> string" where
  "gantt_sections [] = []"
| "gantt_sections (s # ss) =
     (let fin = (case ss of [] \<Rightarrow> wrap64 (sn_Timestamp s + 1000) | n # _ \<Rightarrow> sn_Timestamp n) in
      ''    section Node '' @ sn_NodeID s @ [CHR 0x0A]
      @ ''    Step '' @ itoa (sn_StepCount s) @ '' : '' @ itoa (go_div (sn_Timestamp s) 1000) @ '', ''
      @ itoa (go_div fin 1000) @ [CHR 0x0A]
      @ gantt_sections ss)"

definition MermaidGantt :: "StateSnapshot list \<Rightarrow> string" where
  "MermaidGantt snapshots = ''gantt'' @ [CHR 0x0A] @ ''    title Agent Session Timeline'' @ [CHR 0x0A]
     @ ''    dateFormat X'' @ [CHR 0x0A] @ ''    axisFormat %H:%M:%S'' @ [CHR 0x0A] @ gantt_sections snapshots"

definition ReplayFrom :: "'w MemoryStore \<Rightarrow> Ctx \<Rightarrow> string \<Rightarrow> 'w \<Rightarrow> (go_error + AgentState) \<times> 'w" where
  "ReplayFrom M ctx checkpointID w = (case ms_LoadCheckpoint M ctx checkpointID w of
     (Inl err, w1) \<Rightarrow> (Inl err, w1)
   | (Inr s, w1) \<Rightarrow> (Inr (WithStatus s StatusRunning), w1))"

section \<open>Metrics (observability/metrics.go)\<close>

datatype metric_kind = CounterVec | GaugeVec | HistogramVec "rat list"

record Collector =
  co_Kind :: metric_kind
  co_Name :: string
  co_Help :: string
  co_Labels :: "string list"

definition llmInputTokens :: Collector where
  "llmInputTokens = \<lparr>co_Kind = CounterVec, co_Name = ''fluxgraph_llm_input_tokens_total'',
     co_Help = ''Total number of input tokens consumed by LLM nodes.'', co_Labels = [''tenant_id'', ''model'']\<rparr>"

definition llmOutputTokens :: Collector where
  "llmOutputTokens = \<lparr>co_Kind = CounterVec, co_Name = ''fluxgraph_llm_output_tokens_total'',
     co_Help = ''Total number of output tokens consumed by LLM nodes.'', co_Labels = [''tenant_id'', ''model'']\<rparr>"

definition nodeDuration :: Collector where
  "nodeDuration = \<lparr>co_Kind = HistogramVec [1/100, 1/20, 1/10, 1/2, 1, 2, 5, 10, 30], co_Name = ''fluxgraph_node_duration_seconds'',
     co_Help = ''Histogram of node execution duration in seconds.'', co_Labels = [''tenant_id'', ''node_id'']\<rparr>"

definition toolCallsTotal :: Collector where
  "toolCallsTotal = \<lparr>co_Kind = CounterVec, co_Name = ''fluxgraph_tool_calls_total'',
     co_Help = ''Total number of tool calls processed.'', co_Labels = [''tool_name'', ''status'']\<rparr>"

definition activeSessions :: Collector where
  "activeSessions = \<lparr>co_Kind = GaugeVec, co_Name = ''fluxgraph_active_sessions'',
     co_Help = ''Number of currently active agent sessions.'', co_Labels = [''tenant_id'']\<rparr>"

text \<open>
  \<open>MustRegister\<close> panics with the error of \<open>Register\<close>, the parameter; \<open>metrics_init\<close> is the
  package's \<open>init\<close>, in its order.
\<close>

fun must_register :: "(Collector \<Rightarrow> 'r \<Rightarrow> go_error option \<times> 'r) \<Rightarrow> Collector list \<Rightarrow> 'r \<Rightarrow> gopanic option \<times> 'r" where
  "must_register reg [] r = (None, r)"
| "must_register reg (c # cs) r = (case reg c r of (Some err, r1) \<Rightarrow> (Some (PanicError err), r1) | (None, r1) \<Rightarrow> must_register reg cs r1)"

definition metrics_init :: "(Collector \<Rightarrow> 'r \<Rightarrow> go_error option \<times> 'r) \<Rightarrow> 'r \<Rightarrow> gopanic option \<times> 'r" where
  "metrics_init reg = must_register reg [llmInputTokens, llmOutputTokens, nodeDuration, toolCallsTotal, activeSessions]"

datatype metric_call =
    NodeDuration string string duration
  | InputTokensAdd string string int
  | OutputTokensAdd string string int

text \<open>The collector of a call, its label values and the number it adds or observes (seconds for a duration).\<close>

fun metric_target :: "metric_call \<Rightarrow> Collector \<times> string list \<times> rat" where
  "metric_target (NodeDuration tenantID nodeID d) = (nodeDuration, [tenantID, nodeID], of_int d / 1000000000)"
| "metric_target (InputTokensAdd tenantID model n) = (llmInputTokens, [tenantID, model], of_int n)"
| "metric_target (OutputTokensAdd tenantID model n) = (llmOutputTokens, [tenantID, model], of_int n)"

definition metric_tenant :: "AgentState option \<Rightarrow> string" where
  "metric_tenant st = (let tid = string_or_empty (case st of None \<Rightarrow> [] | Some s \<Rightarrow> vars s) ''tenant_id''
     in if tid = [] then ''default'' else tid)"

definition usage_calls :: "string \<Rightarrow> AgentState \<Rightarrow> metric_call list" where
  "usage_calls tenantID s = (case glookup (vars s) ''__token_usage__'' of
     Some (GMap usage) \<Rightarrow>
       (let name = string_or_empty (vars s) ''model_name''; model = (if name = [] then ''unknown'' else name) in
        (case glookup usage ''in'' of Some (GInt n) \<Rightarrow> [InputTokensAdd tenantID model n] | _ \<Rightarrow> [])
        @ (case glookup usage ''out'' of Some (GInt n) \<Rightarrow> [OutputTokensAdd tenantID model n] | _ \<Rightarrow> []))
   | _ \<Rightarrow> [])"

definition Prometheus_OnHook :: "AgentState option \<Rightarrow> HookMeta \<Rightarrow> metric_call list" where
  "Prometheus_OnHook st meta = (case hm_Point meta of
     HookAfterNode \<Rightarrow> NodeDuration (metric_tenant st) (hm_NodeID meta) (hm_Elapsed meta)
       # (case st of None \<Rightarrow> [] | Some s \<Rightarrow> usage_calls (metric_tenant st) s)
   | _ \<Rightarrow> [])"

text \<open>
  The calls in order; a collector may panic (a counter does when a number below zero is added), and
  then the rest is left out.
\<close>

fun metric_calls :: "(metric_call \<Rightarrow> 'w \<Rightarrow> gopanic option \<times> 'w) \<Rightarrow> metric_call list \<Rightarrow> 'w \<Rightarrow> gopanic option \<times> 'w" where
  "metric_calls call [] w = (None, w)"
| "metric_calls call (c # cs) w = (case call c w of (Some p, w1) \<Rightarrow> (Some p, w1) | (None, w1) \<Rightarrow> metric_calls call cs w1)"

section \<open>Tracing (observability/otel.go)\<close>

datatype span_call = SpanStart nat string "(string, string) gomap" | SpanError nat "go_error option" | SpanEnd nat

record OtelTracingHook =
  oth_spans :: "(string, nat) gomap"
  oth_calls :: "span_call list"
  oth_next :: nat

definition NewOtelTracingHook :: OtelTracingHook where
  "NewOtelTracingHook = \<lparr>oth_spans = [], oth_calls = [], oth_next = 0\<rparr>"

definition span_attributes :: "AgentState \<Rightarrow> HookMeta \<Rightarrow> (string, string) gomap" where
  "span_attributes s meta =
     (let tid = string_or_empty (vars s) ''tenant_id'' in
      [(''fluxgraph.node_id'', hm_NodeID meta), (''fluxgraph.step_count'', itoa (hm_StepCount meta)),
       (''fluxgraph.tenant_id'', if tid = [] then ''default'' else tid),
       (''fluxgraph.task_id'', TaskID s), (''fluxgraph.context_id'', ContextID s)])"

text \<open>\<open>OnHook\<close>; a nil state before a node is dereferenced (\<open>None\<close>).\<close>

definition Otel_OnHook :: "AgentState option \<Rightarrow> HookMeta \<Rightarrow> OtelTracingHook \<Rightarrow> OtelTracingHook option" where
  "Otel_OnHook st meta h = (case hm_Point meta of
     HookBeforeNode \<Rightarrow> (case st of
       None \<Rightarrow> None
     | Some s \<Rightarrow> Some \<lparr>oth_spans = gset (hm_NodeID meta) (oth_next h) (oth_spans h),
         oth_calls = oth_calls h @ [SpanStart (oth_next h) (''node.'' @ hm_NodeID meta) (span_attributes s meta)],
         oth_next = Suc (oth_next h)\<rparr>)
   | HookAfterNode \<Rightarrow> (case glookup (oth_spans h) (hm_NodeID meta) of
       None \<Rightarrow> Some h
     | Some sp \<Rightarrow> Some (h\<lparr>oth_spans := gdelete (hm_NodeID meta) (oth_spans h), oth_calls := oth_calls h @ [SpanEnd sp]\<rparr>))
   | HookOnError \<Rightarrow> (case glookup (oth_spans h) (hm_NodeID meta) of
       None \<Rightarrow> Some h
     | Some sp \<Rightarrow> Some (h\<lparr>oth_spans := gdelete (hm_NodeID meta) (oth_spans h),
         oth_calls := oth_calls h @ [SpanError sp (hm_Err meta), SpanEnd sp]\<rparr>))
   | HookPointOther _ \<Rightarrow> Some h)"

section \<open>Lemmas\<close>

text \<open>
  The collectors have different names, so that a registry which refuses a name only when it is
  taken lets \<open>init\<close> through; and each call of the hook fits the labels of a registered collector.
  The last two collectors are registered and never used.
\<close>

lemma metrics_init_ok:
  assumes "\<And>c r. co_Name c \<notin> taken r \<Longrightarrow> \<exists>r'. reg c r = (None, r') \<and> taken r' = insert (co_Name c) (taken r)" and "taken r = {}"
  shows "\<exists>r'. metrics_init reg r = (None, r')"
proof -
  have ok: "\<exists>r'. must_register reg cs r = (None, r')" if "distinct (map co_Name cs)" "taken r \<inter> set (map co_Name cs) = {}" for cs r
    using that
  proof (induction cs arbitrary: r)
    case (Cons c cs)
    then obtain r' where "reg c r = (None, r')" "taken r' = insert (co_Name c) (taken r)" using assms(1) [of c r] by auto
    with Cons.prems Cons.IH [of r'] show ?case by auto
  qed simp
  show ?thesis unfolding metrics_init_def
    by (rule ok) (simp_all add: llmInputTokens_def llmOutputTokens_def nodeDuration_def toolCallsTotal_def activeSessions_def assms(2))
qed

lemma metric_target_fits:
  "fst (metric_target c) \<in> {llmInputTokens, llmOutputTokens, nodeDuration} \<and> length (fst (snd (metric_target c))) = length (co_Labels (fst (metric_target c)))"
  by (cases c) (simp_all add: llmInputTokens_def llmOutputTokens_def nodeDuration_def)

text \<open>What the inspector relies on: reading checkpoints does not change the store.\<close>

context memory_store
begin

lemma load_snapshots_pure: "inv w \<Longrightarrow> snd (load_snapshots M ctx ms w) = w"
proof (induction ms)
  case (Cons m ms)
  have "ms_LoadCheckpoint M ctx (ck_CheckpointID m) w = (fst (ms_LoadCheckpoint M ctx (ck_CheckpointID m) w), w)"
    using load_checkpoint_pure [OF Cons.prems] by (metis prod.collapse)
  with Cons show ?case
    by (cases "fst (ms_LoadCheckpoint M ctx (ck_CheckpointID m) w)") (simp_all add: case_prod_beta)
qed simp

text \<open>A replay starts at what was saved, with status running.\<close>

lemma replay_of_saved:
  assumes "inv w" and "ms_Save M ctx sid s w = (Inr ck, w')"
  shows "fst (ReplayFrom M ctx ck w') = Inr (WithStatus (json_state s) StatusRunning)"
  using checkpoint_after_save [OF assms] by (auto simp: ReplayFrom_def split: prod.split)

end

lemma changed_vars_lookup:
  assumes "gomap_ok vb"
  shows "glookup (changed_vars render va vb) k = (case glookup vb k of
     None \<Rightarrow> None
   | Some v \<Rightarrow> if (case glookup va k of None \<Rightarrow> True | Some u \<Rightarrow> render u \<noteq> render v) then Some v else None)"
proof -
  let ?step = "\<lambda>(k, vB) acc. (case glookup va k of
     Some vA \<Rightarrow> if render vA \<noteq> render vB then gset k vB acc else acc | None \<Rightarrow> gset k vB acc)"
  have "glookup (fold ?step vb acc) k = (case glookup vb k of
      None \<Rightarrow> glookup acc k
    | Some v \<Rightarrow> if (case glookup va k of None \<Rightarrow> True | Some u \<Rightarrow> render u \<noteq> render v) then Some v else glookup acc k)"
    if "gomap_ok vb" for acc using that
  proof (induction vb arbitrary: acc)
    case (Cons x vb)
    obtain k' v where x: "x = (k', v)" by (cases x)
    with Cons.prems have "glookup vb k' = None" by (simp add: map_of_eq_None_iff)
    with Cons x show ?case by (auto split: option.splits)
  qed simp
  from this [OF assms, of "[]"] show ?thesis by (simp add: changed_vars_def split: option.splits)
qed

text \<open>The spans that were started, ended, and are open in the hook's map.\<close>

definition started :: "span_call list \<Rightarrow> nat list" where
  "started cs = concat (map (\<lambda>c. case c of SpanStart n _ _ \<Rightarrow> [n] | _ \<Rightarrow> []) cs)"

definition ended :: "span_call list \<Rightarrow> nat list" where
  "ended cs = concat (map (\<lambda>c. case c of SpanEnd n \<Rightarrow> [n] | _ \<Rightarrow> []) cs)"

lemma started_simps [simp]:
  "started [] = []" "started (a @ b) = started a @ started b"
  "started [SpanStart n s ats] = [n]" "started [SpanEnd n] = []" "started [SpanError n e, SpanEnd m] = []"
  by (simp_all add: started_def)

lemma ended_simps [simp]:
  "ended [] = []" "ended (a @ b) = ended a @ ended b"
  "ended [SpanStart n s ats] = []" "ended [SpanEnd n] = [n]" "ended [SpanError n e, SpanEnd m] = [m]"
  by (simp_all add: ended_def)

fun otel_run :: "(AgentState option \<times> HookMeta) list \<Rightarrow> OtelTracingHook \<Rightarrow> OtelTracingHook option" where
  "otel_run [] h = Some h"
| "otel_run ((st, meta) # cs) h = (case Otel_OnHook st meta h of None \<Rightarrow> None | Some h' \<Rightarrow> otel_run cs h')"

definition otel_inv :: "OtelTracingHook \<Rightarrow> bool" where
  "otel_inv h \<longleftrightarrow> started (oth_calls h) = [0..<oth_next h] \<and> distinct (ended (oth_calls h))
     \<and> set (ended (oth_calls h)) \<subseteq> {..<oth_next h}
     \<and> (\<forall>n i. glookup (oth_spans h) n = Some i \<longrightarrow> i < oth_next h \<and> i \<notin> set (ended (oth_calls h)))
     \<and> (\<forall>n n' i. glookup (oth_spans h) n = Some i \<longrightarrow> glookup (oth_spans h) n' = Some i \<longrightarrow> n' = n)"

lemma otel_inv_new [simp]: "otel_inv NewOtelTracingHook"
  by (simp add: otel_inv_def NewOtelTracingHook_def)

lemma otel_inv_step:
  assumes "otel_inv h" and "Otel_OnHook st meta h = Some h'"
  shows "otel_inv h'"
proof (cases "hm_Point meta")
  case HookBeforeNode
  have "glookup (oth_spans h) n \<noteq> Some (oth_next h)" for n using assms(1) by (auto simp: otel_inv_def)
  with HookBeforeNode assms show ?thesis
    by (auto simp: otel_inv_def Otel_OnHook_def subset_iff less_Suc_eq split: option.splits if_splits)
next
  case HookAfterNode
  with assms show ?thesis
    by (cases "glookup (oth_spans h) (hm_NodeID meta)")
      (auto simp: otel_inv_def Otel_OnHook_def subset_iff split: if_splits)
next
  case HookOnError
  with assms show ?thesis
    by (cases "glookup (oth_spans h) (hm_NodeID meta)")
      (auto simp: otel_inv_def Otel_OnHook_def subset_iff split: if_splits)
qed (use assms in \<open>auto simp: Otel_OnHook_def\<close>)

lemma otel_inv_run: "otel_run cs h = Some h' \<Longrightarrow> otel_inv h \<Longrightarrow> otel_inv h'"
  by (induction cs h rule: otel_run.induct) (auto split: option.splits dest: otel_inv_step)

text \<open>The calls the engine makes for a run of nodes: before a node, then after it or on its error.\<close>

fun engine_calls :: "(string \<times> AgentState \<times> go_error option) list \<Rightarrow> int \<Rightarrow> (AgentState option \<times> HookMeta) list" where
  "engine_calls [] n = []"
| "engine_calls ((node, s, err) # rest) n =
     (Some s, \<lparr>hm_Point = HookBeforeNode, hm_NodeID = node, hm_StepCount = n, hm_Elapsed = 0, hm_Err = None\<rparr>)
     # (Some s, \<lparr>hm_Point = (if err = None then HookAfterNode else HookOnError), hm_NodeID = node, hm_StepCount = n + 1,
          hm_Elapsed = 0, hm_Err = err\<rparr>)
     # engine_calls rest (n + 1)"

lemma engine_calls_run:
  assumes "oth_spans h = []"
  shows "\<exists>h'. otel_run (engine_calls ns n) h = Some h' \<and> oth_spans h' = []
    \<and> oth_next h' = oth_next h + length ns
    \<and> ended (oth_calls h') = ended (oth_calls h) @ [oth_next h..<oth_next h + length ns]"
  using assms
proof (induction ns arbitrary: n h)
  case (Cons x ns)
  obtain node s err where x: "x = (node, s, err)" by (cases x) auto
  let ?m1 = "\<lparr>hm_Point = HookBeforeNode, hm_NodeID = node, hm_StepCount = n, hm_Elapsed = 0, hm_Err = None\<rparr>"
  let ?m2 = "\<lparr>hm_Point = (if err = None then HookAfterNode else HookOnError), hm_NodeID = node, hm_StepCount = n + 1,
          hm_Elapsed = 0, hm_Err = err\<rparr>"
  obtain h1 where h1: "Otel_OnHook (Some s) ?m1 h = Some h1" "oth_spans h1 = [(node, oth_next h)]"
    "oth_next h1 = Suc (oth_next h)" "ended (oth_calls h1) = ended (oth_calls h)"
    using Cons.prems by (simp add: Otel_OnHook_def)
  obtain h2 where h2: "Otel_OnHook (Some s) ?m2 h1 = Some h2" "oth_spans h2 = []"
    "oth_next h2 = Suc (oth_next h)" "ended (oth_calls h2) = ended (oth_calls h) @ [oth_next h]"
    using h1 by (cases err) (auto simp: Otel_OnHook_def)
  obtain h' where h': "otel_run (engine_calls ns (n + 1)) h2 = Some h'" "oth_spans h' = []"
    "oth_next h' = oth_next h + length (x # ns)"
    "ended (oth_calls h') = ended (oth_calls h) @ oth_next h # [Suc (oth_next h)..<Suc (oth_next h) + length ns]"
    using Cons.IH [OF h2(2), of "n + 1"] h2 by auto
  moreover have "oth_next h # [Suc (oth_next h)..<Suc (oth_next h) + length ns] = [oth_next h..<oth_next h + length (x # ns)]"
    by (simp add: upt_conv_Cons del: upt_Suc)
  ultimately show ?case using h1(1) h2(1) x by (intro exI [of _ h']) simp
qed simp

section \<open>Properties\<close>

text \<open>
  The inspector is a faithful view of the checkpoints. On the in-memory store, every
  checkpoint written by a \<open>Save\<close> is replayed with status running and otherwise as it was saved,
  the timeline is in chronological order, and the difference between two checkpoints lists the
  messages appended in between and exactly the variables that are new or print differently.
\<close>

theorem inspector_views:
  assumes "slice_sorter sorter" and "InMemory_Save uuid ctx sid s w = (Inr ck, w1)"
    and "fst (GetTimeline sorter (InMemoryStore_ops uuid) ctx sid w2) = Inr snaps"
    and "Messages b = Messages a @ new" and "gomap_ok (vars b)"
  shows "fst (ReplayFrom (InMemoryStore_ops uuid) ctx ck w1) = Inr (WithStatus (json_state s) StatusRunning)
    \<and> sorted (map sn_Timestamp snaps)
    \<and> df_NewMessages (diff_states render a b) = new
    \<and> (\<forall>k. k \<in> dom (glookup (df_ChangedVars (diff_states render a b))) \<longleftrightarrow>
        (\<exists>v. glookup (vars b) k = Some v \<and> (\<forall>u. glookup (vars a) k = Some u \<longrightarrow> render u \<noteq> render v)))"
proof -
  have "fst (ReplayFrom (InMemoryStore_ops uuid) ctx ck w1) = Inr (WithStatus (json_state s) StatusRunning)"
    using assms(2) by (auto simp: ReplayFrom_def InMemory_LoadCheckpoint_def InMemory_Save_def marshal_state_def
        Let_def split: if_splits)
  moreover have "sorted (map sn_Timestamp snaps)"
    using assms(1,3) by (auto simp: GetTimeline_def slice_sorter_def split: prod.splits sum.splits)
  moreover have "df_NewMessages (diff_states render a b) = new"
    using assms(4) by (simp add: diff_states_def)
  moreover have "k \<in> dom (glookup (df_ChangedVars (diff_states render a b))) \<longleftrightarrow>
      (\<exists>v. glookup (vars b) k = Some v \<and> (\<forall>u. glookup (vars a) k = Some u \<longrightarrow> render u \<noteq> render v))" for k
    using changed_vars_lookup [OF assms(5), of render "vars a" k]
    by (auto simp: diff_states_def dom_def split: option.splits)
  ultimately show ?thesis by blast
qed

theorem inspector_views_witness:
  "\<exists>ck w1. InMemory_Save uuid_x Background ''s'' NewState (new_mem_world :: unit mem_world) = (Inr ck, w1)
    \<and> fst (ReplayFrom (InMemoryStore_ops uuid_x) Background ck w1) = Inr (WithStatus (json_state NewState) StatusRunning)
    \<and> df_NewMessages (diff_states (\<lambda>_. []) NewState (NewState\<lparr>Messages := [zero_Message]\<rparr>)) = [zero_Message]"
proof -
  let ?sorter = "sort_key sn_Timestamp"
  have "slice_sorter ?sorter" by (simp add: slice_sorter_def)
  moreover obtain ck w1 where sv: "InMemory_Save uuid_x Background ''s'' NewState (new_mem_world :: unit mem_world) = (Inr ck, w1)"
    by (simp add: InMemory_Save_def marshal_state_def state_json_ok_def NewState_def vars_json_ok_def Let_def)
  moreover obtain snaps where "fst (GetTimeline ?sorter (InMemoryStore_ops uuid_x) Background ''s'' w1) = Inr snaps"
  proof -
    obtain metas where "InMemory_ListCheckpoints Background ''s'' w1 = (Inr metas, w1)"
      using sv by (auto simp: InMemory_ListCheckpoints_def InMemory_Save_def Let_def split: sum.splits)
    with that show ?thesis by (simp add: GetTimeline_def case_prod_beta)
  qed
  moreover have n: "Messages (NewState\<lparr>Messages := [zero_Message]\<rparr>) = Messages NewState @ [zero_Message]"
    "gomap_ok (vars (NewState\<lparr>Messages := [zero_Message]\<rparr>))" by (simp_all add: NewState_def vars_def)
  ultimately show ?thesis
    using inspector_views [of ?sorter uuid_x Background "''s''" NewState new_mem_world ck w1 w1 snaps
        "NewState\<lparr>Messages := [zero_Message]\<rparr>" NewState "[zero_Message]" "\<lambda>_. []"]
      n by auto
qed



end
