(* ===== verification/Task_Store.thy ===== *)
theory Task_Store
  imports Redis_Store
begin

text \<open>
  Package \<open>storage\<close>, file \<open>task_store.go\<close>: tasks in Redis. The store shares the client and
  the key prefix with the memory store.
\<close>

section \<open>The store\<close>

record RedisTaskStore =
  rt_keyPrefix :: string
  rt_ttl :: duration

definition NewRedisTaskStore :: "string \<Rightarrow> duration \<Rightarrow> RedisTaskStore" where
  "NewRedisTaskStore keyPrefix ttl = \<lparr>
     rt_keyPrefix = (if keyPrefix = [] then ''fluxgraph'' else keyPrefix),
     rt_ttl = (if ttl = 0 then 7 * 24 * 3600 * 1000000000 else ttl)\<rparr>"

definition taskKey :: "RedisTaskStore \<Rightarrow> string \<Rightarrow> string \<Rightarrow> string" where
  "taskKey s tenantID taskID = rt_keyPrefix s @ '':'' @ tenantID @ '':task:'' @ taskID"

definition historyKey :: "RedisTaskStore \<Rightarrow> string \<Rightarrow> string \<Rightarrow> string" where
  "historyKey s tenantID taskID = rt_keyPrefix s @ '':'' @ tenantID @ '':task:'' @ taskID @ '':history''"

definition artifactsKey :: "RedisTaskStore \<Rightarrow> string \<Rightarrow> string \<Rightarrow> string" where
  "artifactsKey s tenantID taskID = rt_keyPrefix s @ '':'' @ tenantID @ '':task:'' @ taskID @ '':artifacts''"

definition contextKey :: "RedisTaskStore \<Rightarrow> string \<Rightarrow> string \<Rightarrow> string" where
  "contextKey s tenantID contextID = rt_keyPrefix s @ '':'' @ tenantID @ '':context:'' @ contextID @ '':tasks''"

definition tenantIndexKey :: "RedisTaskStore \<Rightarrow> string \<Rightarrow> string" where
  "tenantIndexKey s tenantID = rt_keyPrefix s @ '':'' @ tenantID @ '':tasks''"

definition task_tenant :: "Task \<Rightarrow> string" where
  "task_tenant t = (if t_TenantID t = [] then ''default'' else t_TenantID t)"

definition Task_Create :: "'w RedisClient \<Rightarrow> RedisTaskStore \<Rightarrow> Ctx \<Rightarrow> Task \<Rightarrow> 'w \<Rightarrow> go_error option \<times> 'w" where
  "Task_Create R s ctx task w =
     (let tenantID = task_tenant task in
      case marshal_task task of
        Inl err \<Rightarrow> (Some err, w)
      | Inr data \<Rightarrow> rc_TxExec R ctx
          ([CSet (taskKey s tenantID (t_ID task)) (DTask data) (rt_ttl s)]
           @ (if t_ContextID task \<noteq> [] then [CRPush (contextKey s tenantID (t_ContextID task)) [DText (t_ID task)]] else [])
           @ [CZAdd (tenantIndexKey s tenantID) (UnixMilli (t_UpdatedAt task)) (DText (t_ID task))]) w)"

definition Task_GetByID :: "'w RedisClient \<Rightarrow> RedisTaskStore \<Rightarrow> Ctx \<Rightarrow> string \<Rightarrow> 'w \<Rightarrow> (go_error + Task) \<times> 'w" where
  "Task_GetByID R s ctx taskID w =
     (case rc_Get R ctx (taskKey s (tenantFromCtx ctx) taskID) w of
        (Inl err, w1) \<Rightarrow> (if errors_Is err ErrRedisKeyNotFound
           then (Inl (ErrorText (''task '' @ taskID @ '' not found'')), w1) else (Inl err, w1))
      | (Inr (DTask t), w1) \<Rightarrow> (Inr t, w1)
      | (Inr _, w1) \<Rightarrow> (Inl (ErrorText ''json: cannot unmarshal''), w1))"

text \<open>The end of \<open>UpdateStatus\<close> and \<open>AddWebhook\<close>: encode the changed task and store it.\<close>

definition store_task ::
  "'w RedisClient \<Rightarrow> RedisTaskStore \<Rightarrow> Ctx \<Rightarrow> string \<Rightarrow> Task \<Rightarrow> 'w \<Rightarrow> go_error option \<times> 'w" where
  "store_task R s ctx taskID task w = (case marshal_task task of
     Inl err \<Rightarrow> (Some err, w)
   | Inr data \<Rightarrow> rc_TxExec R ctx
       [CSet (taskKey s (tenantFromCtx ctx) taskID) (DTask data) (rt_ttl s),
        CZAdd (tenantIndexKey s (tenantFromCtx ctx)) (UnixMilli (t_UpdatedAt task)) (DText taskID)] w)"

definition Task_UpdateStatus ::
  "'w RedisClient \<Rightarrow> ('w \<Rightarrow> time \<times> 'w) \<Rightarrow> RedisTaskStore \<Rightarrow> Ctx \<Rightarrow> string \<Rightarrow> TaskStatus \<Rightarrow> 'w
    \<Rightarrow> go_error option \<times> 'w" where
  "Task_UpdateStatus R clock s ctx taskID status w =
     (case Task_GetByID R s ctx taskID w of
        (Inl err, w1) \<Rightarrow> (Some err, w1)
      | (Inr task, w1) \<Rightarrow> (case clock w1 of (now, w2) \<Rightarrow>
          store_task R s ctx taskID (task\<lparr>t_Status := status, t_UpdatedAt := now\<rparr>) w2))"

definition Task_AppendMessage ::
  "'w RedisClient \<Rightarrow> RedisTaskStore \<Rightarrow> Ctx \<Rightarrow> string \<Rightarrow> Message \<Rightarrow> 'w \<Rightarrow> go_error option \<times> 'w" where
  "Task_AppendMessage R s ctx taskID message w = (case marshal_message message of
     Inl err \<Rightarrow> (Some err, w)
   | Inr data \<Rightarrow> rc_RPush R ctx (historyKey s (tenantFromCtx ctx) taskID) [DMessage data] w)"

definition Task_AppendArtifact ::
  "'w RedisClient \<Rightarrow> RedisTaskStore \<Rightarrow> Ctx \<Rightarrow> string \<Rightarrow> Artifact \<Rightarrow> 'w \<Rightarrow> go_error option \<times> 'w" where
  "Task_AppendArtifact R s ctx taskID artifact w = (case marshal_artifact artifact of
     Inl err \<Rightarrow> (Some err, w)
   | Inr data \<Rightarrow> rc_RPush R ctx (artifactsKey s (tenantFromCtx ctx) taskID) [DArtifact data] w)"

definition Task_AddWebhook ::
  "'w RedisClient \<Rightarrow> ('w \<Rightarrow> time \<times> 'w) \<Rightarrow> RedisTaskStore \<Rightarrow> Ctx \<Rightarrow> string \<Rightarrow> WebhookConfig \<Rightarrow> 'w
    \<Rightarrow> go_error option \<times> 'w" where
  "Task_AddWebhook R clock s ctx taskID config w =
     (case Task_GetByID R s ctx taskID w of
        (Inl err, w1) \<Rightarrow> (Some err, w1)
      | (Inr task, w1) \<Rightarrow> (case clock w1 of (now, w2) \<Rightarrow>
          store_task R s ctx taskID (task\<lparr>t_Webhooks := t_Webhooks task @ [config], t_UpdatedAt := now\<rparr>) w2))"

text \<open>Fetching a list of ids: those that cannot be fetched are left out.\<close>

fun fetch_tasks ::
  "'w RedisClient \<Rightarrow> RedisTaskStore \<Rightarrow> Ctx \<Rightarrow> redis_value list \<Rightarrow> 'w \<Rightarrow> Task list \<times> 'w" where
  "fetch_tasks R s ctx [] w = ([], w)"
| "fetch_tasks R s ctx (DText i # vs) w = (case Task_GetByID R s ctx i w of
     (Inl err, w1) \<Rightarrow> fetch_tasks R s ctx vs w1
   | (Inr t, w1) \<Rightarrow> (case fetch_tasks R s ctx vs w1 of (ts, w2) \<Rightarrow> (t # ts, w2)))"
| "fetch_tasks R s ctx (_ # vs) w = fetch_tasks R s ctx vs w"

definition Task_ListByContextID ::
  "'w RedisClient \<Rightarrow> RedisTaskStore \<Rightarrow> Ctx \<Rightarrow> string \<Rightarrow> 'w \<Rightarrow> (go_error + Task list) \<times> 'w" where
  "Task_ListByContextID R s ctx contextID w =
     (case rc_LRange R ctx (contextKey s (tenantFromCtx ctx) contextID) 0 (- 1) w of
        (Inl err, w1) \<Rightarrow> (Inl err, w1)
      | (Inr ids, w1) \<Rightarrow> (case fetch_tasks R s ctx ids w1 of (ts, w2) \<Rightarrow> (Inr ts, w2)))"

definition Task_ListByTenantID ::
  "'w RedisClient \<Rightarrow> RedisTaskStore \<Rightarrow> Ctx \<Rightarrow> string \<Rightarrow> int \<Rightarrow> string \<Rightarrow> 'w
    \<Rightarrow> (go_error + Task list \<times> string) \<times> 'w" where
  "Task_ListByTenantID R s ctx tenantID limit cursor w =
     (case rc_ZRange R ctx (tenantIndexKey s tenantID) 0 (limit - 1) w of
        (Inl err, w1) \<Rightarrow> (Inl err, w1)
      | (Inr ids, w1) \<Rightarrow> (case fetch_tasks R s ctx ids w1 of (ts, w2) \<Rightarrow> (Inr (ts, []), w2)))"

definition RedisTaskStore_ops ::
  "'w RedisClient \<Rightarrow> ('w \<Rightarrow> time \<times> 'w) \<Rightarrow> RedisTaskStore \<Rightarrow> 'w TaskStore" where
  "RedisTaskStore_ops R clock s = \<lparr>tk_Create = Task_Create R s, tk_GetByID = Task_GetByID R s,
     tk_UpdateStatus = Task_UpdateStatus R clock s, tk_AppendMessage = Task_AppendMessage R s,
     tk_AppendArtifact = Task_AppendArtifact R s, tk_AddWebhook = Task_AddWebhook R clock s,
     tk_ListByContextID = Task_ListByContextID R s, tk_ListByTenantID = Task_ListByTenantID R s\<rparr>"

lemma RedisTaskStore_ops_simps [simp]:
  "tk_Create (RedisTaskStore_ops R clock s) = Task_Create R s"
  "tk_GetByID (RedisTaskStore_ops R clock s) = Task_GetByID R s"
  "tk_UpdateStatus (RedisTaskStore_ops R clock s) = Task_UpdateStatus R clock s"
  "tk_AppendArtifact (RedisTaskStore_ops R clock s) = Task_AppendArtifact R s"
  "tk_AppendMessage (RedisTaskStore_ops R clock s) = Task_AppendMessage R s"
  by (simp_all add: RedisTaskStore_ops_def)

section \<open>What the operations do to the database\<close>

lemma taskKey_same_tenant: "taskKey s t i = taskKey s t j \<longleftrightarrow> i = j"
  by (simp add: taskKey_def)

lemma taskKey_inj:
  assumes "no_colon t" and "no_colon t'"
  shows "taskKey s t i = taskKey s t' i' \<longleftrightarrow> t = t' \<and> i = i'"
  using colon_split [OF assms, of "''task:'' @ i" "''task:'' @ i'"] by (simp add: taskKey_def)

context redis_client
begin

lemma get_task_view:
  "inv w \<Longrightarrow> Task_GetByID R s ctx i w = (case str w (taskKey s (tenantFromCtx ctx) i) of
      None \<Rightarrow> (Inl (ErrorText (''task '' @ i @ '' not found'')), w)
    | Some (DTask t) \<Rightarrow> (Inr t, w) | Some _ \<Rightarrow> (Inl (ErrorText ''json: cannot unmarshal''), w))"
  by (auto simp: get Task_GetByID_def split: option.split redis_value.split)

lemma create_view:
  assumes "inv w" and "Task_Create R s ctx t w = (res, w')"
  shows "inv w' \<and> str w' = (if res = None then (str w)(taskKey s (task_tenant t) (t_ID t) \<mapsto> DTask (json_task t)) else str w)"
proof (cases "task_json_ok t")
  case False
  with assms show ?thesis by (auto simp: Task_Create_def marshal_task_def)
next
  case True
  let ?cmds = "[CSet (taskKey s (task_tenant t) (t_ID t)) (DTask (json_task t)) (rt_ttl s)]
     @ (if t_ContextID t \<noteq> [] then [CRPush (contextKey s (task_tenant t) (t_ContextID t)) [DText (t_ID t)]] else [])
     @ [CZAdd (tenantIndexKey s (task_tenant t)) (UnixMilli (t_UpdatedAt t)) (DText (t_ID t))]"
  from True assms(2) have x: "rc_TxExec R ctx ?cmds w = (res, w')"
    by (simp add: Task_Create_def marshal_task_def Let_def)
  show ?thesis
    using tx [OF assms(1), of ctx ?cmds w'] tx_failed [OF assms(1), of ctx ?cmds _ w'] x
    by (cases res) auto
qed

lemma store_task_view:
  assumes "inv w" and "store_task R s ctx i t w = (res, w')"
  shows "inv w' \<and> str w' = (if res = None then (str w)(taskKey s (tenantFromCtx ctx) i \<mapsto> DTask (json_task t)) else str w)"
proof (cases "task_json_ok t")
  case False
  with assms show ?thesis by (auto simp: store_task_def marshal_task_def)
next
  case True
  let ?cmds = "[CSet (taskKey s (tenantFromCtx ctx) i) (DTask (json_task t)) (rt_ttl s),
     CZAdd (tenantIndexKey s (tenantFromCtx ctx)) (UnixMilli (t_UpdatedAt t)) (DText i)]"
  from True assms(2) have x: "rc_TxExec R ctx ?cmds w = (res, w')"
    by (simp add: store_task_def marshal_task_def)
  show ?thesis
    using tx [OF assms(1), of ctx ?cmds w'] tx_failed [OF assms(1), of ctx ?cmds _ w'] x
    by (cases res) auto
qed

lemma update_status_view:
  assumes "inv w" and "fst (Task_GetByID R s ctx i w) = Inr t"
    and "Task_UpdateStatus R clock s ctx i st w = (res, w')"
  shows "inv w' \<and> (\<exists>now. str w' = (if res = None
    then (str w)(taskKey s (tenantFromCtx ctx) i \<mapsto> DTask (json_task (t\<lparr>t_Status := st, t_UpdatedAt := now\<rparr>))) else str w))"
proof -
  have g: "Task_GetByID R s ctx i w = (Inr t, w)"
    using assms(1,2) by (auto simp: get_task_view split: option.splits redis_value.splits)
  obtain now w2 where c: "clock w = (now, w2)" by fastforce
  with clock [OF assms(1) c] g assms(3) store_task_view [of w2 s ctx i "t\<lparr>t_Status := st, t_UpdatedAt := now\<rparr>" res w']
  show ?thesis by (auto simp: Task_UpdateStatus_def)
qed

lemma update_status_missing:
  assumes "inv w" and "fst (Task_GetByID R s ctx i w) = Inl e"
  shows "Task_UpdateStatus R clock s ctx i st w = (Some e, w)"
  using assms by (auto simp: Task_UpdateStatus_def get_task_view split: option.splits redis_value.splits)

end

sublocale redis_client \<subseteq> redis_tasks: task_store
  "RedisTaskStore_ops R clock s" inv "\<lambda>ctx t. tenantFromCtx ctx = task_tenant t"
  for s
proof (unfold_locales, unfold RedisTaskStore_ops_simps)
  fix w ctx i
  assume "inv w"
  then show "snd (Task_GetByID R s ctx i w) = w"
    by (auto simp: get_task_view split: option.split redis_value.split)
next
  fix w ctx t
  assume "inv w"
  then show "inv (snd (Task_Create R s ctx t w))"
    using create_view [of w s ctx t] by (cases "Task_Create R s ctx t w") auto
next
  fix w ctx i st
  assume i: "inv w"
  show "inv (snd (Task_UpdateStatus R clock s ctx i st w))"
  proof (cases "fst (Task_GetByID R s ctx i w)")
    case (Inl e)
    with update_status_missing [OF i] i show ?thesis by simp
  next
    case (Inr t)
    with update_status_view [OF i Inr, of st] show ?thesis
      by (cases "Task_UpdateStatus R clock s ctx i st w") auto
  qed
next
  fix w ctx t ctx' w'
  assume i: "inv w" and o: "tenantFromCtx ctx = task_tenant t" and c: "Task_Create R s ctx' t w = (None, w')"
  from create_view [OF i c] o show "fst (Task_GetByID R s ctx (t_ID t) w') = Inr (json_task t)"
    by (simp add: get_task_view)
next
  fix w ctx i t st w'
  assume a: "inv w" "fst (Task_GetByID R s ctx i w) = Inr t" "Task_UpdateStatus R clock s ctx i st w = (None, w')"
  from update_status_view [OF a] obtain now where
    "inv w'" "str w' = (str w)(taskKey s (tenantFromCtx ctx) i \<mapsto> DTask (json_task (t\<lparr>t_Status := st, t_UpdatedAt := now\<rparr>)))"
    by auto
  then show "\<exists>t'. fst (Task_GetByID R s ctx i w') = Inr t' \<and> t_Status t' = st
      \<and> t_History t' = map json_message (t_History t) \<and> t_TenantID t' = t_TenantID t"
    by (simp add: get_task_view)
next
  fix w ctx i e st
  assume "inv w" "fst (Task_GetByID R s ctx i w) = Inl e"
  from update_status_missing [OF this] show "fst (Task_UpdateStatus R clock s ctx i st w) = Some e
      \<and> snd (Task_UpdateStatus R clock s ctx i st w) = w" by simp
qed

section \<open>Properties of task\_store.go\<close>

text \<open>
  C8: the life of a task. For every client that keeps the Redis contract, a task that was created
  and then had its status updated by a context of its tenant is read back with that status, its
  history and its tenant; tasks of other tenants and other tasks are not touched, as long as tenant
  ids have no colon.
\<close>

theorem task_lifecycle:
  assumes "redis_client R gen clock ok str lst zst" and "ok w"
    and "Task_Create R s ctx' t w = (None, w1)" and "tenantFromCtx ctx = task_tenant t"
    and "Task_UpdateStatus R clock s ctx (t_ID t) st w1 = (None, w2)"
    and "no_colon (tenantFromCtx ctx)" and "no_colon (tenantFromCtx ctx2)"
    and "(tenantFromCtx ctx2, i) \<noteq> (tenantFromCtx ctx, t_ID t)"
  shows "(\<exists>t'. fst (Task_GetByID R s ctx (t_ID t) w2) = Inr t' \<and> t_Status t' = st
      \<and> t_History t' = map json_message (t_History t) \<and> t_TenantID t' = t_TenantID t)
    \<and> fst (Task_GetByID R s ctx2 i w2) = fst (Task_GetByID R s ctx2 i w)"
proof -
  note view = redis_client.get_task_view [OF assms(1)]
  let ?k = "taskKey s (tenantFromCtx ctx) (t_ID t)"
  from redis_client.create_view [OF assms(1-3)] assms(4)
  have v1: "ok w1" "str w1 = (str w)(?k \<mapsto> DTask (json_task t))" by simp_all
  then have g: "fst (Task_GetByID R s ctx (t_ID t) w1) = Inr (json_task t)" by (simp add: view)
  from redis_client.update_status_view [OF assms(1) v1(1) g assms(5)] obtain now where
    v2: "ok w2" "str w2 = (str w1)(?k \<mapsto> DTask (json_task ((json_task t)\<lparr>t_Status := st, t_UpdatedAt := now\<rparr>)))"
    by auto
  have "taskKey s (tenantFromCtx ctx2) i \<noteq> ?k" using assms(6-8) by (auto simp: taskKey_inj)
  with v1 v2 assms(2) show ?thesis by (auto simp: view comp_def split: option.split redis_value.split)
qed

text \<open>A task of tenant acme, for the witnesses.\<close>

definition acme_task :: Task where
  "acme_task = \<lparr>t_ID = ''t1'', t_ContextID = ''c1'', t_TenantID = ''acme'',
     t_Status = \<lparr>ts_State = TaskStateSubmitted, ts_Timestamp = 0, ts_Message = []\<rparr>, t_History = [],
     t_Artifacts = [], t_Webhooks = [], t_Metadata = None, t_CreatedAt = 0, t_UpdatedAt = 0\<rparr>"

definition acme_ctx :: Ctx where
  "acme_ctx = Background\<lparr>ctx_tenantID := Some ''acme''\<rparr>"

definition default_task_store :: RedisTaskStore where
  "default_task_store = NewRedisTaskStore [] 0"

lemma acme_task_ok [simp]: "task_json_ok acme_task" "json_task acme_task = acme_task"
  by (simp_all add: task_json_ok_def acme_task_def vars_json_ok_def json_task_def omitempty_def)

lemma redis_db_creates:
  "task_json_ok t \<Longrightarrow> \<exists>w'. Task_Create redis_db s ctx t w = (None, w')"
  by (simp add: Task_Create_def marshal_task_def redis_db_def Let_def)

lemma redis_db_updates:
  assumes "fst (Task_GetByID redis_db s ctx i w) = Inr t" and "task_json_ok t"
  shows "\<exists>w'. Task_UpdateStatus redis_db redis_clock s ctx i st w = (None, w')"
proof -
  have "Task_GetByID redis_db s ctx i w = (Inr t, w)"
    using assms(1) by (auto simp: Task_GetByID_def redis_db_def split: option.splits redis_value.splits if_splits)
  with assms(2) show ?thesis
    by (simp add: Task_UpdateStatus_def redis_clock_def store_task_def marshal_task_def redis_db_def task_json_ok_def)
qed

theorem task_lifecycle_witness:
  "\<exists>w1 w2 t'. Task_Create redis_db default_task_store acme_ctx acme_task new_redis = (None, w1)
    \<and> Task_UpdateStatus redis_db redis_clock default_task_store acme_ctx ''t1''
        \<lparr>ts_State = TaskStateWorking, ts_Timestamp = 5, ts_Message = ''go''\<rparr> w1 = (None, w2)
    \<and> fst (Task_GetByID redis_db default_task_store acme_ctx ''t1'' w2) = Inr t' \<and> ts_State (t_Status t') = TaskStateWorking"
proof -
  let ?st = "\<lparr>ts_State = TaskStateWorking, ts_Timestamp = 5, ts_Message = ''go''\<rparr>"
  obtain w1 where c: "Task_Create redis_db default_task_store acme_ctx acme_task new_redis = (None, w1)"
    using redis_db_creates [OF acme_task_ok(1)] by blast
  have own: "tenantFromCtx acme_ctx = task_tenant acme_task"
    by (simp add: acme_ctx_def acme_task_def tenantFromCtx_def task_tenant_def)
  have i: "t_ID acme_task = ''t1''" by (simp add: acme_task_def)
  have "fst (Task_GetByID redis_db default_task_store acme_ctx (t_ID acme_task) w1) = Inr acme_task"
    using rdb.redis_tasks.get_after_create [of new_redis acme_ctx acme_task default_task_store acme_ctx w1] own c by simp
  then obtain w2 where u: "Task_UpdateStatus redis_db redis_clock default_task_store acme_ctx (t_ID acme_task) ?st w1 = (None, w2)"
    using redis_db_updates by fastforce
  have n: "no_colon (tenantFromCtx acme_ctx)" by (simp add: acme_ctx_def tenantFromCtx_def no_colon_def)
  have "(tenantFromCtx acme_ctx, ''t2'') \<noteq> (tenantFromCtx acme_ctx, t_ID acme_task)" by (simp add: i)
  from task_lifecycle [OF rdb.redis_client_axioms new_redis_ok c own u n n this] c u i show ?thesis by auto
qed

text \<open>
  What is appended to a task is not what is read. \<open>AppendMessage\<close> and \<open>AppendArtifact\<close>
  add to lists that \<open>GetByID\<close> never looks at: whatever they return, the task reads as before.
\<close>

theorem appended_history_is_not_read:
  assumes "redis_client R gen clock ok str lst zst" and "ok w"
  shows "fst (Task_GetByID R s ctx i (snd (Task_AppendMessage R s ctx' i' m w))) = fst (Task_GetByID R s ctx i w)
    \<and> fst (Task_GetByID R s ctx i (snd (Task_AppendArtifact R s ctx' i' a w))) = fst (Task_GetByID R s ctx i w)"
proof -
  have "ok (snd (rc_RPush R c k vs w)) \<and> str (snd (rc_RPush R c k vs w)) = str w" for c k vs
    using redis_client.rpush [OF assms, of c k vs] redis_client.rpush_failed [OF assms, of c k vs]
    by (cases "rc_RPush R c k vs w"; cases "fst (rc_RPush R c k vs w)") auto
  with assms(2) show ?thesis
    by (auto simp: redis_client.get_task_view [OF assms(1)] Task_AppendMessage_def Task_AppendArtifact_def
        split: sum.split option.split redis_value.split)
qed

theorem appended_history_is_not_read_witness:
  "fst (Task_GetByID redis_db default_task_store acme_ctx ''t1''
      (snd (Task_AppendMessage redis_db default_task_store acme_ctx ''t1'' zero_Message new_redis)))
    = fst (Task_GetByID redis_db default_task_store acme_ctx ''t1'' new_redis)"
  using appended_history_is_not_read [OF rdb.redis_client_axioms new_redis_ok] by blast

text \<open>
  A task without a tenant is stored for the tenant \<open>"default"\<close> and cannot be read by the
  context that a token with an empty tenant yields, for tasks not already stored there.
\<close>

theorem empty_tenant_task_is_lost:
  assumes "redis_client R gen clock ok str lst zst" and "ok w"
    and "t_TenantID t = []" and "Task_Create R s ctx t w = (None, w')"
    and "fst (Task_GetByID R s (ctx\<lparr>ctx_tenantID := Some []\<rparr>) (t_ID t) w) = Inl e"
  shows "fst (Task_GetByID R s (ctx\<lparr>ctx_tenantID := Some []\<rparr>) (t_ID t) w') = Inl e
    \<and> fst (Task_GetByID R s (ctx\<lparr>ctx_tenantID := None\<rparr>) (t_ID t) w') = Inr (json_task t)"
proof -
  have "taskKey s [] (t_ID t) \<noteq> taskKey s ''default'' (t_ID t)"
    by (subst taskKey_inj) (simp_all add: no_colon_def)
  with redis_client.create_view [OF assms(1,2,4)] assms show ?thesis
    by (auto simp: redis_client.get_task_view [OF assms(1)] tenantFromCtx_def task_tenant_def
        split: option.splits redis_value.splits)
qed

theorem empty_tenant_task_is_lost_witness:
  "\<exists>w'. Task_Create redis_db default_task_store Background (acme_task\<lparr>t_TenantID := []\<rparr>) new_redis = (None, w')
    \<and> fst (Task_GetByID redis_db default_task_store (Background\<lparr>ctx_tenantID := Some []\<rparr>) ''t1'' w')
      = Inl (ErrorText ''task t1 not found'')"
proof -
  let ?t = "acme_task\<lparr>t_TenantID := []\<rparr>"
  have "task_json_ok ?t" by (simp add: task_json_ok_def acme_task_def vars_json_ok_def)
  then obtain w' where c: "Task_Create redis_db default_task_store Background ?t new_redis = (None, w')"
    using redis_db_creates by blast
  have "t_TenantID ?t = []" by simp
  moreover have "fst (Task_GetByID redis_db default_task_store (Background\<lparr>ctx_tenantID := Some []\<rparr>) (t_ID ?t) new_redis)
      = Inl (ErrorText ''task t1 not found'')"
    by (simp add: Task_GetByID_def redis_db_def new_redis_def acme_task_def)
  ultimately show ?thesis
    using empty_tenant_task_is_lost [OF rdb.redis_client_axioms new_redis_ok _ c] c by (simp add: acme_task_def)
qed

end
