(* ===== verification/Tools_Model.thy ===== *)
theory Tools_Model
  imports Memory_Model
begin

text \<open>
  Package \<open>tools\<close>: the tool registry with its per-tenant permissions, the concurrent dispatcher,
  the built-in tools, the sandbox wrapper and the memory search tool.

  The goroutines of \<open>ExecuteConcurrent\<close> are a step relation: in each step one pending call,
  whichever it is, runs to its end and writes its slot of the result slice. One call of a tool's
  \<open>Execute\<close> is one step on the world; the registry is only read.
\<close>

section \<open>Tools and the registry (interfaces/tool.go, tools/registry.go)\<close>

record ToolInputSchema =
  sch_Type :: string
  sch_Properties :: "(string, gvars) gomap"
  sch_Required :: "string list"

record 'w Tool =
  tool_Name :: string
  tool_Description :: string
  tool_InputSchema :: ToolInputSchema
  tool_RequiredPermissions :: "string list"
  tool_Execute :: "Ctx \<Rightarrow> gvars \<Rightarrow> 'w \<Rightarrow> (go_error + string) \<times> 'w"

record 'w ConcreteToolRegistry =
  reg_tools :: "(string, 'w Tool) gomap"
  reg_permissions :: "(string, (string, bool) gomap) gomap"

definition NewConcreteToolRegistry :: "'w ConcreteToolRegistry" where
  "NewConcreteToolRegistry = \<lparr>reg_tools = [], reg_permissions = []\<rparr>"

text \<open>The variadic \<open>permissions\<close> of \<open>Register\<close> are not used by the code.\<close>

definition Register ::
  "'w ConcreteToolRegistry \<Rightarrow> 'w Tool \<Rightarrow> string list \<Rightarrow> go_error option \<times> 'w ConcreteToolRegistry" where
  "Register r tool permissions = (case glookup (reg_tools r) (tool_Name tool) of
     Some _ \<Rightarrow> (Some (ErrorText (''tool already registered: '' @ tool_Name tool)), r)
   | None \<Rightarrow> (None, r\<lparr>reg_tools := gset (tool_Name tool) tool (reg_tools r)\<rparr>))"

definition GetTool :: "'w ConcreteToolRegistry \<Rightarrow> string \<Rightarrow> 'w Tool option" where
  "GetTool r name = glookup (reg_tools r) name"

definition ListTools :: "'w ConcreteToolRegistry \<Rightarrow> 'w Tool list" where
  "ListTools r = map snd (reg_tools r)"

definition GrantPermission :: "'w ConcreteToolRegistry \<Rightarrow> string \<Rightarrow> string \<Rightarrow> 'w ConcreteToolRegistry" where
  "GrantPermission r tenantID toolName =
     (let m = (case glookup (reg_permissions r) tenantID of None \<Rightarrow> [] | Some m \<Rightarrow> m) in
      r\<lparr>reg_permissions := gset tenantID (gset toolName True m) (reg_permissions r)\<rparr>)"

definition RevokePermission :: "'w ConcreteToolRegistry \<Rightarrow> string \<Rightarrow> string \<Rightarrow> 'w ConcreteToolRegistry" where
  "RevokePermission r tenantID toolName = (case glookup (reg_permissions r) tenantID of
     None \<Rightarrow> r
   | Some m \<Rightarrow> r\<lparr>reg_permissions := gset tenantID (gdelete toolName m) (reg_permissions r)\<rparr>)"

text \<open>The loop over the patterns: a \<open>":*"\<close> pattern whose prefix the tool name has.\<close>

fun prefix_allowed :: "string list \<Rightarrow> string \<Rightarrow> bool" where
  "prefix_allowed [] toolName = False"
| "prefix_allowed (pattern # ps) toolName =
     (if HasSuffix pattern '':*'' \<and> HasPrefix toolName (TrimSuffix pattern ''*'') then True
      else prefix_allowed ps toolName)"

definition AuthorizeCall :: "'w ConcreteToolRegistry \<Rightarrow> Ctx \<Rightarrow> string \<Rightarrow> go_error option" where
  "AuthorizeCall r ctx toolName =
     (let tenantID = (case ctx_tenantID ctx of None \<Rightarrow> [] | Some t \<Rightarrow> t) in
      if tenantID = [] then None
      else (case glookup (reg_permissions r) tenantID of
        None \<Rightarrow> Some (ErrorText (''tenant '' @ tenantID @ '' has no permission table; access to ''
          @ toolName @ '' denied''))
      | Some allowed \<Rightarrow>
          if glookup allowed toolName = Some True then None
          else if glookup allowed ''*'' = Some True then None
          else if prefix_allowed (gkeys allowed) toolName then None
          else Some (ErrorText (''tenant '' @ tenantID @ '' is not authorized to call tool '' @ toolName))))"

text \<open>One goroutine of \<open>ExecuteConcurrent\<close>. A nil argument map reads as an empty one.\<close>

definition run_call ::
  "'w ConcreteToolRegistry \<Rightarrow> Ctx \<Rightarrow> ToolCallPart \<Rightarrow> 'w \<Rightarrow> ToolResultPart \<times> 'w" where
  "run_call r ctx tc w = (case AuthorizeCall r ctx (tc_ToolName tc) of
     Some err \<Rightarrow> (\<lparr>tr_CallID = tc_CallID tc, tr_Result = ''PermissionDenied: '' @ Error err, tr_IsError = True\<rparr>, w)
   | None \<Rightarrow> (case glookup (reg_tools r) (tc_ToolName tc) of
       None \<Rightarrow> (\<lparr>tr_CallID = tc_CallID tc, tr_Result = ''tool not found: '' @ tc_ToolName tc, tr_IsError = True\<rparr>, w)
     | Some tool \<Rightarrow>
         (case tool_Execute tool ctx (case tc_Arguments tc of None \<Rightarrow> [] | Some m \<Rightarrow> m) w of
            (Inl err, w') \<Rightarrow> (\<lparr>tr_CallID = tc_CallID tc, tr_Result = Error err, tr_IsError = True\<rparr>, w')
          | (Inr res, w') \<Rightarrow> (\<lparr>tr_CallID = tc_CallID tc, tr_Result = res, tr_IsError = False\<rparr>, w'))))"

definition zero_result :: ToolResultPart where
  "zero_result = \<lparr>tr_CallID = [], tr_Result = [], tr_IsError = False\<rparr>"

text \<open>
  A configuration of the dispatcher: the indices whose goroutine has not ended, the result slice
  and the world. \<open>wg.Wait\<close> returns when no goroutine is pending.
\<close>

inductive exec_step ::
  "'w ConcreteToolRegistry \<Rightarrow> Ctx \<Rightarrow> ToolCallPart list \<Rightarrow> nat set \<times> ToolResultPart list \<times> 'w
    \<Rightarrow> nat set \<times> ToolResultPart list \<times> 'w \<Rightarrow> bool"
  for r ctx calls where
  goroutine: "i \<in> pending \<Longrightarrow> run_call r ctx (calls ! i) w = (res, w')
    \<Longrightarrow> exec_step r ctx calls (pending, results, w) (pending - {i}, results[i := res], w')"

inductive exec_reach ::
  "'w ConcreteToolRegistry \<Rightarrow> Ctx \<Rightarrow> ToolCallPart list \<Rightarrow> nat \<Rightarrow> nat set \<times> ToolResultPart list \<times> 'w \<Rightarrow> 'w \<Rightarrow> bool"
  for r ctx calls where
  start: "exec_reach r ctx calls 0 ({..<length calls}, replicate (length calls) zero_result, w) w"
| step: "exec_reach r ctx calls n c w0 \<Longrightarrow> exec_step r ctx calls c d \<Longrightarrow> exec_reach r ctx calls (Suc n) d w0"

text \<open>One schedule as a function: the goroutines end in the order of the given indices.\<close>

fun ExecuteConcurrent ::
  "'w ConcreteToolRegistry \<Rightarrow> Ctx \<Rightarrow> ToolCallPart list \<Rightarrow> nat list \<Rightarrow> ToolResultPart list \<times> 'w
    \<Rightarrow> ToolResultPart list \<times> 'w" where
  "ExecuteConcurrent r ctx calls [] rw = rw"
| "ExecuteConcurrent r ctx calls (i # sched) (results, w) =
     (case run_call r ctx (calls ! i) w of (res, w') \<Rightarrow>
        ExecuteConcurrent r ctx calls sched (results[i := res], w'))"

section \<open>Built-in tools (tools/builtins.go)\<close>

definition schema :: "string \<Rightarrow> string \<Rightarrow> string \<Rightarrow> ToolInputSchema" where
  "schema key ty desc = \<lparr>sch_Type = ''object'',
     sch_Properties = [(key, [(''type'', GString ty), (''description'', GString desc)])],
     sch_Required = [key]\<rparr>"

definition Echo_Execute :: "Ctx \<Rightarrow> gvars \<Rightarrow> 'w \<Rightarrow> (go_error + string) \<times> 'w" where
  "Echo_Execute ctx args w = (case map_string args ''message'' of
     Some msg \<Rightarrow> (Inr msg, w)
   | None \<Rightarrow> (Inl (ErrorText ''missing or non-string 'message' argument''), w))"

definition EchoTool :: "'w Tool" where
  "EchoTool = \<lparr>tool_Name = ''echo'', tool_Description = ''Echoes the input message back to the caller.'',
     tool_InputSchema = schema ''message'' ''string'' ''The message to echo'',
     tool_RequiredPermissions = [], tool_Execute = Echo_Execute\<rparr>"

text \<open>The dynamic type names printed by \<open>%T\<close>.\<close>

fun type_name :: "gany \<Rightarrow> string" where
  "type_name GNil = ''<nil>''"
| "type_name (GBool _) = ''bool''"
| "type_name (GInt _) = ''int''"
| "type_name (GFloat _) = ''float64''"
| "type_name (GString _) = ''string''"
| "type_name (GList _) = ''[]interface {}''"
| "type_name (GMap _) = ''map[string]interface {}''"
| "type_name (GToolCall _ _ _) = ''*core.ToolCallPart''"
| "type_name (GPlan _ _) = ''*planner.Plan''"
| "type_name (GTools _) = ''[]interfaces.Tool''"
| "type_name (GUsage _ _) = ''engine.usage''"
| "type_name GFunc = ''func()''"

definition sleep_for :: "'w Runtime \<Rightarrow> Ctx \<Rightarrow> duration \<Rightarrow> 'w \<Rightarrow> (go_error + string) \<times> 'w" where
  "sleep_for rt ctx dur w = (case rt_Wait rt ctx dur w of
     (Some err, w') \<Rightarrow> (Inl err, w') | (None, w') \<Rightarrow> (Inr (''slept '' @ dur_text dur), w'))"

definition Sleep_Execute :: "'w Runtime \<Rightarrow> Ctx \<Rightarrow> gvars \<Rightarrow> 'w \<Rightarrow> (go_error + string) \<times> 'w" where
  "Sleep_Execute rt ctx args w = (case glookup args ''ms'' of
     None \<Rightarrow> (Inl (ErrorText ''missing 'ms' argument''), w)
   | Some (GFloat v) \<Rightarrow> sleep_for rt ctx (wrap64 (trunc_rat v * 1000000)) w
   | Some (GInt v) \<Rightarrow> sleep_for rt ctx (wrap64 (v * 1000000)) w
   | Some v \<Rightarrow> (Inl (ErrorText (CHR 0x27 # ''ms' must be a number, got '' @ type_name v)), w))"

definition SleepTool :: "'w Runtime \<Rightarrow> 'w Tool" where
  "SleepTool rt = \<lparr>tool_Name = ''sleep'', tool_Description = ''Sleeps for the given number of milliseconds.'',
     tool_InputSchema = schema ''ms'' ''integer'' ''Milliseconds to sleep'',
     tool_RequiredPermissions = [], tool_Execute = Sleep_Execute rt\<rparr>"

section \<open>The sandbox (tools/sandbox.go)\<close>

definition Sandboxed_Execute ::
  "'w Runtime \<Rightarrow> 'w Tool \<Rightarrow> duration \<Rightarrow> Ctx \<Rightarrow> gvars \<Rightarrow> 'w \<Rightarrow> (go_error + string) \<times> 'w" where
  "Sandboxed_Execute rt base timeout ctx args w =
     (if 0 < timeout then
        (case rt_Now rt w of (now, w1) \<Rightarrow>
           tool_Execute base (ctx\<lparr>ctx_deadline := with_timeout (ctx_deadline ctx) now timeout\<rparr>) args w1)
      else tool_Execute base ctx args w)"

definition SandboxedTool :: "'w Runtime \<Rightarrow> 'w Tool \<Rightarrow> duration \<Rightarrow> 'w Tool" where
  "SandboxedTool rt base timeout = \<lparr>tool_Name = tool_Name base, tool_Description = tool_Description base,
     tool_InputSchema = tool_InputSchema base, tool_RequiredPermissions = tool_RequiredPermissions base,
     tool_Execute = Sandboxed_Execute rt base timeout\<rparr>"

text \<open>\<open>WrapToolRegistry\<close> has an empty body.\<close>

definition WrapToolRegistry :: "'w ConcreteToolRegistry \<Rightarrow> duration \<Rightarrow> 'w ConcreteToolRegistry" where
  "WrapToolRegistry reg defaultTimeout = reg"

section \<open>Memory search (tools/search\_memory.go)\<close>

text \<open>
  The rendering of the matches. \<open>json_text\<close> is the text \<open>json.Marshal\<close> gives for an argument
  map. A part whose type announces a payload that is nil panics (\<open>None\<close>).
\<close>

definition match_part :: "(gvars option \<Rightarrow> string) \<Rightarrow> Part \<Rightarrow> string option" where
  "match_part json_text p =
     (if p_Type p = PartTypeText then Some (p_Text p @ [CHR 0x0A])
      else if p_Type p = PartTypeToolCall then
        map_option (\<lambda>c. ''[ToolCall '' @ tc_ToolName c @ '']: '' @ json_text (tc_Arguments c) @ [CHR 0x0A]) (p_ToolCall p)
      else if p_Type p = PartTypeToolResult then
        map_option (\<lambda>r. ''[ToolResult]: '' @ tr_Result r @ [CHR 0x0A]) (p_ToolResult p)
      else Some [])"

fun match_parts :: "(gvars option \<Rightarrow> string) \<Rightarrow> Part list \<Rightarrow> string option" where
  "match_parts json_text [] = Some []"
| "match_parts json_text (p # ps) = (case match_part json_text p of
     None \<Rightarrow> None | Some t \<Rightarrow> map_option (\<lambda>rest. t @ rest) (match_parts json_text ps))"

fun match_messages :: "(gvars option \<Rightarrow> string) \<Rightarrow> int \<Rightarrow> Message list \<Rightarrow> string option" where
  "match_messages json_text i [] = Some []"
| "match_messages json_text i (msg # msgs) = (case match_parts json_text (m_Parts msg) of
     None \<Rightarrow> None
   | Some t \<Rightarrow> map_option (\<lambda>rest. ''--- Match '' @ itoa (i + 1) @ '' (Role: '' @ role_text (m_Role msg) @ '') ---''
        @ [CHR 0x0A] @ t @ rest) (match_messages json_text (i + 1) msgs))"

definition SearchMemory_Execute ::
  "(gvars option \<Rightarrow> string) \<Rightarrow> 'w MemoryStore \<Rightarrow> Ctx \<Rightarrow> gvars \<Rightarrow> 'w
    \<Rightarrow> (gopanic + (go_error + string)) \<times> 'w" where
  "SearchMemory_Execute json_text store ctx args w =
     (let query = (case map_string args ''query'' of None \<Rightarrow> [] | Some q \<Rightarrow> q);
          sid = (case ctx_session ctx of None \<Rightarrow> [] | Some s \<Rightarrow> s) in
      if query = [] then (Inr (Inl (ErrorText ''missing or empty 'query' argument'')), w)
      else if sid = [] then (Inr (Inl (ErrorText
        ''session_id not found in execution context; tool must be run within an engine session'')), w)
      else (case ms_Search store ctx sid query 5 w of
        (Inl err, w1) \<Rightarrow> (Inr (Inl (Errorf ''failed to perform vector search: '' err [])), w1)
      | (Inr [], w1) \<Rightarrow> (Inr (Inr ''No highly relevant historical records found for your query.''), w1)
      | (Inr msgs, w1) \<Rightarrow> (case match_messages json_text 0 msgs of
          None \<Rightarrow> (Inl NilDereference, w1)
        | Some t \<Rightarrow> (Inr (Inr (''Found the following historical context:'' @ [CHR 0x0A, CHR 0x0A] @ t)), w1))))"

text \<open>
  The tool as a registry holds it. \<open>exec\<close> is its \<open>Execute\<close>, which is \<open>SearchMemory_Execute\<close> where
  that does not panic (a panic in the goroutine of a call ends the process).
\<close>

definition SearchMemoryTool :: "(Ctx \<Rightarrow> gvars \<Rightarrow> 'w \<Rightarrow> (go_error + string) \<times> 'w) \<Rightarrow> 'w Tool" where
  "SearchMemoryTool exec = \<lparr>tool_Name = ''search_memory'',
     tool_Description = ''Searches the historical conversation context for semantically matching messages using vector embeddings. '' @
       ''Use this when the user asks about something discussed previously that is no longer in the immediate context window. '' @
       ''Query should be a full sentence describing the expected information.'',
     tool_InputSchema = schema ''query'' ''string'' ''The search phrase to vector embed and lookup. Please be descriptive and semantic.'',
     tool_RequiredPermissions = [], tool_Execute = exec\<rparr>"

section \<open>Lemmas\<close>

lemma prefix_allowed_iff:
  "prefix_allowed ps tool \<longleftrightarrow> (\<exists>pre. pre @ '':*'' \<in> set ps \<and> HasPrefix tool (pre @ '':''))"
proof (induction ps)
  case (Cons p ps)
  have "TrimSuffix (pre @ '':*'') ''*'' = pre @ '':''" for pre
    using TrimSuffix_append [of "pre @ '':''" "''*''"] by simp
  then have "(HasSuffix p '':*'' \<and> HasPrefix tool (TrimSuffix p ''*''))
      \<longleftrightarrow> (\<exists>pre. p = pre @ '':*'' \<and> HasPrefix tool (pre @ '':''))"
    by (auto simp: HasSuffix_iff)
  with Cons show ?case by auto
qed simp

text \<open>The grants of a tenant that are in force.\<close>

definition grants :: "'w ConcreteToolRegistry \<Rightarrow> string \<Rightarrow> string set" where
  "grants r t = (case glookup (reg_permissions r) t of None \<Rightarrow> {} | Some m \<Rightarrow> set (gkeys m))"

text \<open>Permission tables only ever hold \<open>true\<close>.\<close>

definition registry_ok :: "'w ConcreteToolRegistry \<Rightarrow> bool" where
  "registry_ok r \<longleftrightarrow> (\<forall>t m. glookup (reg_permissions r) t = Some m \<longrightarrow> (\<forall>k v. glookup m k = Some v \<longrightarrow> v))
     \<and> (\<forall>n tool. glookup (reg_tools r) n = Some tool \<longrightarrow> tool_Name tool = n)"

lemma registry_ok_new [simp]: "registry_ok NewConcreteToolRegistry"
  by (simp add: registry_ok_def NewConcreteToolRegistry_def)

lemma registry_ok_Register: "registry_ok r \<Longrightarrow> registry_ok (snd (Register r tool ps))"
  by (auto simp: registry_ok_def Register_def split: option.split)

lemma registry_ok_Grant: "registry_ok r \<Longrightarrow> registry_ok (GrantPermission r t n)"
  by (auto simp: registry_ok_def GrantPermission_def Let_def split: option.splits if_splits)

lemma registry_ok_Revoke: "registry_ok r \<Longrightarrow> registry_ok (RevokePermission r t n)"
  by (auto simp: registry_ok_def RevokePermission_def split: option.splits if_splits)

lemmas registry_ok_intros [intro] = registry_ok_new registry_ok_Register registry_ok_Grant registry_ok_Revoke

lemma set_gkeys_gdelete: "set (gkeys (gdelete k m)) = set (gkeys m) - {k}"
  by (induction m) auto

lemma grants_Grant: "grants (GrantPermission r t n) t' = (if t' = t then insert n (grants r t) else grants r t')"
  by (auto simp: grants_def GrantPermission_def Let_def gkeys_gset simp del: set_map split: option.splits)

lemma grants_Revoke: "grants (RevokePermission r t n) t' = (if t' = t then grants r t - {n} else grants r t')"
  by (auto simp: grants_def RevokePermission_def set_gkeys_gdelete simp del: set_map split: option.splits)

definition covered :: "string set \<Rightarrow> string \<Rightarrow> bool" where
  "covered gs tool \<longleftrightarrow> tool \<in> gs \<or> ''*'' \<in> gs \<or> (\<exists>pre. pre @ '':*'' \<in> gs \<and> HasPrefix tool (pre @ '':''))"

lemma AuthorizeCall_iff:
  assumes "registry_ok r" and "ctx_tenantID ctx = Some t" and "t \<noteq> []"
  shows "AuthorizeCall r ctx tool = None \<longleftrightarrow> covered (grants r t) tool"
proof (cases "glookup (reg_permissions r) t")
  case None
  with assms show ?thesis by (simp add: AuthorizeCall_def grants_def covered_def)
next
  case (Some m)
  with assms(1) have "glookup m k = Some True \<longleftrightarrow> k \<in> set (gkeys m)" for k
    using glookup_None_iff [of m k] by (cases "glookup m k") (auto simp: registry_ok_def simp del: set_map)
  with assms Some show ?thesis
    by (simp add: AuthorizeCall_def grants_def covered_def prefix_allowed_iff del: set_map)
qed

section \<open>Properties of package tools\<close>

text \<open>
  C13: tool authorization is exactly the tenant's grants. For a registry built by its own
  operations and a context with a tenant, a call is authorized if and only if the tenant has been
  granted the tool's name, \<open>"*"\<close>, or a pattern \<open>"p:*"\<close> with the name starting with \<open>"p:"\<close>;
  granting and revoking change the grants of that tenant only. Without a tenant every call is
  authorized.
\<close>

theorem tool_authorization_exact:
  assumes "registry_ok r" and "t \<noteq> []" and "ctx_tenantID ctx = Some t"
  shows "(AuthorizeCall r ctx tool = None \<longleftrightarrow> covered (grants r t) tool)
    \<and> AuthorizeCall (GrantPermission r t tool) ctx tool = None
    \<and> (AuthorizeCall (GrantPermission r t' n) ctx tool = None
        \<longleftrightarrow> covered (if t' = t then insert n (grants r t) else grants r t) tool)
    \<and> (AuthorizeCall (RevokePermission r t' n) ctx tool = None
        \<longleftrightarrow> covered (if t' = t then grants r t - {n} else grants r t) tool)
    \<and> AuthorizeCall r (ctx\<lparr>ctx_tenantID := None\<rparr>) tool = None"
  using AuthorizeCall_iff [OF assms(1,3,2)]
    AuthorizeCall_iff [OF registry_ok_Grant [OF assms(1)] assms(3,2)]
    AuthorizeCall_iff [OF registry_ok_Revoke [OF assms(1)] assms(3,2)]
  by (simp add: grants_Grant grants_Revoke) (auto simp: covered_def AuthorizeCall_def)

definition granted_registry :: "unit ConcreteToolRegistry" where
  "granted_registry = GrantPermission NewConcreteToolRegistry ''acme'' ''fs:*''"

theorem tool_authorization_exact_witness:
  "AuthorizeCall granted_registry (Background\<lparr>ctx_tenantID := Some ''acme''\<rparr>) ''fs:read'' = None
   \<and> AuthorizeCall granted_registry (Background\<lparr>ctx_tenantID := Some ''acme''\<rparr>) ''net:get'' \<noteq> None"
proof -
  let ?ctx = "Background\<lparr>ctx_tenantID := Some ''acme''\<rparr>"
  have ok: "registry_ok granted_registry" unfolding granted_registry_def by (intro registry_ok_intros)
  have g: "grants granted_registry ''acme'' = {''fs:*''}"
    unfolding granted_registry_def by (simp add: grants_Grant) (simp add: grants_def NewConcreteToolRegistry_def)
  have "covered {''fs:*''} ''fs:read''"
    unfolding covered_def by (intro disjI2 exI [of _ "''fs''"]) (simp add: HasPrefix_def)
  moreover have "\<not> covered {''fs:*''} ''net:get''"
  proof
    assume "covered {''fs:*''} ''net:get''"
    then obtain pre where "pre @ '':*'' = ''fs:*''" and net: "HasPrefix ''net:get'' (pre @ '':'')"
      by (auto simp: covered_def)
    then have "pre @ '':*'' = ''fs'' @ '':*''" by simp
    then have "pre = ''fs''" by (simp only: append_same_eq)
    with net show False by (simp add: HasPrefix_def)
  qed
  moreover have "AuthorizeCall granted_registry ?ctx tool = None \<longleftrightarrow> covered {''fs:*''} tool" for tool
    using tool_authorization_exact [OF ok, of "''acme''" ?ctx tool] g by simp
  ultimately show ?thesis by simp
qed

subsection \<open>The dispatcher\<close>

text \<open>The invariant of the dispatcher after \<open>n\<close> steps.\<close>

definition exec_inv ::
  "'w ConcreteToolRegistry \<Rightarrow> Ctx \<Rightarrow> ToolCallPart list \<Rightarrow> nat \<Rightarrow> nat set \<times> ToolResultPart list \<times> 'w \<Rightarrow> bool" where
  "exec_inv r ctx calls n c = (case c of (pending, results, w) \<Rightarrow>
     pending \<subseteq> {..<length calls} \<and> length results = length calls \<and> n + card pending = length calls
     \<and> (\<forall>i < length calls. i \<notin> pending
          \<longrightarrow> (\<exists>w1 w2. run_call r ctx (calls ! i) w1 = (results ! i, w2))))"

lemma exec_inv_step:
  assumes "exec_inv r ctx calls n c" and "exec_step r ctx calls c d"
  shows "exec_inv r ctx calls (Suc n) d"
  using assms(2,1)
proof (cases rule: exec_step.cases)
  case (goroutine i pending w res w' results)
  from assms(1) goroutine have p: "pending \<subseteq> {..<length calls}" "length results = length calls"
    "n + card pending = length calls"
    and old: "\<forall>j < length calls. j \<notin> pending \<longrightarrow> (\<exists>w1 w2. run_call r ctx (calls ! j) w1 = (results ! j, w2))"
    by (simp_all add: exec_inv_def)
  from p(1) have "finite pending" by (rule finite_subset) simp
  with goroutine(3) have "card pending = Suc (card (pending - {i}))" by (metis card.remove)
  moreover have "\<exists>w1 w2. run_call r ctx (calls ! j) w1 = (results[i := res] ! j, w2)"
    if "j < length calls" "j \<notin> pending - {i}" for j
    using that old p(2) goroutine(4) by (cases "j = i") auto
  ultimately show ?thesis using p goroutine by (auto simp: exec_inv_def)
qed

lemma exec_reach_inv: "exec_reach r ctx calls n c w0 \<Longrightarrow> exec_inv r ctx calls n c"
  by (induction rule: exec_reach.induct) (auto simp: exec_inv_def [of _ _ _ 0] intro: exec_inv_step)

lemma run_call_id: "run_call r ctx tc w = (res, w') \<Longrightarrow> tr_CallID res = tc_CallID tc"
  by (auto simp: run_call_def split: option.splits prod.splits sum.splits)

lemma run_call_denied:
  "AuthorizeCall r ctx (tc_ToolName tc) = Some err \<Longrightarrow> run_call r ctx tc w = (res, w')
    \<Longrightarrow> res = \<lparr>tr_CallID = tc_CallID tc, tr_Result = ''PermissionDenied: '' @ Error err, tr_IsError = True\<rparr> \<and> w' = w"
  by (simp add: run_call_def)


text \<open>Every schedule that runs each call once is a run of the dispatcher.\<close>

lemma schedule_reach_from:
  assumes "exec_reach r ctx calls n (set sched, results, w) w0" and "distinct sched"
  shows "\<exists>results' w'. ExecuteConcurrent r ctx calls sched (results, w) = (results', w')
    \<and> exec_reach r ctx calls (n + length sched) ({}, results', w') w0"
  using assms
proof (induction sched arbitrary: n results w)
  case Nil
  then show ?case by simp
next
  case (Cons i sched)
  obtain res w1 where rc: "run_call r ctx (calls ! i) w = (res, w1)" by fastforce
  have "exec_step r ctx calls (set (i # sched), results, w) (set (i # sched) - {i}, results[i := res], w1)"
    by (rule exec_step.goroutine [OF _ rc]) simp
  moreover have "set (i # sched) - {i} = set sched" using Cons.prems(2) by auto
  ultimately have "exec_reach r ctx calls (Suc n) (set sched, results[i := res], w1) w0"
    using exec_reach.step [OF Cons.prems(1)] by metis
  from Cons.IH [OF this] Cons.prems(2) rc show ?case by auto
qed

lemma schedule_reach:
  assumes "distinct sched" and "set sched = {..<length calls}"
  obtains results w' where
    "ExecuteConcurrent r ctx calls sched (replicate (length calls) zero_result, w) = (results, w')"
    and "exec_reach r ctx calls (length calls) ({}, results, w') w"
proof -
  have "length sched = length calls" using assms by (metis card_lessThan distinct_card)
  with schedule_reach_from [of r ctx calls 0 sched "replicate (length calls) zero_result" w w] assms that
  show ?thesis using exec_reach.start [of r ctx calls w] by auto
qed

definition sample_registry :: "unit ConcreteToolRegistry" where
  "sample_registry = snd (Register NewConcreteToolRegistry EchoTool [])"


end
