(* ===== verification/Providers_Model.thy ===== *)
theory Providers_Model
  imports Tools_Model
begin

text \<open>
  Package \<open>providers\<close> and \<open>interfaces/llm.go\<close>: the OpenAI and Anthropic providers, the
  embedding client and the fallback chain.

  \<^bold>\<open>The wire.\<close> The HTTP client inside the provider's circuit breaker (a third-party package) is
  the parameter \<open>http_Do\<close>; \<open>http_URL\<close> is the outcome of parsing the URL and \<open>http_Done\<close> the
  non-blocking poll of the context's \<open>Done\<close> channel. A request body is the struct value that is
  encoded. JSON texts are read and written by the fields of \<open>Codec\<close>, one per type that the code
  encodes to or decodes from text.

  \<^bold>\<open>Streams.\<close> \<open>GenerateStream\<close> gives the values that its goroutine sends on the two channels,
  for a consumer that reads until they are closed.
\<close>

section \<open>Interface types (interfaces/llm.go)\<close>

datatype FinishReason =
    FinishReasonStop | FinishReasonLength | FinishReasonToolCalls | FinishReasonContentFilter
  | FinishReasonOther string

record TokenUsage =
  InputTokens :: int
  OutputTokens :: int
  TotalTokens :: int

record ModelInfo =
  mi_Name :: string
  mi_MaxTokens :: int
  mi_MaxOutputTokens :: int
  mi_SupportsTools :: bool

record LLMResponse =
  lr_Message :: Message
  lr_TokenUsage :: TokenUsage
  lr_FinishReason :: FinishReason

datatype DeltaType = DeltaTypeText | DeltaTypeToolCall | DeltaTypeDone

record TokenDelta =
  td_Type :: DeltaType
  td_Content :: string

text \<open>What a stream's goroutine sends: the deltas, and the errors on the error channel.\<close>

record StreamOut =
  so_Deltas :: "TokenDelta list"
  so_Errs :: "go_error list"

text \<open>A provider call panics, fails with an error or gives a value.\<close>

type_synonym 'a result = "gopanic + (go_error + 'a)"

record 'w LLMProvider =
  lp_ModelInfo :: ModelInfo
  lp_Generate :: "Ctx \<Rightarrow> AgentState \<Rightarrow> 'w \<Rightarrow> LLMResponse result \<times> 'w"
  lp_GenerateStream :: "Ctx \<Rightarrow> AgentState \<Rightarrow> 'w \<Rightarrow> StreamOut result \<times> 'w"

section \<open>The OpenAI wire types (providers/openai.go)\<close>

record openAIFuncCall =
  ofc_Name :: string
  ofc_Arguments :: string

record openAIToolCall =
  otc_ID :: string
  otc_Type :: string
  otc_Function :: openAIFuncCall

record openAIMsg =
  om_Role :: string
  om_Content :: string
  om_Name :: string
  om_ToolCalls :: "openAIToolCall list"
  om_ToolCallID :: string

record openAIFuncSchema =
  ofs_Name :: string
  ofs_Description :: string
  ofs_Parameters :: gvars

record openAITool =
  ot_Type :: string
  ot_Function :: openAIFuncSchema

record openAIReq =
  or_Model :: string
  or_Messages :: "openAIMsg list"
  or_Tools :: "openAITool list"
  or_Stream :: bool

record openAIChoice =
  oc_Message :: openAIMsg
  oc_FinishReason :: string

record openAIResp =
  ors_Choices :: "openAIChoice list"
  ors_PromptTokens :: int
  ors_CompletionTokens :: int
  ors_TotalTokens :: int

text \<open>A stream chunk: the deltas of its choices, each with content and tool calls.\<close>

record openAIDelta =
  od_Content :: string
  od_ToolCalls :: "openAIToolCall list"

type_synonym openAIStreamChunk = "openAIDelta list"

section \<open>The Anthropic wire types (providers/anthropic.go)\<close>

text \<open>The field \<open>Input any\<close>: nil, a \<open>json.RawMessage\<close> (in requests) or a decoded value.\<close>

datatype anthropic_input = InputNil | InputRaw string | InputAny gany

record anthropicPart =
  ap_Type :: string
  ap_Text :: string
  ap_ID :: string
  ap_Name :: string
  ap_Input :: anthropic_input
  ap_ToolUseID :: string
  ap_Content :: string

definition zero_apart :: anthropicPart where
  "zero_apart = \<lparr>ap_Type = [], ap_Text = [], ap_ID = [], ap_Name = [], ap_Input = InputNil,
     ap_ToolUseID = [], ap_Content = []\<rparr>"

record anthropicMsg =
  am_Role :: string
  am_Content :: "anthropicPart list"

record anthropicTool =
  at_Name :: string
  at_Description :: string
  at_InputSchema :: gvars

record anthropicReq =
  ar_Model :: string
  ar_System :: string
  ar_Messages :: "anthropicMsg list"
  ar_MaxTokens :: int
  ar_Tools :: "anthropicTool list"
  ar_Stream :: bool

record anthropicResp =
  ars_Content :: "anthropicPart list"
  ars_InputTokens :: int
  ars_OutputTokens :: int

record anthropicEvent =
  ae_Type :: string
  ae_DeltaType :: string
  ae_DeltaText :: string
  ae_PartialJson :: string
  ae_BlockName :: string
  ae_BlockID :: string

record embeddingReq =
  er_Input :: string
  er_Model :: string

section \<open>HTTP and JSON texts\<close>

datatype HttpBody = OpenAIBody openAIReq | AnthropicBody anthropicReq | EmbeddingBody embeddingReq

record HttpRequest =
  hq_Method :: string
  hq_URL :: string
  hq_Headers :: "(string, string) gomap"
  hq_Body :: HttpBody

text \<open>A response: the status, the bytes of its body and the error that ends reading it (nil: \<open>io.EOF\<close>).\<close>

record HttpResponse =
  hp_StatusCode :: int
  hp_Body :: string
  hp_ReadErr :: "go_error option"

record 'w HttpEnv =
  http_URL :: "string \<Rightarrow> go_error option"
  http_Do :: "Ctx \<Rightarrow> HttpRequest \<Rightarrow> 'w \<Rightarrow> (go_error + HttpResponse) \<times> 'w"
  http_Done :: "Ctx \<Rightarrow> 'w \<Rightarrow> go_error option \<times> 'w"

record Codec =
  cd_ArgsText :: "gvars option \<Rightarrow> string"
  cd_ParseArgs :: "string \<Rightarrow> gvars option"
  cd_OpenAIResp :: "HttpResponse \<Rightarrow> go_error + openAIResp"
  cd_OpenAIChunk :: "string \<Rightarrow> openAIStreamChunk option"
  cd_AnthropicResp :: "HttpResponse \<Rightarrow> go_error + anthropicResp"
  cd_AnthropicEvent :: "string \<Rightarrow> anthropicEvent option"
  cd_EmbeddingResp :: "HttpResponse \<Rightarrow> go_error + rat list list"

text \<open>
  \<open>bufio.Scanner\<close> with its default split function: lines without their \<open>"\n"\<close> or \<open>"\r\n"\<close>,
  no empty line after the last newline, and \<open>bufio.ErrTooLong\<close> at a line that does not fit the
  buffer of 64 KiB.
\<close>

definition drop_cr :: "string \<Rightarrow> string" where
  "drop_cr l = (if l \<noteq> [] \<and> last l = CHR 0x0D then butlast l else l)"

definition ErrTooLong :: go_error where
  "ErrTooLong = ErrorText ''bufio.Scanner: token too long''"

fun scan_raw :: "string list \<Rightarrow> go_error option \<Rightarrow> string list \<times> go_error option" where
  "scan_raw [] rerr = ([], rerr)"
| "scan_raw (l # ls) rerr =
     (if ls = [] \<and> l = [] then ([], rerr)
      else if 65536 \<le> length l then ([], Some ErrTooLong)
      else (case scan_raw ls rerr of (out, e) \<Rightarrow> (drop_cr l # out, e)))"

definition scan_lines :: "HttpResponse \<Rightarrow> string list \<times> go_error option" where
  "scan_lines resp = scan_raw (Split (hp_Body resp) (CHR 0x0A)) (hp_ReadErr resp)"

section \<open>The OpenAI provider\<close>

record OpenAIOptions =
  oo_APIKey :: string
  oo_BaseURL :: string
  oo_Model :: string

definition OpenAI_ModelInfo :: "OpenAIOptions \<Rightarrow> ModelInfo" where
  "OpenAI_ModelInfo opts = \<lparr>mi_Name = oo_Model opts, mi_MaxTokens = 128000,
     mi_MaxOutputTokens = 4096, mi_SupportsTools = True\<rparr>"

fun mapRole :: "Role \<Rightarrow> string" where
  "mapRole RoleUser = ''user''"
| "mapRole RoleAssistant = ''assistant''"
| "mapRole RoleSystem = ''system''"
| "mapRole RoleTool = ''tool''"
| "mapRole (RoleOther _) = ''unknown''"

definition stringifyArgs :: "Codec \<Rightarrow> gvars option \<Rightarrow> string" where
  "stringifyArgs cd args = (if vars_json_ok args then cd_ArgsText cd args else [])"

text \<open>The loop over the parts: the message so far and the content builder.\<close>

fun map_parts :: "Codec \<Rightarrow> Part list \<Rightarrow> openAIMsg \<times> string \<Rightarrow> (openAIMsg \<times> string) option" where
  "map_parts cd [] mb = Some mb"
| "map_parts cd (p # ps) (msg, builder) =
     (if p_Type p = PartTypeText then map_parts cd ps (msg, builder @ p_Text p)
      else if p_Type p = PartTypeToolCall then
        (case p_ToolCall p of None \<Rightarrow> None
         | Some c \<Rightarrow> map_parts cd ps (msg\<lparr>om_ToolCalls := om_ToolCalls msg @
             [\<lparr>otc_ID = tc_CallID c, otc_Type = ''function'',
               otc_Function = \<lparr>ofc_Name = tc_ToolName c, ofc_Arguments = stringifyArgs cd (tc_Arguments c)\<rparr>\<rparr>]\<rparr>, builder))
      else if p_Type p = PartTypeToolResult then
        (case p_ToolResult p of None \<Rightarrow> None
         | Some r \<Rightarrow> map_parts cd ps (msg\<lparr>om_ToolCallID := tr_CallID r, om_Content := tr_Result r\<rparr>, builder))
      else map_parts cd ps (msg, builder))"

definition role_msg :: "string \<Rightarrow> openAIMsg" where
  "role_msg role = \<lparr>om_Role = role, om_Content = [], om_Name = [], om_ToolCalls = [], om_ToolCallID = []\<rparr>"

text \<open>The messages in order; \<open>None\<close> is the panic of a part whose announced payload is nil.\<close>

fun map_messages :: "Codec \<Rightarrow> Message list \<Rightarrow> openAIMsg list option" where
  "map_messages cd [] = Some []"
| "map_messages cd (m # ms) =
     (if mapRole (m_Role m) = ''unknown'' then map_messages cd ms
      else (case map_parts cd (m_Parts m) (role_msg (mapRole (m_Role m)), []) of
        None \<Rightarrow> None
      | Some (msg, builder) \<Rightarrow> map_option (\<lambda>out.
          (if builder \<noteq> [] \<and> om_Content msg = [] then msg\<lparr>om_Content := builder\<rparr> else msg) # out)
          (map_messages cd ms)))"

definition mapMessages :: "Codec \<Rightarrow> Message list \<Rightarrow> string \<Rightarrow> openAIMsg list option" where
  "mapMessages cd msgs sysPrompt = map_option (\<lambda>out.
     (if sysPrompt \<noteq> [] then [role_msg ''system''\<lparr>om_Content := sysPrompt\<rparr>] else []) @ out) (map_messages cd msgs)"

definition system_prompt :: "AgentState \<Rightarrow> string" where
  "system_prompt state = (case map_string (vars state) ''system_prompt'' of None \<Rightarrow> [] | Some sp \<Rightarrow> sp)"

text \<open>The tools in the variable \<open>"tools"\<close>, when it holds an \<open>[]interfaces.Tool\<close>.\<close>

definition state_tools :: "AgentState \<Rightarrow> (string \<times> string \<times> gvars) list" where
  "state_tools state = (case glookup (vars state) ''tools'' of
     Some (GTools ts) \<Rightarrow> map (\<lambda>(name, desc, ty, props, required).
       (name, desc, [(''type'', GString ty), (''properties'', GMap (map (\<lambda>(k, v). (k, GMap v)) props))]
          @ (if required = [] then [] else [(''required'', GList (map GString required))]))) ts
   | _ \<Rightarrow> [])"

definition OpenAI_buildRequestInfo ::
  "Codec \<Rightarrow> OpenAIOptions \<Rightarrow> AgentState \<Rightarrow> bool \<Rightarrow> openAIReq option" where
  "OpenAI_buildRequestInfo cd opts state stream = map_option (\<lambda>msgs.
     \<lparr>or_Model = oo_Model opts, or_Messages = msgs,
       or_Tools = map (\<lambda>(name, desc, ps). \<lparr>ot_Type = ''function'',
         ot_Function = \<lparr>ofs_Name = name, ofs_Description = desc, ofs_Parameters = ps\<rparr>\<rparr>) (state_tools state),
       or_Stream = stream\<rparr>) (mapMessages cd (Messages state) (system_prompt state))"

definition marshal_openai :: "openAIReq \<Rightarrow> go_error option" where
  "marshal_openai req = (if (\<forall>t \<in> set (or_Tools req). vars_json_ok (Some (ofs_Parameters (ot_Function t))))
     then None else Some marshal_error)"

definition second :: duration where "second = 1000000000"

text \<open>The classification of a response that is not 200, shared by both providers up to names.\<close>

definition http_error :: "string \<Rightarrow> string \<Rightarrow> HttpResponse \<Rightarrow> go_error" where
  "http_error node pre resp =
     (let errBody = ErrorText (pre @ itoa (hp_StatusCode resp) @ '': '' @ hp_Body resp);
          code = hp_StatusCode resp in
      if code = 429 then NewRetriableError node errBody (5 * second)
      else if code \<in> {400, 401, 403, 404} then NewFatalError node (Some errBody)
      else if code \<in> {500, 502, 503, 504} then NewRetriableError node errBody (5 * second)
      else NewFatalError node (Some errBody))"

definition OpenAI_handleHTTPError :: "HttpResponse \<Rightarrow> go_error" where
  "OpenAI_handleHTTPError = http_error ''OpenAIProvider'' ''http ''"

definition mapResponse :: "Codec \<Rightarrow> openAIChoice \<Rightarrow> openAIResp \<Rightarrow> LLMResponse" where
  "mapResponse cd choice oResp =
     \<lparr>lr_Message = zero_Message\<lparr>m_Role := RoleAssistant, m_Parts :=
        (if om_Content (oc_Message choice) \<noteq> [] then [text_part (om_Content (oc_Message choice))] else [])
        @ map (\<lambda>tc. tool_call_part \<lparr>tc_CallID = otc_ID tc, tc_ToolName = ofc_Name (otc_Function tc),
            tc_Arguments = cd_ParseArgs cd (ofc_Arguments (otc_Function tc))\<rparr>) (om_ToolCalls (oc_Message choice))\<rparr>,
      lr_TokenUsage = \<lparr>InputTokens = ors_PromptTokens oResp, OutputTokens = ors_CompletionTokens oResp,
        TotalTokens = ors_TotalTokens oResp\<rparr>,
      lr_FinishReason = FinishReasonOther []\<rparr>"

definition OpenAI_request :: "OpenAIOptions \<Rightarrow> string \<Rightarrow> HttpBody \<Rightarrow> bool \<Rightarrow> HttpRequest" where
  "OpenAI_request opts path body stream = \<lparr>hq_Method = ''POST'', hq_URL = oo_BaseURL opts @ path,
     hq_Headers = [(''Content-Type'', ''application/json'')]
       @ (if oo_APIKey opts \<noteq> [] then [(''Authorization'', ''Bearer '' @ oo_APIKey opts)] else [])
       @ (if stream then [(''Accept'', ''text/event-stream'')] else []),
     hq_Body = body\<rparr>"

text \<open>
  Sending a prepared request: the prologue that \<open>Generate\<close>, \<open>GenerateStream\<close> and \<open>EmbedText\<close>
  have in common. An encoding error and an invalid URL are fatal, a transport error (or an open
  breaker) is retriable.
\<close>

definition send ::
  "'w HttpEnv \<Rightarrow> string \<Rightarrow> Ctx \<Rightarrow> go_error option \<Rightarrow> HttpRequest \<Rightarrow> 'w \<Rightarrow> (go_error + HttpResponse) \<times> 'w" where
  "send env node ctx marshalled req w = (case marshalled of
     Some err \<Rightarrow> (Inl (NewFatalError node (Some err)), w)
   | None \<Rightarrow> (case http_URL env (hq_URL req) of
       Some err \<Rightarrow> (Inl (NewFatalError node (Some err)), w)
     | None \<Rightarrow> (case http_Do env ctx req w of
         (Inl err, w1) \<Rightarrow> (Inl (NewRetriableError node err (2 * second)), w1)
       | (Inr resp, w1) \<Rightarrow> (Inr resp, w1))))"

definition OpenAI_Generate ::
  "Codec \<Rightarrow> 'w HttpEnv \<Rightarrow> OpenAIOptions \<Rightarrow> Ctx \<Rightarrow> AgentState \<Rightarrow> 'w \<Rightarrow> LLMResponse result \<times> 'w" where
  "OpenAI_Generate cd env opts ctx state w = (case OpenAI_buildRequestInfo cd opts state False of
     None \<Rightarrow> (Inl NilDereference, w)
   | Some reqBody \<Rightarrow> (case send env ''OpenAIProvider'' ctx (marshal_openai reqBody)
         (OpenAI_request opts ''/chat/completions'' (OpenAIBody reqBody) False) w of
       (Inl err, w1) \<Rightarrow> (Inr (Inl err), w1)
     | (Inr resp, w1) \<Rightarrow>
         if hp_StatusCode resp \<noteq> 200 then (Inr (Inl (OpenAI_handleHTTPError resp)), w1)
         else (case cd_OpenAIResp cd resp of
           Inl err \<Rightarrow> (Inr (Inl (NewFatalError ''OpenAIProvider'' (Some (Errorf ''json unmarshal error: '' err [])))), w1)
         | Inr oResp \<Rightarrow> (case ors_Choices oResp of
             [] \<Rightarrow> (Inr (Inl (NewFatalError ''OpenAIProvider'' (Some (ErrorText ''empty choices returned'')))), w1)
           | choice # _ \<Rightarrow> (Inr (Inr (mapResponse cd choice oResp)), w1)))))"

text \<open>The deltas of one decoded chunk; later choices and later tool calls are not looked at.\<close>

definition chunk_deltas :: "openAIStreamChunk \<Rightarrow> TokenDelta list" where
  "chunk_deltas chunk = (case chunk of
     [] \<Rightarrow> []
   | delta # _ \<Rightarrow>
       (if od_Content delta \<noteq> [] then [\<lparr>td_Type = DeltaTypeText, td_Content = od_Content delta\<rparr>] else [])
       @ (case od_ToolCalls delta of
           [] \<Rightarrow> []
         | tc # _ \<Rightarrow> [\<lparr>td_Type = DeltaTypeToolCall, td_Content =
             (if ofc_Name (otc_Function tc) \<noteq> [] then ''ToolCall:'' @ otc_ID tc @ ''|'' @ ofc_Name (otc_Function tc)
              else ofc_Arguments (otc_Function tc))\<rparr>]))"

definition done_delta :: TokenDelta where
  "done_delta = \<lparr>td_Type = DeltaTypeDone, td_Content = []\<rparr>"

text \<open>
  The scanner loop of both providers: before each line the context is polled; \<open>handle\<close> gives
  for a line the deltas to send and whether the loop returns.
\<close>

fun stream_loop ::
  "'w HttpEnv \<Rightarrow> string \<Rightarrow> Ctx \<Rightarrow> (string \<Rightarrow> TokenDelta list \<times> bool) \<Rightarrow> go_error option \<Rightarrow> string list \<Rightarrow> 'w
    \<Rightarrow> StreamOut \<times> 'w" where
  "stream_loop env node ctx handle serr [] w =
     (\<lparr>so_Deltas = [], so_Errs = (case serr of None \<Rightarrow> [] | Some err \<Rightarrow> [NewRetriableError node err (2 * second)])\<rparr>, w)"
| "stream_loop env node ctx handle serr (line # lines) w = (case http_Done env ctx w of
     (Some err, w1) \<Rightarrow> (\<lparr>so_Deltas = [], so_Errs = [NewFatalError node (Some err)]\<rparr>, w1)
   | (None, w1) \<Rightarrow> (case handle line of
       (ds, True) \<Rightarrow> (\<lparr>so_Deltas = ds, so_Errs = []\<rparr>, w1)
     | (ds, False) \<Rightarrow> (case stream_loop env node ctx handle serr lines w1 of
         (out, w2) \<Rightarrow> (out\<lparr>so_Deltas := ds @ so_Deltas out\<rparr>, w2))))"

definition openai_line :: "Codec \<Rightarrow> string \<Rightarrow> TokenDelta list \<times> bool" where
  "openai_line cd line =
     (if \<not> HasPrefix line ''data: '' then ([], False)
      else (let data = TrimPrefix line ''data: '' in
        if data = ''[DONE]'' then ([done_delta], True)
        else (case cd_OpenAIChunk cd data of None \<Rightarrow> ([], False) | Some chunk \<Rightarrow> (chunk_deltas chunk, False))))"

definition OpenAI_GenerateStream ::
  "Codec \<Rightarrow> 'w HttpEnv \<Rightarrow> OpenAIOptions \<Rightarrow> Ctx \<Rightarrow> AgentState \<Rightarrow> 'w \<Rightarrow> StreamOut result \<times> 'w" where
  "OpenAI_GenerateStream cd env opts ctx state w = (case OpenAI_buildRequestInfo cd opts state True of
     None \<Rightarrow> (Inl NilDereference, w)
   | Some reqBody \<Rightarrow> (case send env ''OpenAIProvider'' ctx (marshal_openai reqBody)
         (OpenAI_request opts ''/chat/completions'' (OpenAIBody reqBody) True) w of
       (Inl err, w1) \<Rightarrow> (Inr (Inl err), w1)
     | (Inr resp, w1) \<Rightarrow>
         if hp_StatusCode resp \<noteq> 200 then (Inr (Inl (OpenAI_handleHTTPError resp)), w1)
         else (case scan_lines resp of (lines, serr) \<Rightarrow>
           (case stream_loop env ''OpenAIStream'' ctx (openai_line cd) serr lines w1 of
              (out, w2) \<Rightarrow> (Inr (Inr out), w2)))))"

definition NewOpenAIProvider :: "Codec \<Rightarrow> 'w HttpEnv \<Rightarrow> OpenAIOptions \<Rightarrow> 'w LLMProvider" where
  "NewOpenAIProvider cd env opts = \<lparr>lp_ModelInfo = OpenAI_ModelInfo opts,
     lp_Generate = OpenAI_Generate cd env opts, lp_GenerateStream = OpenAI_GenerateStream cd env opts\<rparr>"

section \<open>The Anthropic provider\<close>

type_synonym AnthropicOptions = OpenAIOptions

definition Anthropic_ModelInfo :: "AnthropicOptions \<Rightarrow> ModelInfo" where
  "Anthropic_ModelInfo opts = \<lparr>mi_Name = oo_Model opts, mi_MaxTokens = 200000,
     mi_MaxOutputTokens = 8192, mi_SupportsTools = True\<rparr>"

fun anthropic_parts :: "Codec \<Rightarrow> Part list \<Rightarrow> anthropicPart list option" where
  "anthropic_parts cd [] = Some []"
| "anthropic_parts cd (p # ps) =
     (if p_Type p = PartTypeText then
        map_option (\<lambda>out. zero_apart\<lparr>ap_Type := ''text'', ap_Text := p_Text p\<rparr> # out) (anthropic_parts cd ps)
      else if p_Type p = PartTypeToolCall then
        (case p_ToolCall p of None \<Rightarrow> None
         | Some c \<Rightarrow> map_option (\<lambda>out. zero_apart\<lparr>ap_Type := ''tool_use'', ap_ID := tc_CallID c,
             ap_Name := tc_ToolName c, ap_Input := InputRaw (stringifyArgs cd (tc_Arguments c))\<rparr> # out) (anthropic_parts cd ps))
      else if p_Type p = PartTypeToolResult then
        (case p_ToolResult p of None \<Rightarrow> None
         | Some r \<Rightarrow> map_option (\<lambda>out. zero_apart\<lparr>ap_Type := ''tool_result'', ap_ToolUseID := tr_CallID r,
             ap_Content := tr_Result r\<rparr> # out) (anthropic_parts cd ps))
      else anthropic_parts cd ps)"

fun anthropic_messages :: "Codec \<Rightarrow> Message list \<Rightarrow> anthropicMsg list option" where
  "anthropic_messages cd [] = Some []"
| "anthropic_messages cd (m # ms) =
     (let role = (if mapRole (m_Role m) = ''tool'' then ''user'' else mapRole (m_Role m)) in
      if m_Role m = RoleSystem then anthropic_messages cd ms
      else if role = ''unknown'' then anthropic_messages cd ms
      else (case anthropic_parts cd (m_Parts m) of
        None \<Rightarrow> None
      | Some content \<Rightarrow> map_option (\<lambda>out.
          if content \<noteq> [] then \<lparr>am_Role = role, am_Content = content\<rparr> # out else out) (anthropic_messages cd ms)))"

definition Anthropic_buildRequestInfo ::
  "Codec \<Rightarrow> AnthropicOptions \<Rightarrow> AgentState \<Rightarrow> bool \<Rightarrow> anthropicReq option" where
  "Anthropic_buildRequestInfo cd opts state stream = map_option (\<lambda>msgs.
     \<lparr>ar_Model = oo_Model opts, ar_System = system_prompt state, ar_Messages = msgs, ar_MaxTokens = 8192,
       ar_Tools = map (\<lambda>(name, desc, ps). \<lparr>at_Name = name, at_Description = desc, at_InputSchema = ps\<rparr>) (state_tools state),
       ar_Stream = stream\<rparr>) (anthropic_messages cd (Messages state))"

text \<open>Encoding the request: an empty \<open>json.RawMessage\<close> is not valid JSON.\<close>

definition marshal_anthropic :: "anthropicReq \<Rightarrow> go_error option" where
  "marshal_anthropic req =
     (if (\<forall>m \<in> set (ar_Messages req). \<forall>p \<in> set (am_Content m). ap_Input p \<noteq> InputRaw [])
         \<and> (\<forall>t \<in> set (ar_Tools req). vars_json_ok (Some (at_InputSchema t)))
      then None else Some marshal_error)"

definition Anthropic_handleHTTPError :: "HttpResponse \<Rightarrow> go_error" where
  "Anthropic_handleHTTPError = http_error ''AnthropicProvider'' ''anthropic http ''"

text \<open>Encoding a decoded input and decoding it into a map.\<close>

fun input_args :: "anthropic_input \<Rightarrow> gvars option" where
  "input_args (InputAny (GMap m)) = Some (json_vars m)"
| "input_args _ = None"

fun response_parts :: "anthropicPart list \<Rightarrow> Part list" where
  "response_parts [] = []"
| "response_parts (c # cs) =
     (if ap_Type c = ''text'' then text_part (ap_Text c) # response_parts cs
      else if ap_Type c = ''tool_use'' then
        tool_call_part \<lparr>tc_CallID = ap_ID c, tc_ToolName = ap_Name c, tc_Arguments = input_args (ap_Input c)\<rparr> # response_parts cs
      else response_parts cs)"

definition Anthropic_request :: "AnthropicOptions \<Rightarrow> HttpBody \<Rightarrow> bool \<Rightarrow> HttpRequest" where
  "Anthropic_request opts body stream = \<lparr>hq_Method = ''POST'', hq_URL = oo_BaseURL opts @ ''/messages'',
     hq_Headers = [(''Content-Type'', ''application/json''), (''x-api-key'', oo_APIKey opts),
       (''anthropic-version'', ''2023-06-01'')] @ (if stream then [(''Accept'', ''text/event-stream'')] else []),
     hq_Body = body\<rparr>"

definition Anthropic_Generate ::
  "Codec \<Rightarrow> 'w HttpEnv \<Rightarrow> AnthropicOptions \<Rightarrow> Ctx \<Rightarrow> AgentState \<Rightarrow> 'w \<Rightarrow> LLMResponse result \<times> 'w" where
  "Anthropic_Generate cd env opts ctx state w = (case Anthropic_buildRequestInfo cd opts state False of
     None \<Rightarrow> (Inl NilDereference, w)
   | Some reqBody \<Rightarrow> (case send env ''AnthropicProvider'' ctx (marshal_anthropic reqBody)
         (Anthropic_request opts (AnthropicBody reqBody) False) w of
       (Inl err, w1) \<Rightarrow> (Inr (Inl err), w1)
     | (Inr resp, w1) \<Rightarrow>
         if hp_StatusCode resp \<noteq> 200 then (Inr (Inl (Anthropic_handleHTTPError resp)), w1)
         else (case cd_AnthropicResp cd resp of
           Inl err \<Rightarrow> (Inr (Inl (NewFatalError ''AnthropicProvider'' (Some (Errorf ''json decoding error: '' err [])))), w1)
         | Inr aResp \<Rightarrow>
             if ars_Content aResp = [] then
               (Inr (Inl (NewFatalError ''AnthropicProvider'' (Some (ErrorText ''empty choices returned'')))), w1)
             else (Inr (Inr \<lparr>lr_Message = zero_Message\<lparr>m_Role := RoleAssistant, m_Parts := response_parts (ars_Content aResp)\<rparr>,
               lr_TokenUsage = \<lparr>InputTokens = ars_InputTokens aResp, OutputTokens = ars_OutputTokens aResp,
                 TotalTokens = wrap64 (ars_InputTokens aResp + ars_OutputTokens aResp)\<rparr>,
               lr_FinishReason = FinishReasonOther []\<rparr>), w1))))"

definition event_deltas :: "anthropicEvent \<Rightarrow> TokenDelta list \<times> bool" where
  "event_deltas ev =
     (if ae_Type ev = ''content_block_delta'' then
        ((if ae_DeltaType ev = ''text_delta'' then [\<lparr>td_Type = DeltaTypeText, td_Content = ae_DeltaText ev\<rparr>]
          else if ae_DeltaType ev = ''input_json_delta'' then [\<lparr>td_Type = DeltaTypeToolCall, td_Content = ae_PartialJson ev\<rparr>]
          else []), False)
      else if ae_Type ev = ''content_block_start'' then
        ((if ae_BlockName ev \<noteq> [] then
            [\<lparr>td_Type = DeltaTypeToolCall, td_Content = ''ToolCall:'' @ ae_BlockID ev @ ''|'' @ ae_BlockName ev\<rparr>]
          else []), False)
      else if ae_Type ev = ''message_stop'' then ([done_delta], True)
      else ([], False))"

definition anthropic_line :: "Codec \<Rightarrow> string \<Rightarrow> TokenDelta list \<times> bool" where
  "anthropic_line cd line =
     (if \<not> HasPrefix line ''data: '' then ([], False)
      else (case cd_AnthropicEvent cd (TrimPrefix line ''data: '') of None \<Rightarrow> ([], False) | Some ev \<Rightarrow> event_deltas ev))"

definition Anthropic_GenerateStream ::
  "Codec \<Rightarrow> 'w HttpEnv \<Rightarrow> AnthropicOptions \<Rightarrow> Ctx \<Rightarrow> AgentState \<Rightarrow> 'w \<Rightarrow> StreamOut result \<times> 'w" where
  "Anthropic_GenerateStream cd env opts ctx state w = (case Anthropic_buildRequestInfo cd opts state True of
     None \<Rightarrow> (Inl NilDereference, w)
   | Some reqBody \<Rightarrow> (case send env ''AnthropicProvider'' ctx (marshal_anthropic reqBody)
         (Anthropic_request opts (AnthropicBody reqBody) True) w of
       (Inl err, w1) \<Rightarrow> (Inr (Inl err), w1)
     | (Inr resp, w1) \<Rightarrow>
         if hp_StatusCode resp \<noteq> 200 then (Inr (Inl (Anthropic_handleHTTPError resp)), w1)
         else (case scan_lines resp of (lines, serr) \<Rightarrow>
           (case stream_loop env ''AnthropicStream'' ctx (anthropic_line cd) serr lines w1 of
              (out, w2) \<Rightarrow> (Inr (Inr out), w2)))))"

definition NewAnthropicProvider :: "Codec \<Rightarrow> 'w HttpEnv \<Rightarrow> AnthropicOptions \<Rightarrow> 'w LLMProvider" where
  "NewAnthropicProvider cd env opts = \<lparr>lp_ModelInfo = Anthropic_ModelInfo opts,
     lp_Generate = Anthropic_Generate cd env opts, lp_GenerateStream = Anthropic_GenerateStream cd env opts\<rparr>"

section \<open>Embeddings (providers/openai\_embedding.go)\<close>

definition NewOpenAIEmbeddingProvider :: "OpenAIOptions \<Rightarrow> OpenAIOptions" where
  "NewOpenAIEmbeddingProvider opts = opts\<lparr>
     oo_BaseURL := (if oo_BaseURL opts = [] then ''https://api.openai.com/v1'' else oo_BaseURL opts),
     oo_Model := (if oo_Model opts = [] then ''text-embedding-3-small'' else oo_Model opts)\<rparr>"

definition EmbedText ::
  "Codec \<Rightarrow> 'w HttpEnv \<Rightarrow> OpenAIOptions \<Rightarrow> Ctx \<Rightarrow> string \<Rightarrow> 'w \<Rightarrow> (go_error + rat list) \<times> 'w" where
  "EmbedText cd env opts ctx text w = (case send env ''OpenAIEmbeddingProvider'' ctx None
       (OpenAI_request opts ''/embeddings'' (EmbeddingBody \<lparr>er_Input = text, er_Model = oo_Model opts\<rparr>) False) w of
     (Inl err, w1) \<Rightarrow> (Inl err, w1)
   | (Inr resp, w1) \<Rightarrow>
       if hp_StatusCode resp \<noteq> 200 then
         (Inl (NewFatalError ''OpenAIEmbeddingProvider'' (Some (ErrorText (''http '' @ itoa (hp_StatusCode resp) @ '': '' @ hp_Body resp)))), w1)
       else (case cd_EmbeddingResp cd resp of
         Inl err \<Rightarrow> (Inl (NewFatalError ''OpenAIEmbeddingProvider'' (Some (Errorf ''json unmarshal error: '' err []))), w1)
       | Inr data \<Rightarrow> (case data of
           [] \<Rightarrow> (Inl (NewFatalError ''OpenAIEmbeddingProvider'' (Some (ErrorText ''empty embedding data returned''))), w1)
         | v # _ \<Rightarrow> (Inr v, w1))))"

section \<open>The fallback chain (providers/fallback.go)\<close>

definition is_fatal :: "go_error \<Rightarrow> bool" where
  "is_fatal err = (case err of AgentErr ErrCategoryFatal _ _ _ \<Rightarrow> True | _ \<Rightarrow> False)"

text \<open>\<open>fmt.Errorf\<close> with \<open>%w\<close> of a nil error prints \<open>%!w(<nil>)\<close> and wraps nothing.\<close>

definition exhausted :: "string \<Rightarrow> go_error option \<Rightarrow> go_error" where
  "exhausted pre lastErr = (case lastErr of None \<Rightarrow> ErrorText (pre @ ''%!w(<nil>)'') | Some err \<Rightarrow> Errorf pre err [])"

text \<open>The loop over the providers, for either of the two operations \<open>op\<close>.\<close>

fun try_chain ::
  "('p \<Rightarrow> 'w \<Rightarrow> 'a result \<times> 'w) \<Rightarrow> string \<Rightarrow> 'p list \<Rightarrow> go_error option \<Rightarrow> 'w \<Rightarrow> 'a result \<times> 'w" where
  "try_chain op pre [] lastErr w = (Inr (Inl (exhausted pre lastErr)), w)"
| "try_chain op pre (p # ps) lastErr w = (case op p w of
     (Inl panic, w1) \<Rightarrow> (Inl panic, w1)
   | (Inr (Inr resp), w1) \<Rightarrow> (Inr (Inr resp), w1)
   | (Inr (Inl err), w1) \<Rightarrow>
       if is_fatal err then (Inr (Inl err), w1) else try_chain op pre ps (Some err) w1)"

definition Fallback_ModelInfo :: "'w LLMProvider list \<Rightarrow> ModelInfo" where
  "Fallback_ModelInfo chain = (case chain of
     p # _ \<Rightarrow> lp_ModelInfo p
   | [] \<Rightarrow> \<lparr>mi_Name = ''fallback-chain-empty'', mi_MaxTokens = 0, mi_MaxOutputTokens = 0, mi_SupportsTools = False\<rparr>)"

definition Fallback_Generate ::
  "'w LLMProvider list \<Rightarrow> Ctx \<Rightarrow> AgentState \<Rightarrow> 'w \<Rightarrow> LLMResponse result \<times> 'w" where
  "Fallback_Generate chain ctx state w =
     try_chain (\<lambda>p. lp_Generate p ctx state) ''fallback chain exhausted: '' chain None w"

definition Fallback_GenerateStream ::
  "'w LLMProvider list \<Rightarrow> Ctx \<Rightarrow> AgentState \<Rightarrow> 'w \<Rightarrow> StreamOut result \<times> 'w" where
  "Fallback_GenerateStream chain ctx state w =
     try_chain (\<lambda>p. lp_GenerateStream p ctx state) ''fallback chain stream exhausted: '' chain None w"

definition NewFallbackChainProvider :: "'w LLMProvider list \<Rightarrow> 'w LLMProvider" where
  "NewFallbackChainProvider chain = \<lparr>lp_ModelInfo = Fallback_ModelInfo chain,
     lp_Generate = Fallback_Generate chain, lp_GenerateStream = Fallback_GenerateStream chain\<rparr>"

section \<open>Lemmas: the chain\<close>

text \<open>
  The providers of a chain all fail with errors that are not fatal: \<open>falls_through op e ps w e' w'\<close>
  with \<open>e'\<close> the last error (\<open>e\<close> if there is no provider).
\<close>

inductive falls_through ::
  "('p \<Rightarrow> 'w \<Rightarrow> 'a result \<times> 'w) \<Rightarrow> go_error option \<Rightarrow> 'p list \<Rightarrow> 'w \<Rightarrow> go_error option \<Rightarrow> 'w \<Rightarrow> bool"
  for op where
  nil: "falls_through op e [] w e w"
| cons: "op p w = (Inr (Inl err), w1) \<Longrightarrow> \<not> is_fatal err \<Longrightarrow> falls_through op (Some err) ps w1 e' w2
    \<Longrightarrow> falls_through op e (p # ps) w e' w2"

inductive_cases falls_through_NilE: "falls_through op e [] w e' w'"
inductive_cases falls_through_ConsE: "falls_through op e (p # ps) w e' w'"

definition decisive :: "'a result \<Rightarrow> bool" where
  "decisive r = (case r of Inr (Inl err) \<Rightarrow> is_fatal err | _ \<Rightarrow> True)"

lemma try_chain_through:
  "falls_through op e ps w e' w' \<Longrightarrow> try_chain op pre (ps @ qs) e w = try_chain op pre qs e' w'"
  by (induction rule: falls_through.induct) simp_all

lemma try_chain_decisive: "op p w = (r, w1) \<Longrightarrow> decisive r \<Longrightarrow> try_chain op pre (p # qs) e w = (r, w1)"
  by (auto simp: decisive_def split: sum.splits)

lemma try_chain_cases:
  "(\<exists>ps p qs e' w1 w2 r. chain = ps @ p # qs \<and> falls_through op e ps w e' w1 \<and> op p w1 = (r, w2) \<and> decisive r)
    \<or> (\<exists>e' w'. falls_through op e chain w e' w')"
proof (induction chain arbitrary: e w)
  case Nil
  then show ?case by (blast intro: falls_through.nil)
next
  case (Cons p chain)
  obtain r w1 where r: "op p w = (r, w1)" by (cases "op p w")
  show ?case
  proof (cases "decisive r")
    case True
    with r show ?thesis by (metis append_Nil falls_through.nil)
  next
    case False
    then obtain err where err: "r = Inr (Inl err)" "\<not> is_fatal err"
      by (auto simp: decisive_def split: sum.splits)
    note step = falls_through.cons [of op p w err w1, OF r [unfolded err(1)] err(2)]
    from Cons.IH [of "Some err" w1] show ?thesis by (metis append_Cons step)
  qed
qed

lemma is_retriable_exhausted [simp]: "is_retriable (exhausted pre (Some err)) = is_retriable err"
  by (simp add: exhausted_def is_retriable_def)

lemma errors_As_exhausted [simp]: "errors_As (exhausted pre (Some err)) = errors_As err"
  by (simp add: exhausted_def)

section \<open>Lemmas: streams\<close>

text \<open>
  What a stream promises its consumer: at most one \<open>Done\<close>, as the last delta, at most one error
  (so that the channel of capacity one never blocks the goroutine), and not both.
\<close>

definition stream_ok :: "StreamOut \<Rightarrow> bool" where
  "stream_ok out \<longleftrightarrow> length (so_Errs out) \<le> 1
     \<and> (\<exists>ds fin. so_Deltas out = ds @ fin \<and> (\<forall>d \<in> set ds. td_Type d \<noteq> DeltaTypeDone)
        \<and> (fin = [] \<or> fin = [done_delta] \<and> so_Errs out = []))"

text \<open>A line handler that sends \<open>Done\<close> exactly when it ends the loop.\<close>

definition handler_ok :: "(string \<Rightarrow> TokenDelta list \<times> bool) \<Rightarrow> bool" where
  "handler_ok handle \<longleftrightarrow> (\<forall>line. case handle line of
     (ds, True) \<Rightarrow> ds = [done_delta] | (ds, False) \<Rightarrow> \<forall>d \<in> set ds. td_Type d \<noteq> DeltaTypeDone)"

lemma stream_ok_prepend:
  assumes "stream_ok out" and "\<forall>d \<in> set ds. td_Type d \<noteq> DeltaTypeDone"
  shows "stream_ok (out\<lparr>so_Deltas := ds @ so_Deltas out\<rparr>)"
proof -
  from assms(1) obtain ds' fin where "so_Deltas out = ds' @ fin" "\<forall>d \<in> set ds'. td_Type d \<noteq> DeltaTypeDone"
    "fin = [] \<or> fin = [done_delta] \<and> so_Errs out = []" "length (so_Errs out) \<le> 1"
    by (auto simp: stream_ok_def)
  with assms(2) show ?thesis unfolding stream_ok_def
    by (intro conjI exI [of _ "ds @ ds'"] exI [of _ fin]) auto
qed

lemma stream_loop_ok:
  assumes "handler_ok handle"
  shows "stream_ok (fst (stream_loop env node ctx handle serr lines w))"
proof (induction lines arbitrary: w)
  case Nil
  then show ?case by (auto simp: stream_ok_def split: option.split)
next
  case (Cons line lines)
  obtain e w1 where d: "http_Done env ctx w = (e, w1)" by (cases "http_Done env ctx w")
  obtain ds b where h: "handle line = (ds, b)" by (cases "handle line")
  have hb: "if b then ds = [done_delta] else \<forall>d \<in> set ds. td_Type d \<noteq> DeltaTypeDone"
    using assms h unfolding handler_ok_def by (auto split: bool.splits dest: spec [of _ line])
  have fin: "stream_ok \<lparr>so_Deltas = [done_delta], so_Errs = []\<rparr>" "stream_ok \<lparr>so_Deltas = [], so_Errs = [x]\<rparr>" for x
    unfolding stream_ok_def by (auto intro: exI [of _ "[]"])
  show ?case
  proof (cases e)
    case None
    show ?thesis
    proof (cases b)
      case True
      with None d h hb fin show ?thesis by simp
    next
      case False
      with hb stream_ok_prepend [OF Cons.IH [of w1]] None d h show ?thesis
        by (simp add: case_prod_beta)
    qed
  qed (use d fin in simp)
qed

lemma stream_loop_run:
  "stream_loop env node ctx handle serr lines w = (out, w') \<Longrightarrow> handler_ok handle \<Longrightarrow> stream_ok out"
  using stream_loop_ok by (metis fst_conv)

lemma openai_line_ok: "handler_ok (openai_line cd)"
  by (auto simp: handler_ok_def openai_line_def chunk_deltas_def done_delta_def Let_def
      split: option.splits list.splits if_splits)

lemma anthropic_line_ok: "handler_ok (anthropic_line cd)"
  by (auto simp: handler_ok_def anthropic_line_def event_deltas_def done_delta_def
      split: option.splits if_splits)

section \<open>The contract of a provider\<close>

text \<open>
  What the engine's retry policy and the fallback chain rely on: an error of a provider carries a
  category, retriable or fatal, where \<open>errors.As\<close> finds it, and a stream keeps the protocol of its
  two channels.
\<close>

definition classified :: "go_error \<Rightarrow> bool" where
  "classified err \<longleftrightarrow> (case errors_As err of
     Some (c, _) \<Rightarrow> c = ErrCategoryRetriable \<or> c = ErrCategoryFatal | None \<Rightarrow> False)"

locale llm_provider =
  fixes P :: "'w LLMProvider"
  assumes generate_classified: "fst (lp_Generate P ctx s w) = Inr (Inl err) \<Longrightarrow> classified err"
    and stream_classified: "fst (lp_GenerateStream P ctx s w) = Inr (Inl err) \<Longrightarrow> classified err"
    and stream_protocol: "fst (lp_GenerateStream P ctx s w) = Inr (Inr out) \<Longrightarrow> stream_ok out"
begin

text \<open>An error that is not worth a retry is fatal, unless the provider is wrapped.\<close>

lemma retriable_or_fatal:
  "fst (lp_Generate P ctx s w) = Inr (Inl err) \<Longrightarrow> \<not> is_retriable err
    \<Longrightarrow> \<exists>n cause. errors_As err = Some (ErrCategoryFatal, n, cause)"
  using generate_classified by (fastforce simp: classified_def is_retriable_def split: option.splits)

end

lemma classified_New [simp]:
  "classified (NewRetriableError n e d)" "classified (NewFatalError n c)"
  by (simp_all add: classified_def NewRetriableError_def NewFatalError_def)

lemma classified_http_error [simp]: "classified (http_error n pre resp)"
  by (simp add: http_error_def Let_def)

lemma send_classified: "send env n ctx m req w = (Inl err, w1) \<Longrightarrow> classified err"
  by (auto simp: send_def split: option.splits prod.splits sum.splits)

interpretation openai: llm_provider "NewOpenAIProvider cd env opts" for cd env opts
  apply unfold_locales
  subgoal for ctx s w err
    by (auto simp: NewOpenAIProvider_def OpenAI_Generate_def OpenAI_handleHTTPError_def
        split: option.splits prod.splits sum.splits list.splits if_splits dest: send_classified)
  subgoal for ctx s w err
    by (auto simp: NewOpenAIProvider_def OpenAI_GenerateStream_def OpenAI_handleHTTPError_def
        split: option.splits prod.splits sum.splits if_splits dest: send_classified)
  subgoal for ctx s w out
    by (auto simp: NewOpenAIProvider_def OpenAI_GenerateStream_def
        split: option.splits prod.splits sum.splits if_splits dest: stream_loop_run [OF _ openai_line_ok])
  done

interpretation anthropic: llm_provider "NewAnthropicProvider cd env opts" for cd env opts
  apply unfold_locales
  subgoal for ctx s w err
    by (auto simp: NewAnthropicProvider_def Anthropic_Generate_def Anthropic_handleHTTPError_def
        split: option.splits prod.splits sum.splits list.splits if_splits dest: send_classified)
  subgoal for ctx s w err
    by (auto simp: NewAnthropicProvider_def Anthropic_GenerateStream_def Anthropic_handleHTTPError_def
        split: option.splits prod.splits sum.splits if_splits dest: send_classified)
  subgoal for ctx s w out
    by (auto simp: NewAnthropicProvider_def Anthropic_GenerateStream_def
        split: option.splits prod.splits sum.splits if_splits dest: stream_loop_run [OF _ anthropic_line_ok])
  done

text \<open>A chain of providers that keep the contract keeps it.\<close>

lemma try_chain_result:
  assumes "fst (try_chain op pre chain e w) = r"
  obtains p w1 where "p \<in> set chain" "fst (op p w1) = r"
  | err where "r = Inr (Inl (exhausted pre (Some err)))"
      "e = Some err \<or> (\<exists>p w1. p \<in> set chain \<and> fst (op p w1) = Inr (Inl err))"
  | "chain = []" "e = None"
proof -
  have "(\<exists>p w1. p \<in> set chain \<and> fst (op p w1) = r)
    \<or> (\<exists>err. r = Inr (Inl (exhausted pre (Some err)))
        \<and> (e = Some err \<or> (\<exists>p w1. p \<in> set chain \<and> fst (op p w1) = Inr (Inl err))))
    \<or> chain = [] \<and> e = None"
    using assms
  proof (induction chain arbitrary: e w)
    case Nil
    then show ?case by (cases e) auto
  next
    case (Cons p chain)
    obtain q w1 where q: "op p w = (q, w1)" by (cases "op p w")
    show ?case
    proof (cases "decisive q")
      case True
      then have "fst (op p w) = r" using Cons.prems try_chain_decisive [of op p w q w1, OF q] q by simp
      then show ?thesis by auto
    next
      case False
      then obtain err where err: "q = Inr (Inl err)" "\<not> is_fatal err"
        by (auto simp: decisive_def split: sum.splits)
      with Cons.prems q have "fst (try_chain op pre chain (Some err) w1) = r" by simp
      from Cons.IH [OF this] q err show ?thesis by (metis fst_conv list.set_intros(1,2) option.inject option.distinct(1))
    qed
  qed
  with that show thesis by blast
qed

lemma fallback_llm_provider:
  assumes "chain \<noteq> []" and "\<forall>p \<in> set chain. llm_provider p"
  shows "llm_provider (NewFallbackChainProvider chain)"
proof
  fix ctx s w err
  assume a: "fst (lp_Generate (NewFallbackChainProvider chain) ctx s w) = Inr (Inl err)"
  show "classified err"
    by (rule try_chain_result [of "\<lambda>p. lp_Generate p ctx s" "''fallback chain exhausted: ''" chain None w])
      (use a assms in \<open>auto simp: NewFallbackChainProvider_def Fallback_Generate_def classified_def
        dest!: llm_provider.generate_classified [rotated]\<close>)
next
  fix ctx s w err
  assume a: "fst (lp_GenerateStream (NewFallbackChainProvider chain) ctx s w) = Inr (Inl err)"
  show "classified err"
    by (rule try_chain_result [of "\<lambda>p. lp_GenerateStream p ctx s" "''fallback chain stream exhausted: ''" chain None w])
      (use a assms in \<open>auto simp: NewFallbackChainProvider_def Fallback_GenerateStream_def classified_def
        dest!: llm_provider.stream_classified [rotated]\<close>)
next
  fix ctx s w out
  assume a: "fst (lp_GenerateStream (NewFallbackChainProvider chain) ctx s w) = Inr (Inr out)"
  show "stream_ok out"
    by (rule try_chain_result [of "\<lambda>p. lp_GenerateStream p ctx s" "''fallback chain stream exhausted: ''" chain None w])
      (use a assms in \<open>auto simp: NewFallbackChainProvider_def Fallback_GenerateStream_def
        dest: llm_provider.stream_protocol [rotated]\<close>)
qed

section \<open>Properties of the providers\<close>

text \<open>
  The chain stops at the first provider that decides. The result of \<open>Generate\<close> is that of
  the first provider that answers, fails with a fatal error or panics, no later provider is
  called, and when all fail with other errors the result wraps the last of these errors, so that
  the retry policy sees that error's category.
\<close>

theorem fallback_first_decisive:
  "Fallback_Generate chain ctx s w = (r, w2) \<longleftrightarrow>
     (\<exists>ps p qs e w1. chain = ps @ p # qs \<and> falls_through (\<lambda>p. lp_Generate p ctx s) None ps w e w1
        \<and> lp_Generate p ctx s w1 = (r, w2) \<and> decisive r)
   \<or> (\<exists>e. falls_through (\<lambda>p. lp_Generate p ctx s) None chain w e w2
        \<and> (case e of None \<Rightarrow> chain = [] \<and> r = Inr (Inl (ErrorText ''fallback chain exhausted: %!w(<nil>)''))
           | Some err \<Rightarrow> r = Inr (Inl (Errorf ''fallback chain exhausted: '' err []))))"
    (is "?L \<longleftrightarrow> ?A \<or> ?B")
proof -
  let ?op = "\<lambda>p. lp_Generate p ctx s"
  have none: "e' = None \<Longrightarrow> e = None \<and> ps = []" if "falls_through ?op e ps w e' w'" for e e' ps w w'
    using that by (induction rule: falls_through.induct) auto
  have B: ?L if ?B
    using that try_chain_through [of ?op None chain w _ w2 _ "[]"]
    by (auto simp: Fallback_Generate_def exhausted_def split: option.splits)
  have A: ?L if ?A
    using that by (auto simp: Fallback_Generate_def try_chain_through decisive_def split: sum.splits)
  have "?A \<or> ?B" if ?L
    using try_chain_cases [of chain ?op None w]
  proof (elim disjE exE conjE)
    fix ps p qs e' w1 w' r'
    assume x: "chain = ps @ p # qs" "falls_through ?op None ps w e' w1" "lp_Generate p ctx s w1 = (r', w')" "decisive r'"
    then have "(r', w') = (r, w2)" using that
      by (auto simp: Fallback_Generate_def try_chain_through decisive_def split: sum.splits)
    with x show ?thesis by blast
  next
    fix e' w'
    assume x: "falls_through ?op None chain w e' w'"
    then have "(Inr (Inl (exhausted ''fallback chain exhausted: '' e')), w') = (r, w2)"
      using that try_chain_through [OF x, of _ "[]"] by (simp add: Fallback_Generate_def)
    with x none [OF x] show ?thesis by (cases e') (auto simp: exhausted_def)
  qed
  with A B show ?thesis by blast
qed


text \<open>Concrete parameters: an API that answers 200 or 503, and a codec that knows one document.\<close>

definition sample_codec :: Codec where
  "sample_codec = \<lparr>cd_ArgsText = (\<lambda>a. case a of None \<Rightarrow> ''null'' | Some _ \<Rightarrow> ''{}''),
     cd_ParseArgs = (\<lambda>t. if t = ''{}'' then Some [] else None),
     cd_OpenAIResp = (\<lambda>r. Inl (ErrorText ''EOF'')),
     cd_OpenAIChunk = (\<lambda>t. if t = ''hello'' then Some [\<lparr>od_Content = ''hello'', od_ToolCalls = []\<rparr>] else None),
     cd_AnthropicResp = (\<lambda>r. Inl (ErrorText ''EOF'')), cd_AnthropicEvent = (\<lambda>t. None),
     cd_EmbeddingResp = (\<lambda>r. Inl (ErrorText ''EOF''))\<rparr>"

definition sample_http :: "HttpResponse \<Rightarrow> unit HttpEnv" where
  "sample_http resp = \<lparr>http_URL = (\<lambda>u. None), http_Do = (\<lambda>ctx q w. (Inr resp, w)), http_Done = (\<lambda>ctx w. (None, w))\<rparr>"

definition busy_resp :: HttpResponse where
  "busy_resp = \<lparr>hp_StatusCode = 503, hp_Body = ''busy'', hp_ReadErr = None\<rparr>"

definition sample_opts :: OpenAIOptions where
  "sample_opts = \<lparr>oo_APIKey = ''k'', oo_BaseURL = ''http://api'', oo_Model = ''m''\<rparr>"

definition sample_chain :: "unit LLMProvider list" where
  "sample_chain = [NewOpenAIProvider sample_codec (sample_http busy_resp) sample_opts,
     NewAnthropicProvider sample_codec (sample_http busy_resp) sample_opts]"

lemmas sample_provider_defs = sample_codec_def sample_http_def busy_resp_def sample_opts_def


text \<open>Failures of the far side: no response, or a status that says to try later.\<close>

definition transient :: "go_error + HttpResponse \<Rightarrow> bool" where
  "transient r = (case r of Inl _ \<Rightarrow> True | Inr resp \<Rightarrow> hp_StatusCode resp \<in> {429, 500, 502, 503, 504})"

lemma send_result:
  assumes "\<exists>w1. http_Do env ctx req w = (r, w1)" and "http_URL env (hq_URL req) = None"
  shows "\<exists>w1. send env node ctx None req w = (map_sum (\<lambda>e. NewRetriableError node e (2 * second)) id r, w1)"
  using assms by (cases r) (auto simp: send_def)

lemma error_categories [simp]:
  "is_retriable (NewRetriableError n e d)" "\<not> is_fatal (NewRetriableError n e d)"
  "is_fatal (NewFatalError n c)" "\<not> is_retriable (NewFatalError n c)"
  by (simp_all add: NewRetriableError_def NewFatalError_def is_fatal_def is_retriable_def)

lemma http_error_category:
  "is_retriable (http_error n pre resp) = transient (Inr resp)"
  "is_fatal (http_error n pre resp) = (\<not> transient (Inr resp))"
  by (auto simp: http_error_def transient_def Let_def)

text \<open>The outcome of \<open>Generate\<close> as a function of what the transport returned.\<close>

definition categorised :: "go_error + HttpResponse \<Rightarrow> 'a result \<Rightarrow> bool" where
  "categorised r res = (if transient r then (\<exists>err. res = Inr (Inl err) \<and> is_retriable err)
     else (\<forall>err. res = Inr (Inl err) \<longrightarrow> is_fatal err))"

lemma OpenAI_categorised:
  assumes "\<And>req. \<exists>w1. send env ''OpenAIProvider'' ctx None req w
      = (map_sum (\<lambda>e. NewRetriableError ''OpenAIProvider'' e (2 * second)) id r, w1)"
    and "OpenAI_buildRequestInfo cd opts s False = Some b" and "marshal_openai b = None"
  shows "categorised r (fst (OpenAI_Generate cd env opts ctx s w))"
proof -
  obtain w1 where "send env ''OpenAIProvider'' ctx None (OpenAI_request opts ''/chat/completions'' (OpenAIBody b) False) w
      = (map_sum (\<lambda>e. NewRetriableError ''OpenAIProvider'' e (2 * second)) id r, w1)" using assms(1) by blast
  with assms(2,3) show ?thesis
    by (cases r) (auto simp: OpenAI_Generate_def OpenAI_handleHTTPError_def http_error_category categorised_def
        transient_def split: sum.split list.split)
qed

lemma Anthropic_categorised:
  assumes "\<And>req. \<exists>w1. send env ''AnthropicProvider'' ctx None req w
      = (map_sum (\<lambda>e. NewRetriableError ''AnthropicProvider'' e (2 * second)) id r, w1)"
    and "Anthropic_buildRequestInfo cd opts s False = Some a" and "marshal_anthropic a = None"
  shows "categorised r (fst (Anthropic_Generate cd env opts ctx s w))"
proof -
  obtain w1 where "send env ''AnthropicProvider'' ctx None (Anthropic_request opts (AnthropicBody a) False) w
      = (map_sum (\<lambda>e. NewRetriableError ''AnthropicProvider'' e (2 * second)) id r, w1)" using assms(1) by blast
  with assms(2,3) show ?thesis
    by (cases r) (auto simp: Anthropic_Generate_def Anthropic_handleHTTPError_def http_error_category categorised_def
        transient_def split: sum.split list.split)
qed

text \<open>
  C30: which failures of a provider are worth a retry. When a request is sent, \<open>Generate\<close> of both
  providers fails with a retriable error exactly when the transport (or the breaker) failed or
  the status is 429, 500, 502, 503 or 504; every other failure is fatal, and so ends a fallback
  chain. An embedding request, in contrast, is retriable only after a transport failure.
\<close>

theorem provider_errors_classified:
  assumes "\<And>q. fst (http_Do env ctx q w) = r" and "\<And>u. http_URL env u = None"
    and "OpenAI_buildRequestInfo cd opts s False = Some b" and "marshal_openai b = None"
    and "Anthropic_buildRequestInfo cd opts s False = Some a" and "marshal_anthropic a = None"
  shows "categorised r (fst (OpenAI_Generate cd env opts ctx s w))
    \<and> categorised r (fst (Anthropic_Generate cd env opts ctx s w))
    \<and> (\<forall>err. fst (EmbedText cd env opts ctx text w) = Inl err \<longrightarrow> is_retriable err = isl r \<and> is_fatal err = (\<not> isl r))"
proof -
  have "\<exists>w1. http_Do env ctx q w = (r, w1)" for q using assms(1) [of q] by (cases "http_Do env ctx q w") simp
  note sent = send_result [OF this assms(2)]
  obtain w3 where em: "send env ''OpenAIEmbeddingProvider'' ctx None
      (OpenAI_request opts ''/embeddings'' (EmbeddingBody \<lparr>er_Input = text, er_Model = oo_Model opts\<rparr>) False) w
      = (map_sum (\<lambda>e. NewRetriableError ''OpenAIEmbeddingProvider'' e (2 * second)) id r, w3)" using sent by blast
  then have "\<forall>err. fst (EmbedText cd env opts ctx text w) = Inl err \<longrightarrow> is_retriable err = isl r \<and> is_fatal err = (\<not> isl r)"
    by (cases r) (auto simp: EmbedText_def split: sum.splits list.splits)
  with OpenAI_categorised [OF sent assms(3,4)] Anthropic_categorised [OF sent assms(5,6)] show ?thesis by blast
qed

theorem provider_errors_classified_witness:
  "\<exists>err. fst (OpenAI_Generate sample_codec (sample_http busy_resp) sample_opts Background NewState ()) = Inr (Inl err)
    \<and> is_retriable err"
proof -
  let ?b = "\<lparr>or_Model = ''m'', or_Messages = [], or_Tools = [], or_Stream = False\<rparr>"
  let ?a = "\<lparr>ar_Model = ''m'', ar_System = [], ar_Messages = [], ar_MaxTokens = 8192, ar_Tools = [], ar_Stream = False\<rparr>"
  have "categorised (Inr busy_resp) (fst (OpenAI_Generate sample_codec (sample_http busy_resp) sample_opts Background NewState ()))
      \<and> categorised (Inr busy_resp) (fst (Anthropic_Generate sample_codec (sample_http busy_resp) sample_opts Background NewState ()))
      \<and> (\<forall>err. fst (EmbedText sample_codec (sample_http busy_resp) sample_opts Background [] ()) = Inl err
          \<longrightarrow> is_retriable err = isl (Inr busy_resp :: go_error + HttpResponse)
            \<and> is_fatal err = (\<not> isl (Inr busy_resp :: go_error + HttpResponse)))"
    by (rule provider_errors_classified [where a = ?a and b = ?b])
      (simp_all add: sample_provider_defs OpenAI_buildRequestInfo_def mapMessages_def NewState_def vars_def
        system_prompt_def map_string_def state_tools_def Anthropic_buildRequestInfo_def marshal_openai_def marshal_anthropic_def)
  then show ?thesis by (simp add: categorised_def transient_def busy_resp_def)
qed

text \<open>The tool calls and the text of a list of parts.\<close>

fun calls_of :: "Part list \<Rightarrow> ToolCallPart list" where
  "calls_of [] = []"
| "calls_of (p # ps) = (if p_Type p = PartTypeToolCall
     then (case p_ToolCall p of None \<Rightarrow> calls_of ps | Some c \<Rightarrow> c # calls_of ps) else calls_of ps)"

definition text_of :: "Part list \<Rightarrow> string" where
  "text_of ps = concat (map p_Text (filter (\<lambda>p. p_Type p = PartTypeText) ps))"

definition wire_call :: "Codec \<Rightarrow> ToolCallPart \<Rightarrow> openAIToolCall" where
  "wire_call cd c = \<lparr>otc_ID = tc_CallID c, otc_Type = ''function'',
     otc_Function = \<lparr>ofc_Name = tc_ToolName c, ofc_Arguments = stringifyArgs cd (tc_Arguments c)\<rparr>\<rparr>"

lemma map_parts_assistant:
  assumes "\<forall>p \<in> set ps. p_Type p \<noteq> PartTypeToolResult \<and> (p_Type p = PartTypeToolCall \<longrightarrow> p_ToolCall p \<noteq> None)"
  shows "map_parts cd ps (msg, b)
    = Some (msg\<lparr>om_ToolCalls := om_ToolCalls msg @ map (wire_call cd) (calls_of ps)\<rparr>, b @ text_of ps)"
  using assms
  by (induction ps arbitrary: msg b) (auto simp: text_of_def wire_call_def)

lemma Validate_assistant:
  "m_Role m = RoleAssistant \<Longrightarrow> Validate m = None \<longleftrightarrow> (\<forall>p \<in> set (m_Parts m). p_Type p \<noteq> PartTypeToolResult)"
proof -
  have "Validate_parts RoleAssistant ps = None \<longleftrightarrow> (\<forall>p \<in> set ps. p_Type p \<noteq> PartTypeToolResult)" for ps
    by (induction ps) auto
  then show "m_Role m = RoleAssistant \<Longrightarrow> ?thesis" by (simp add: Validate_def)
qed

text \<open>
  C31: an assistant message survives the OpenAI wire format. A valid assistant message that is
  sent back to the model as history and echoed as a choice is read as the same tool calls, in
  order, with the ids, names and (decoded) arguments they had; its text parts come back as one
  part, and nothing else is added.
\<close>

theorem openai_message_roundtrip:
  assumes "m_Role m = RoleAssistant" and "Validate m = None"
    and "\<forall>p \<in> set (m_Parts m). p_Type p = PartTypeToolCall \<longrightarrow> p_ToolCall p \<noteq> None"
    and "\<forall>c \<in> set (calls_of (m_Parts m)).
      cd_ParseArgs cd (stringifyArgs cd (tc_Arguments c)) = map_option json_vars (tc_Arguments c)"
  shows "\<exists>om. mapMessages cd [m] [] = Some [om] \<and> om_Role om = ''assistant''
    \<and> m_Parts (lr_Message (mapResponse cd \<lparr>oc_Message = om, oc_FinishReason = fr\<rparr> resp))
      = (if text_of (m_Parts m) = [] then [] else [text_part (text_of (m_Parts m))])
        @ map (\<lambda>c. tool_call_part (c\<lparr>tc_Arguments := map_option json_vars (tc_Arguments c)\<rparr>)) (calls_of (m_Parts m))"
proof -
  have "\<forall>p \<in> set (m_Parts m). p_Type p \<noteq> PartTypeToolResult \<and> (p_Type p = PartTypeToolCall \<longrightarrow> p_ToolCall p \<noteq> None)"
    using assms(1-3) by (simp add: Validate_assistant)
  note parts = map_parts_assistant [OF this, of cd "role_msg ''assistant''" "[]"]
  have "tool_call_part \<lparr>tc_CallID = tc_CallID c, tc_ToolName = tc_ToolName c,
      tc_Arguments = cd_ParseArgs cd (stringifyArgs cd (tc_Arguments c))\<rparr>
    = tool_call_part (c\<lparr>tc_Arguments := map_option json_vars (tc_Arguments c)\<rparr>)"
    if "c \<in> set (calls_of (m_Parts m))" for c using assms(4) that by (simp add: tool_call_part_def)
  then show ?thesis using parts assms(1)
    by (simp add: mapMessages_def mapResponse_def role_msg_def wire_call_def comp_def)
qed

theorem openai_message_roundtrip_witness:
  "let m = zero_Message\<lparr>m_Role := RoleAssistant, m_Parts := [text_part ''hi'',
     tool_call_part \<lparr>tc_CallID = ''c1'', tc_ToolName = ''echo'', tc_Arguments = Some []\<rparr>]\<rparr>
   in Validate m = None \<and> (\<exists>om. mapMessages sample_codec [m] [] = Some [om]
     \<and> m_Parts (lr_Message (mapResponse sample_codec \<lparr>oc_Message = om, oc_FinishReason = []\<rparr>
         \<lparr>ors_Choices = [], ors_PromptTokens = 0, ors_CompletionTokens = 0, ors_TotalTokens = 0\<rparr>)) = m_Parts m)"
proof -
  let ?m = "zero_Message\<lparr>m_Role := RoleAssistant, m_Parts := [text_part ''hi'',
     tool_call_part \<lparr>tc_CallID = ''c1'', tc_ToolName = ''echo'', tc_Arguments = Some []\<rparr>]\<rparr>"
  have "Validate ?m = None" by (simp add: Validate_def text_part_def tool_call_part_def)
  moreover note openai_message_roundtrip [OF _ this, of sample_codec "[]"
      "\<lparr>ors_Choices = [], ors_PromptTokens = 0, ors_CompletionTokens = 0, ors_TotalTokens = 0\<rparr>"]
  ultimately show ?thesis
    by (auto simp: Let_def text_part_def tool_call_part_def zero_Part_def stringifyArgs_def vars_json_ok_def
        sample_codec_def json_vars_def text_of_def)
qed

section \<open>Lemmas: server-sent events\<close>

text \<open>A body of events: one \<open>data:\<close> line and an empty line per event.\<close>

definition sse_body :: "string list \<Rightarrow> string" where
  "sse_body ts = concat (map (\<lambda>t. ''data: '' @ t @ [CHR 0x0A, CHR 0x0A]) ts)"

lemma Split_line: "c \<notin> set l \<Longrightarrow> Split (l @ c # rest) c = l # Split rest c"
  by (induction l) auto

lemma Split_sse: "\<forall>t \<in> set ts. CHR 0x0A \<notin> set t \<Longrightarrow>
  Split (sse_body ts) (CHR 0x0A) = concat (map (\<lambda>t. [''data: '' @ t, []]) ts) @ [[]]"
proof (induction ts)
  case (Cons t ts)
  have "Split ((''data: '' @ t) @ CHR 0x0A # [] @ CHR 0x0A # sse_body ts) (CHR 0x0A)
      = (''data: '' @ t) # [] # Split (sse_body ts) (CHR 0x0A)"
    using Cons.prems by (subst Split_line) (auto simp: Split_line)
  with Cons show ?case by (simp add: sse_body_def)
qed (simp add: sse_body_def)

lemma scan_raw_lines:
  "\<forall>l \<in> set ls. length l < 65536 \<Longrightarrow> scan_raw (ls @ [[]]) rerr = (map drop_cr ls, rerr)"
  by (induction ls) auto

text \<open>An event the scanner passes on as it is.\<close>

definition frame_ok :: "string \<Rightarrow> bool" where
  "frame_ok t \<longleftrightarrow> CHR 0x0A \<notin> set t \<and> length t < 65530 \<and> (t = [] \<or> last t \<noteq> CHR 0x0D)"

lemma scan_sse:
  assumes "\<forall>t \<in> set ts. frame_ok t"
  shows "scan_lines \<lparr>hp_StatusCode = 200, hp_Body = sse_body ts, hp_ReadErr = rerr\<rparr>
    = (concat (map (\<lambda>t. [''data: '' @ t, []]) ts), rerr)"
proof -
  have "drop_cr (''data: '' @ t) = ''data: '' @ t" if "frame_ok t" for t
    using that by (auto simp: drop_cr_def frame_ok_def)
  then have "map drop_cr (concat (map (\<lambda>t. [''data: '' @ t, []]) ts)) = concat (map (\<lambda>t. [''data: '' @ t, []]) ts)"
    using assms by (induction ts) (auto simp: drop_cr_def)
  moreover have "\<forall>l \<in> set (concat (map (\<lambda>t. [''data: '' @ t, []]) ts)). length l < 65536"
    using assms by (auto simp: frame_ok_def)
  ultimately show ?thesis
    using Split_sse [of ts] assms scan_raw_lines [of "concat (map (\<lambda>t. [''data: '' @ t, []]) ts)" rerr]
    by (simp add: scan_lines_def frame_ok_def)
qed

definition frame_deltas :: "Codec \<Rightarrow> string \<Rightarrow> TokenDelta list" where
  "frame_deltas cd t = (case cd_OpenAIChunk cd t of None \<Rightarrow> [] | Some chunk \<Rightarrow> chunk_deltas chunk)"

lemma stream_loop_frames:
  assumes "\<forall>v. fst (http_Done env ctx v) = None" and "''[DONE]'' \<notin> set ts"
  shows "fst (stream_loop env node ctx (openai_line cd) serr
      (concat (map (\<lambda>t. [''data: '' @ t, []]) (ts @ [''[DONE]'']))) w)
    = \<lparr>so_Deltas = concat (map (frame_deltas cd) ts) @ [done_delta], so_Errs = []\<rparr>"
  using assms(2)
proof (induction ts arbitrary: w)
  case Nil
  obtain w1 where "http_Done env ctx w = (None, w1)" using assms(1) by (metis prod.collapse)
  then show ?case by (simp add: openai_line_def HasPrefix_def TrimPrefix_def)
next
  case (Cons t ts)
  have poll: "\<exists>w1. http_Done env ctx v = (None, w1)" for v using assms(1) by (metis prod.collapse)
  obtain w1 where w1: "http_Done env ctx w = (None, w1)" using poll by blast
  obtain w2 where w2: "http_Done env ctx w1 = (None, w2)" using poll by blast
  have "openai_line cd (''data: '' @ t) = (frame_deltas cd t, False)" "openai_line cd [] = ([], False)"
    using Cons.prems TrimPrefix_append [of "''data: ''" t] HasPrefix_append [of "''data: ''" t]
    by (auto simp: openai_line_def frame_deltas_def HasPrefix_def Let_def split: option.split)
  with w1 w2 Cons.IH [of w2] Cons.prems show ?case
    by (simp add: case_prod_beta)
qed



end
