(* ===== verification/A2A_Server.thy ===== *)
theory A2A_Server
  imports Security_Model Observability_Model Task_Store Providers_Model
begin

text \<open>
  Package \<open>a2a\<close>: authentication and the HTTP server. A handler gives its reply, the engine runs
  it started in the background (a session id and an initial state each) and the world. The
  background runs are executed by \<open>run_job\<close>; \<open>server_step\<close> interleaves requests with them.

  The router (chi) has chosen the \<open>Route\<close>; JSON documents are decoded by the parameter \<open>RpcCodec\<close>,
  tokens are signed and parsed by the JWT package, the parameter \<open>Jwt\<close>.
\<close>

section \<open>Wire types (a2a/models.go, a2a/rpc\_models.go)\<close>

record AgentCapabilities =
  cap_Streaming :: bool
  cap_PushNotifications :: bool
  cap_ExtendedAgentCard :: bool
  cap_StateTimeTravel :: bool
  cap_MultiTenancy :: bool

record AgentSkill =
  sk_ID :: string
  sk_Name :: string
  sk_Description :: string
  sk_InputSchema :: ToolInputSchema
  sk_InputModes :: "string list"
  sk_OutputModes :: "string list"
  sk_Tags :: "string list"

record AgentCard =
  ac_Name :: string
  ac_Description :: string
  ac_Version :: string
  ac_URL :: string
  ac_ProtocolVersion :: string
  ac_Capabilities :: AgentCapabilities
  ac_Skills :: "AgentSkill list"

definition NewAgentCard ::
  "string \<Rightarrow> string \<Rightarrow> string \<Rightarrow> string \<Rightarrow> 'w ConcreteToolRegistry \<Rightarrow> AgentCapabilities \<Rightarrow> AgentCard" where
  "NewAgentCard name desc version url registry caps = \<lparr>ac_Name = name, ac_Description = desc, ac_Version = version,
     ac_URL = url, ac_ProtocolVersion = ''1.0'', ac_Capabilities = caps,
     ac_Skills = map (\<lambda>t. \<lparr>sk_ID = tool_Name t, sk_Name = tool_Name t, sk_Description = tool_Description t,
       sk_InputSchema = tool_InputSchema t, sk_InputModes = [''text'', ''structured_data''],
       sk_OutputModes = [''text''], sk_Tags = []\<rparr>) (ListTools registry)\<rparr>"

record RPCRequest =
  rq_JSONRPC :: string
  rq_Method :: string
  rq_Params :: string
  rq_ID :: gany

abbreviation RPCCodeParseError :: int where "RPCCodeParseError \<equiv> - 32700"
abbreviation RPCCodeInvalidRequest :: int where "RPCCodeInvalidRequest \<equiv> - 32600"
abbreviation RPCCodeMethodNotFound :: int where "RPCCodeMethodNotFound \<equiv> - 32601"
abbreviation RPCCodeInvalidParams :: int where "RPCCodeInvalidParams \<equiv> - 32602"
abbreviation RPCCodeInternalError :: int where "RPCCodeInternalError \<equiv> - 32603"
abbreviation RPCCodeTaskNotFound :: int where "RPCCodeTaskNotFound \<equiv> - 32001"
abbreviation RPCCodeUnauthorized :: int where "RPCCodeUnauthorized \<equiv> - 32002"

text \<open>The values the server puts into \<open>Result any\<close>, and what a client decodes there.\<close>

datatype rpc_result = ResultTask Task | ResultConfig WebhookConfig | ResultAny gany

record RPCError =
  rpe_Code :: int
  rpe_Message :: string

record RPCResponse =
  rr_ID :: gany
  rr_Result :: "rpc_result option"
  rr_Error :: "RPCError option"

record SendMessageParams =
  sp_Message :: Message
  sp_TaskID :: string
  sp_ContextID :: string
  sp_ReturnImmediately :: bool
  sp_Configuration :: "gvars option"

record CreatePushConfigParams =
  pp_TaskID :: string
  pp_URL :: string
  pp_Secret :: string
  pp_EventTypes :: "string list"
  pp_Headers :: "(string, string) gomap"

record RpcCodec =
  jc_Request :: "string \<Rightarrow> RPCRequest option"
  jc_SendParams :: "string \<Rightarrow> SendMessageParams option"
  jc_GetParams :: "string \<Rightarrow> string option"
  jc_PushParams :: "string \<Rightarrow> CreatePushConfigParams option"
  jc_EventText :: "Event \<Rightarrow> string"

section \<open>Authentication (a2a/auth.go)\<close>

record Claims =
  cl_TenantID :: string
  cl_Scopes :: "string list"
  cl_ExpiresAt :: time
  cl_IssuedAt :: time

text \<open>
  Signing with HS256 and parsing: \<open>jwt_Parse secret now token\<close> gives the claims of a token that is
  signed with an HMAC method and the secret and is valid at the time \<open>now\<close>.
\<close>

record Jwt =
  jwt_Sign :: "string \<Rightarrow> Claims \<Rightarrow> go_error + string"
  jwt_Parse :: "string \<Rightarrow> time \<Rightarrow> string \<Rightarrow> Claims option"

text \<open>\<open>jwt.NewNumericDate\<close> truncates to seconds.\<close>

definition numeric_date :: "time \<Rightarrow> time" where
  "numeric_date t = t div 1000000000 * 1000000000"

definition GenerateToken ::
  "Jwt \<Rightarrow> 'w Runtime \<Rightarrow> string \<Rightarrow> string \<Rightarrow> string list \<Rightarrow> duration \<Rightarrow> 'w \<Rightarrow> (go_error + string) \<times> 'w" where
  "GenerateToken jwt rt secret tenantID scopes dur w = (case rt_Now rt w of (t1, w1) \<Rightarrow>
     case rt_Now rt w1 of (t2, w2) \<Rightarrow>
       (jwt_Sign jwt secret \<lparr>cl_TenantID = tenantID, cl_Scopes = scopes,
          cl_ExpiresAt = numeric_date (t1 + dur), cl_IssuedAt = numeric_date t2\<rparr>, w2))"

text \<open>The middleware: an error reply (status and text) or the context for the next handler.\<close>

definition Middleware ::
  "Jwt \<Rightarrow> 'w Runtime \<Rightarrow> string \<Rightarrow> string \<Rightarrow> Ctx \<Rightarrow> 'w \<Rightarrow> (int \<times> string + Ctx) \<times> 'w" where
  "Middleware jwt rt secret authHeader ctx w =
     (if authHeader = [] then (Inl (401, ''missing authorization header''), w)
      else (case Split authHeader (CHR '' '') of
        [scheme, tokenStr] \<Rightarrow>
          if ToLower scheme \<noteq> ''bearer'' then (Inl (401, ''invalid authorization header format''), w)
          else (case rt_Now rt w of (now, w1) \<Rightarrow> (case jwt_Parse jwt secret now tokenStr of
            None \<Rightarrow> (Inl (401, ''invalid token''), w1)
          | Some claims \<Rightarrow> (Inr (ctx\<lparr>ctx_tenantID := Some (cl_TenantID claims), ctx_scopes := Some (cl_Scopes claims)\<rparr>), w1)))
      | _ \<Rightarrow> (Inl (401, ''invalid authorization header format''), w)))"

fun any_scope :: "string list \<Rightarrow> string \<Rightarrow> bool" where
  "any_scope [] scope = False"
| "any_scope (s # ss) scope = (if s = scope \<or> s = ''agent:admin'' then True else any_scope ss scope)"

definition HasScope :: "Ctx \<Rightarrow> string \<Rightarrow> bool" where
  "HasScope ctx scope = (case ctx_scopes ctx of None \<Rightarrow> False | Some scopes \<Rightarrow> any_scope scopes scope)"

section \<open>The server (a2a/server.go)\<close>

record 'w Server =
  sv_engine :: "'w Engine"
  sv_taskStore :: "'w TaskStore"
  sv_hasBus :: bool
  sv_memory :: "'w MemoryStore"
  sv_secret :: string
  sv_card :: AgentCard
  sv_audit :: "(('w \<Rightarrow> SecAuditLog) \<times> (SecAuditLog \<Rightarrow> 'w \<Rightarrow> 'w)) option"
  sv_uuid :: "'w \<Rightarrow> string \<times> 'w"
  sv_codec :: RpcCodec
  sv_jwt :: Jwt
  sv_sorter :: "StateSnapshot list \<Rightarrow> StateSnapshot list"
  sv_render :: "gany \<Rightarrow> string"

record ServerOptions =
  so_Name :: string
  so_Description :: string
  so_Version :: string
  so_URL :: string
  so_Secret :: string

definition NewServer ::
  "'w Engine \<Rightarrow> 'w TaskStore \<Rightarrow> 'w MemoryStore \<Rightarrow> 'w ConcreteToolRegistry \<Rightarrow> bool \<Rightarrow> ServerOptions
    \<Rightarrow> (('w \<Rightarrow> SecAuditLog) \<times> (SecAuditLog \<Rightarrow> 'w \<Rightarrow> 'w)) option \<Rightarrow> ('w \<Rightarrow> string \<times> 'w) \<Rightarrow> RpcCodec \<Rightarrow> Jwt
    \<Rightarrow> (StateSnapshot list \<Rightarrow> StateSnapshot list) \<Rightarrow> (gany \<Rightarrow> string) \<Rightarrow> 'w Server" where
  "NewServer eng ts mem reg bus opts audit uuid codec jwt sorter render = \<lparr>sv_engine = eng, sv_taskStore = ts,
     sv_hasBus = bus, sv_memory = mem, sv_secret = so_Secret opts,
     sv_card = NewAgentCard (so_Name opts) (so_Description opts) (so_Version opts) (so_URL opts) reg
       \<lparr>cap_Streaming = True, cap_PushNotifications = False, cap_ExtendedAgentCard = False,
        cap_StateTimeTravel = True, cap_MultiTenancy = True\<rparr>,
     sv_audit = audit, sv_uuid = uuid, sv_codec = codec, sv_jwt = jwt, sv_sorter = sorter, sv_render = render\<rparr>"

datatype reply =
    ReplyCard AgentCard
  | ReplyMetrics
  | ReplyRPC RPCResponse
  | ReplyTask Task
  | ReplyError int string
  | ReplyStatus int
  | ReplyStream string
  | ReplyTimeline "StateSnapshot list"
  | ReplyDiff StateDiff
  | ReplyPanic gopanic

type_synonym job = "string \<times> AgentState option"
type_synonym 'w handled = "reply \<times> job list \<times> 'w"

definition sendRPCError :: "gany \<Rightarrow> int \<Rightarrow> string \<Rightarrow> reply" where
  "sendRPCError rid code msg = ReplyRPC \<lparr>rr_ID = rid, rr_Result = None,
     rr_Error = Some \<lparr>rpe_Code = code, rpe_Message = msg\<rparr>\<rparr>"

definition sendRPCResult :: "gany \<Rightarrow> rpc_result \<Rightarrow> reply" where
  "sendRPCResult rid res = ReplyRPC \<lparr>rr_ID = rid, rr_Result = Some res, rr_Error = None\<rparr>"

abbreviation sv_now :: "'w Server \<Rightarrow> 'w \<Rightarrow> time \<times> 'w" where
  "sv_now S \<equiv> rt_Now (e_rt (sv_engine S))"

text \<open>The branch that refuses a message the sanitizer rejects.\<close>

definition log_rejected :: "'w Server \<Rightarrow> string \<Rightarrow> string \<Rightarrow> go_error \<Rightarrow> 'w \<Rightarrow> gopanic option \<times> 'w" where
  "log_rejected S tenantID contextID err w = (case sv_audit S of
     None \<Rightarrow> (None, w)
   | Some (get, put) \<Rightarrow> (case LogViolation tenantID contextID ''INPUT_SANITIZATION_FAILED'' (Error err) (get w) of
       None \<Rightarrow> (Some SendOnClosed, w) | Some h \<Rightarrow> (None, put h w)))"

text \<open>The branch for a task that waits for input.\<close>

definition continue_task :: "'w Server \<Rightarrow> Ctx \<Rightarrow> gany \<Rightarrow> SendMessageParams \<Rightarrow> Task \<Rightarrow> 'w \<Rightarrow> 'w handled" where
  "continue_task S ctx rid params existing w = (case sv_now S w of (now, w1) \<Rightarrow>
     let task = existing\<lparr>t_History := t_History existing @ [sp_Message params],
           t_Status := (t_Status existing)\<lparr>ts_State := TaskStateWorking\<rparr>, t_UpdatedAt := now\<rparr> in
     case tk_UpdateStatus (sv_taskStore S) ctx (sp_TaskID params) (t_Status task) w1 of (_, w2) \<Rightarrow>
     case tk_AppendMessage (sv_taskStore S) ctx (sp_TaskID params) (sp_Message params) w2 of (_, w3) \<Rightarrow>
       (sendRPCResult rid (ResultTask task), [(sp_TaskID params, None)], w3))"

text \<open>The messages inherited from the earlier tasks of the conversation.\<close>

definition inherited_history :: "'w Server \<Rightarrow> Ctx \<Rightarrow> string \<Rightarrow> 'w \<Rightarrow> Message list \<times> 'w" where
  "inherited_history S ctx contextID w =
     (if contextID = [] then ([], w)
      else (case tk_ListByContextID (sv_taskStore S) ctx contextID w of
        (Inl err, w1) \<Rightarrow> ([], w1) | (Inr prev, w1) \<Rightarrow> (concat (map t_History prev), w1)))"

definition or_uuid :: "'w Server \<Rightarrow> string \<Rightarrow> 'w \<Rightarrow> string \<times> 'w" where
  "or_uuid S i w = (if i = [] then sv_uuid S w else (i, w))"

definition initial_state :: "string \<Rightarrow> string \<Rightarrow> Message list \<Rightarrow> Message \<Rightarrow> AgentState" where
  "initial_state taskID contextID history msg =
     WithMessage (NewState\<lparr>TaskID := taskID, ContextID := contextID, Messages := history\<rparr>) msg"

definition create_task :: "'w Server \<Rightarrow> Ctx \<Rightarrow> gany \<Rightarrow> string \<Rightarrow> SendMessageParams \<Rightarrow> 'w \<Rightarrow> 'w handled" where
  "create_task S ctx rid tenantID params w =
     (case or_uuid S (sp_TaskID params) w of (taskID, w1) \<Rightarrow>
      case or_uuid S (sp_ContextID params) w1 of (contextID, w2) \<Rightarrow>
      case sv_now S w2 of (t1, w3) \<Rightarrow> case sv_now S w3 of (t2, w4) \<Rightarrow> case sv_now S w4 of (t3, w5) \<Rightarrow>
      case inherited_history S ctx (sp_ContextID params) w5 of (history, w6) \<Rightarrow>
      let task = \<lparr>t_ID = taskID, t_ContextID = contextID, t_TenantID = tenantID,
            t_Status = \<lparr>ts_State = TaskStateSubmitted, ts_Timestamp = t1, ts_Message = []\<rparr>,
            t_History = history, t_Artifacts = [], t_Webhooks = [], t_Metadata = None,
            t_CreatedAt = t2, t_UpdatedAt = t3\<rparr> in
      case tk_Create (sv_taskStore S) ctx task w6 of
        (Some err, w7) \<Rightarrow> (sendRPCError rid RPCCodeInternalError ''Failed to create task'', [], w7)
      | (None, w7) \<Rightarrow> (sendRPCResult rid (ResultTask task),
          [(taskID, Some (initial_state taskID contextID history (sp_Message params)))], w7))"

definition tenant_or_default :: "Ctx \<Rightarrow> string" where
  "tenant_or_default ctx = (case ctx_tenantID ctx of None \<Rightarrow> ''default'' | Some t \<Rightarrow> if t = [] then ''default'' else t)"

definition handleSendMessage :: "'w Server \<Rightarrow> Ctx \<Rightarrow> RPCRequest \<Rightarrow> 'w \<Rightarrow> 'w handled" where
  "handleSendMessage S ctx req w = (case jc_SendParams (sv_codec S) (rq_Params req) of
     None \<Rightarrow> (sendRPCError (rq_ID req) RPCCodeInvalidParams ''Invalid params'', [], w)
   | Some params \<Rightarrow> (case SanitizeMessage (sp_Message params) of
       Some err \<Rightarrow> (case log_rejected S (tenant_or_default ctx) (sp_ContextID params) err w of
           (Some p, w1) \<Rightarrow> (ReplyPanic p, [], w1)
         | (None, w1) \<Rightarrow> (sendRPCError (rq_ID req) RPCCodeInvalidParams (Error err), [], w1))
     | None \<Rightarrow>
         if \<not> HasScope ctx ''agent:write'' then (sendRPCError (rq_ID req) RPCCodeUnauthorized ''Insufficient scope'', [], w)
         else (let (existing, w1) = (if sp_TaskID params = [] then (None, w)
                 else (case tk_GetByID (sv_taskStore S) ctx (sp_TaskID params) w of
                   (Inl _, w1) \<Rightarrow> (None, w1) | (Inr t, w1) \<Rightarrow> (Some t, w1))) in
           case existing of
             Some t \<Rightarrow> if ts_State (t_Status t) = TaskStateInputRequired then continue_task S ctx (rq_ID req) params t w1
               else create_task S ctx (rq_ID req) (tenant_or_default ctx) params w1
           | None \<Rightarrow> create_task S ctx (rq_ID req) (tenant_or_default ctx) params w1)))"

definition handleGetTaskRPC :: "'w Server \<Rightarrow> Ctx \<Rightarrow> RPCRequest \<Rightarrow> 'w \<Rightarrow> 'w handled" where
  "handleGetTaskRPC S ctx req w = (case jc_GetParams (sv_codec S) (rq_Params req) of
     None \<Rightarrow> (sendRPCError (rq_ID req) RPCCodeInvalidParams ''Invalid params'', [], w)
   | Some taskID \<Rightarrow> (case tk_GetByID (sv_taskStore S) ctx taskID w of
       (Inl err, w1) \<Rightarrow> (sendRPCError (rq_ID req) RPCCodeTaskNotFound ''Task not found'', [], w1)
     | (Inr task, w1) \<Rightarrow> (sendRPCResult (rq_ID req) (ResultTask task), [], w1)))"

definition handleGetTask :: "'w Server \<Rightarrow> Ctx \<Rightarrow> string \<Rightarrow> 'w \<Rightarrow> 'w handled" where
  "handleGetTask S ctx taskID w = (case tk_GetByID (sv_taskStore S) ctx taskID w of
     (Inl err, w1) \<Rightarrow> (ReplyError 404 ''task not found'', [], w1)
   | (Inr task, w1) \<Rightarrow> (ReplyTask task, [], w1))"

definition handleCreatePushConfig :: "'w Server \<Rightarrow> Ctx \<Rightarrow> RPCRequest \<Rightarrow> 'w \<Rightarrow> 'w handled" where
  "handleCreatePushConfig S ctx req w = (case jc_PushParams (sv_codec S) (rq_Params req) of
     None \<Rightarrow> (sendRPCError (rq_ID req) RPCCodeInvalidParams ''Invalid params'', [], w)
   | Some params \<Rightarrow> (case sv_uuid S w of (cid, w1) \<Rightarrow>
       let config = \<lparr>wh_ID = cid, wh_URL = pp_URL params, wh_Secret = pp_Secret params,
             wh_EventTypes = pp_EventTypes params, wh_Headers = pp_Headers params\<rparr> in
       (case tk_AddWebhook (sv_taskStore S) ctx (pp_TaskID params) config w1 of
          (Some err, w2) \<Rightarrow> (sendRPCError (rq_ID req) RPCCodeInternalError ''Failed to add webhook'', [], w2)
        | (None, w2) \<Rightarrow> (sendRPCResult (rq_ID req) (ResultConfig config), [], w2))))"

definition handleJSONRPC :: "'w Server \<Rightarrow> Ctx \<Rightarrow> string \<Rightarrow> 'w \<Rightarrow> 'w handled" where
  "handleJSONRPC S ctx body w = (case jc_Request (sv_codec S) body of
     None \<Rightarrow> (sendRPCError GNil RPCCodeParseError ''Parse error'', [], w)
   | Some req \<Rightarrow>
       if rq_JSONRPC req \<noteq> ''2.0'' then (sendRPCError (rq_ID req) RPCCodeInvalidRequest ''Invalid Request'', [], w)
       else if rq_Method req = ''message/send'' then handleSendMessage S ctx req w
       else if rq_Method req = ''tasks/get'' then handleGetTaskRPC S ctx req w
       else if rq_Method req = ''tasks/pushNotificationConfig/create'' then handleCreatePushConfig S ctx req w
       else (sendRPCError (rq_ID req) RPCCodeMethodNotFound ''Method not found'', [], w))"

text \<open>
  The event stream of a task: what the loop of \<open>handleTaskEvents\<close> writes for the inputs it sees
  (events published on the bus, ticks of the keep-alive timer, the end of the request), for a
  client that reads as fast as events arrive.
\<close>

datatype sse_in = SseBus Event | SseTick | SseGone

definition sse_wanted :: "string \<Rightarrow> Event \<Rightarrow> bool" where
  "sse_wanted taskID ev \<longleftrightarrow> ev_Type ev \<in> {EventNodeCompleted, EventTaskCompleted, EventAgentPaused}
     \<and> (ev_TaskID ev = taskID \<or> ev_SessionID ev = taskID)"

definition sse_frame :: "RpcCodec \<Rightarrow> Event \<Rightarrow> string" where
  "sse_frame jc ev = ''event: '' @ event_text (ev_Type ev) @ [CHR 0x0A]
     @ ''data: '' @ jc_EventText jc ev @ [CHR 0x0A, CHR 0x0A]"

fun sse_loop :: "RpcCodec \<Rightarrow> string \<Rightarrow> sse_in list \<Rightarrow> string" where
  "sse_loop jc taskID [] = []"
| "sse_loop jc taskID (SseGone # ins) = []"
| "sse_loop jc taskID (SseTick # ins) = '': keep-alive'' @ [CHR 0x0A, CHR 0x0A] @ sse_loop jc taskID ins"
| "sse_loop jc taskID (SseBus ev # ins) =
     (if \<not> sse_wanted taskID ev then sse_loop jc taskID ins
      else if ev_Type ev = EventTaskCompleted then sse_frame jc ev
      else sse_frame jc ev @ sse_loop jc taskID ins)"

definition handleTaskEvents :: "'w Server \<Rightarrow> bool \<Rightarrow> string \<Rightarrow> sse_in list \<Rightarrow> reply" where
  "handleTaskEvents S flusher taskID ins =
     (if \<not> flusher then ReplyError 500 ''Streaming unsupported''
      else if \<not> sv_hasBus S then ReplyPanic NilDereference
      else ReplyStream (sse_loop (sv_codec S) taskID ins))"

definition handleGetTimeline :: "'w Server \<Rightarrow> Ctx \<Rightarrow> string \<Rightarrow> 'w \<Rightarrow> 'w handled" where
  "handleGetTimeline S ctx taskID w =
     (if \<not> HasScope ctx ''agent:debug'' then (ReplyError 403 ''Insufficient scope'', [], w)
      else (case GetTimeline (sv_sorter S) (sv_memory S) ctx taskID w of
        (Inl err, w1) \<Rightarrow> (ReplyError 500 (Error err), [], w1)
      | (Inr timeline, w1) \<Rightarrow> (ReplyTimeline timeline, [], w1)))"

definition handleDiffCheckpoints :: "'w Server \<Rightarrow> Ctx \<Rightarrow> string \<Rightarrow> string \<Rightarrow> 'w \<Rightarrow> 'w handled" where
  "handleDiffCheckpoints S ctx cpA cpB w =
     (if \<not> HasScope ctx ''agent:debug'' then (ReplyError 403 ''Insufficient scope'', [], w)
      else (case DiffCheckpoints (sv_render S) (sv_memory S) ctx cpA cpB w of
        (Inl err, w1) \<Rightarrow> (ReplyError 500 (Error err), [], w1)
      | (Inr diff, w1) \<Rightarrow> (ReplyDiff diff, [], w1)))"

definition handleReplayFrom :: "'w Server \<Rightarrow> Ctx \<Rightarrow> string \<Rightarrow> 'w \<Rightarrow> 'w handled" where
  "handleReplayFrom S ctx checkpointID w =
     (if \<not> HasScope ctx ''agent:debug'' then (ReplyError 403 ''Insufficient scope'', [], w)
      else (case ReplayFrom (sv_memory S) ctx checkpointID w of
        (Inl err, w1) \<Rightarrow> (ReplyError 500 (Error err), [], w1)
      | (Inr s, w1) \<Rightarrow>
          (let tid = fst (GetStringVariable s ''tenant_id'');
               tenantID = (if tid = [] then ''default'' else tid) in
           case sv_uuid S w1 of (taskID, w2) \<Rightarrow>
           case sv_now S w2 of (t1, w3) \<Rightarrow> case sv_now S w3 of (t2, w4) \<Rightarrow> case sv_now S w4 of (t3, w5) \<Rightarrow>
           let task = \<lparr>t_ID = taskID, t_ContextID = ContextID s, t_TenantID = tenantID,
                 t_Status = \<lparr>ts_State = TaskStateWorking, ts_Timestamp = t1, ts_Message = []\<rparr>,
                 t_History = Messages s, t_Artifacts = [], t_Webhooks = [], t_Metadata = None,
                 t_CreatedAt = t2, t_UpdatedAt = t3\<rparr> in
           case tk_Create (sv_taskStore S) ctx task w5 of
             (Some err, w6) \<Rightarrow> (ReplyError 500 (Error err), [], w6)
           | (None, w6) \<Rightarrow> (ReplyTask task, [(taskID, Some s)], w6))))"

section \<open>Routing and background runs\<close>

datatype Route =
    RouteCard | RouteMetrics
  | RouteRPC string
  | RouteGetTask string
  | RouteTaskEvents string bool "sse_in list"
  | RouteCancel string
  | RouteTimeline string
  | RouteDiff string string
  | RouteReplay string

fun handle_authenticated :: "'w Server \<Rightarrow> Ctx \<Rightarrow> Route \<Rightarrow> 'w \<Rightarrow> 'w handled" where
  "handle_authenticated S ctx (RouteRPC body) w = handleJSONRPC S ctx body w"
| "handle_authenticated S ctx (RouteGetTask tid) w = handleGetTask S ctx tid w"
| "handle_authenticated S ctx (RouteTaskEvents tid flusher ins) w = (handleTaskEvents S flusher tid ins, [], w)"
| "handle_authenticated S ctx (RouteCancel tid) w = (ReplyStatus 202, [], w)"
| "handle_authenticated S ctx (RouteTimeline tid) w = handleGetTimeline S ctx tid w"
| "handle_authenticated S ctx (RouteDiff a b) w = handleDiffCheckpoints S ctx a b w"
| "handle_authenticated S ctx (RouteReplay ck) w = handleReplayFrom S ctx ck w"
| "handle_authenticated S ctx RouteCard w = (ReplyCard (sv_card S), [], w)"
| "handle_authenticated S ctx RouteMetrics w = (ReplyMetrics, [], w)"

definition ServeHTTP :: "'w Server \<Rightarrow> string \<Rightarrow> Ctx \<Rightarrow> Route \<Rightarrow> 'w \<Rightarrow> 'w handled" where
  "ServeHTTP S authHeader ctx route w = (case route of
     RouteCard \<Rightarrow> (ReplyCard (sv_card S), [], w)
   | RouteMetrics \<Rightarrow> (ReplyMetrics, [], w)
   | _ \<Rightarrow> (case Middleware (sv_jwt S) (e_rt (sv_engine S)) (sv_secret S) authHeader ctx w of
       (Inl (status, msg), w1) \<Rightarrow> (ReplyError status msg, [], w1)
     | (Inr ctx', w1) \<Rightarrow> handle_authenticated S ctx' route w1))"

text \<open>A background run: a fresh context, and its result is dropped.\<close>

definition run_job :: "'w Server \<Rightarrow> job \<Rightarrow> 'w \<Rightarrow> 'w outcome option" where
  "run_job S j w = Start (sv_engine S) Background (fst j) (snd j) w"

inductive server_step :: "'w Server \<Rightarrow> job list \<times> 'w \<Rightarrow> job list \<times> 'w \<Rightarrow> bool" for S where
  request: "ServeHTTP S auth ctx route w = (rep, js, w') \<Longrightarrow> server_step S (jobs, w) (jobs @ js, w')"
| background: "jobs = as @ j # bs \<Longrightarrow> run_job S j w = Some (Returned so err w') \<Longrightarrow> server_step S (jobs, w) (as @ bs, w')"

inductive_cases server_stepE: "server_step S c d"

section \<open>Lemmas: authentication\<close>

lemma any_scope_iff: "any_scope ss scope \<longleftrightarrow> scope \<in> set ss \<or> ''agent:admin'' \<in> set ss"
  by (induction ss) auto

lemma Split_one: "c \<notin> set s \<Longrightarrow> Split s c = [s]"
  by (induction s) auto

lemma Split_two: "c \<notin> set a \<Longrightarrow> c \<notin> set b \<Longrightarrow> Split (a @ c # b) c = [a, b]"
  by (simp add: Split_line Split_one)

text \<open>Claims a request was authenticated with.\<close>

definition authenticated :: "'w Server \<Rightarrow> string \<Rightarrow> Claims \<Rightarrow> bool" where
  "authenticated S auth claims \<longleftrightarrow> (\<exists>scheme tok now. Split auth (CHR '' '') = [scheme, tok]
     \<and> ToLower scheme = ''bearer'' \<and> jwt_Parse (sv_jwt S) (sv_secret S) now tok = Some claims)"

lemma Middleware_Inr:
  assumes "Middleware (sv_jwt S) rt (sv_secret S) auth ctx w = (Inr ctx', w1)"
  shows "\<exists>claims. authenticated S auth claims
    \<and> ctx' = ctx\<lparr>ctx_tenantID := Some (cl_TenantID claims), ctx_scopes := Some (cl_Scopes claims)\<rparr>"
  using assms unfolding Middleware_def authenticated_def
  by (auto split: if_splits list.splits prod.splits option.splits)

section \<open>Lemmas: what starts a run\<close>

lemma initial_state_facts [simp]:
  "TaskID (initial_state tid cid h m) = tid" "Messages (initial_state tid cid h m) = h @ [m]"
  "LastMessage (initial_state tid cid h m) = m"
  by (simp_all add: initial_state_def WithMessage_def clone_def LastMessage_def Let_def)

lemma create_task_jobs:
  assumes "create_task S ctx rid tenant params w = (rep, js, w')"
  shows "js = [] \<or> (\<exists>tid st. js = [(tid, Some st)] \<and> LastMessage st = sp_Message params \<and> TaskID st = tid)"
  using assms unfolding create_task_def Let_def
  by (auto split: prod.splits option.splits)

lemma send_jobs:
  assumes "handleSendMessage S ctx req w = (rep, js, w')" and "js \<noteq> []"
  shows "HasScope ctx ''agent:write'' \<and> length js = 1
    \<and> (\<exists>params. jc_SendParams (sv_codec S) (rq_Params req) = Some params \<and> SanitizeMessage (sp_Message params) = None)"
proof -
  have "length js = 1" if "create_task S ctx rid tenant params u = (rep, js, w')" for rid tenant params u
    using create_task_jobs [OF that] assms(2) by auto
  with assms show ?thesis unfolding handleSendMessage_def Let_def continue_task_def
    by (auto split: option.splits prod.splits if_splits sum.splits)
qed

lemma replay_jobs:
  "handleReplayFrom S ctx ck w = (rep, js, w') \<Longrightarrow> js \<noteq> [] \<Longrightarrow> HasScope ctx ''agent:debug'' \<and> length js = 1"
  unfolding handleReplayFrom_def Let_def
  by (auto split: prod.splits if_splits sum.splits option.splits)

lemma quiet_handlers:
  "handleGetTaskRPC S ctx req w = (rep, js, w') \<Longrightarrow> js = []"
  "handleCreatePushConfig S ctx req w = (rep, js, w') \<Longrightarrow> js = []"
  "handleGetTask S ctx tid w = (rep, js, w') \<Longrightarrow> js = []"
  "handleGetTimeline S ctx tid w = (rep, js, w') \<Longrightarrow> js = []"
  "handleDiffCheckpoints S ctx a b w = (rep, js, w') \<Longrightarrow> js = []"
  unfolding handleGetTaskRPC_def handleCreatePushConfig_def handleGetTask_def handleGetTimeline_def
    handleDiffCheckpoints_def Let_def
  by (auto split: option.splits prod.splits sum.splits if_splits)

lemma rpc_jobs:
  assumes "handleJSONRPC S ctx body w = (rep, js, w')" and "js \<noteq> []"
  shows "\<exists>req params. jc_Request (sv_codec S) body = Some req \<and> rq_Method req = ''message/send''
    \<and> jc_SendParams (sv_codec S) (rq_Params req) = Some params
    \<and> SanitizeMessage (sp_Message params) = None \<and> HasScope ctx ''agent:write'' \<and> length js = 1"
  using assms send_jobs [of S ctx _ w rep js w']
  unfolding handleJSONRPC_def
  by (auto split: option.splits if_splits dest: quiet_handlers)

section \<open>Lemmas: the server as a client of its task store\<close>

text \<open>
  A server whose clock, id generator and context index leave the store's invariant alone.
\<close>

locale task_server = task_store T inv owns
  for T :: "'w TaskStore" and inv :: "'w \<Rightarrow> bool" and owns :: "Ctx \<Rightarrow> Task \<Rightarrow> bool" +
  fixes S :: "'w Server"
  assumes store: "sv_taskStore S = T"
    and uuid_inv: "inv w \<Longrightarrow> inv (snd (sv_uuid S w))"
    and now_inv: "inv w \<Longrightarrow> inv (snd (sv_now S w))"
    and list_inv: "inv w \<Longrightarrow> inv (snd (tk_ListByContextID T ctx cid w))"
    and owns_tenant: "ctx_tenantID ctx \<noteq> Some [] \<Longrightarrow> t_TenantID t = tenant_or_default ctx \<Longrightarrow> owns ctx t"
begin

lemma or_uuid_inv: "inv w \<Longrightarrow> inv (snd (or_uuid S i w))"
  by (simp add: or_uuid_def uuid_inv)

lemma history_inv: "inv w \<Longrightarrow> inv (snd (inherited_history S ctx cid w))"
  using list_inv [of w ctx cid]
  by (cases "tk_ListByContextID T ctx cid w") (auto simp: inherited_history_def store split: sum.split)

lemma create_task_readable:
  assumes "inv w" and "ctx_tenantID ctx \<noteq> Some []"
    and "create_task S ctx rid (tenant_or_default ctx) params w = (rep, js, w')"
  shows "rep = sendRPCError rid RPCCodeInternalError ''Failed to create task'' \<and> js = []
    \<or> (\<exists>t st. rep = sendRPCResult rid (ResultTask t) \<and> js = [(t_ID t, Some st)]
        \<and> fst (tk_GetByID T ctx (t_ID t) w') = Inr (json_task t)
        \<and> ts_State (t_Status t) = TaskStateSubmitted \<and> t_TenantID t = tenant_or_default ctx
        \<and> TaskID st = t_ID t \<and> Messages st = t_History t @ [sp_Message params])"
proof -
  obtain tid w1 where 1: "or_uuid S (sp_TaskID params) w = (tid, w1)" by fastforce
  obtain cid w2 where 2: "or_uuid S (sp_ContextID params) w1 = (cid, w2)" by fastforce
  obtain t1 w3 where 3: "sv_now S w2 = (t1, w3)" by fastforce
  obtain t2 w4 where 4: "sv_now S w3 = (t2, w4)" by fastforce
  obtain t3 w5 where 5: "sv_now S w4 = (t3, w5)" by fastforce
  obtain h w6 where 6: "inherited_history S ctx (sp_ContextID params) w5 = (h, w6)" by fastforce
  have i6: "inv w6"
    using or_uuid_inv [OF assms(1), of "sp_TaskID params"] or_uuid_inv [of w1 "sp_ContextID params"]
      now_inv [of w2] now_inv [of w3] now_inv [of w4] history_inv [of w5 ctx "sp_ContextID params"] 1 2 3 4 5 6 by simp
  let ?t = "\<lparr>t_ID = tid, t_ContextID = cid, t_TenantID = tenant_or_default ctx,
      t_Status = \<lparr>ts_State = TaskStateSubmitted, ts_Timestamp = t1, ts_Message = []\<rparr>,
      t_History = h, t_Artifacts = [], t_Webhooks = [], t_Metadata = None, t_CreatedAt = t2, t_UpdatedAt = t3\<rparr>"
  obtain res w7 where 7: "tk_Create T ctx ?t w6 = (res, w7)" by fastforce
  show ?thesis
  proof (cases res)
    case None
    have "owns ctx ?t" using assms(2) by (rule owns_tenant) simp
    from get_after_create [OF i6 this] 7 None have "fst (tk_GetByID T ctx tid w7) = Inr (json_task ?t)" by fastforce
    with assms(3) 1 2 3 4 5 6 7 None show ?thesis
      by (auto simp: create_task_def store Let_def)
  qed (use assms(3) 1 2 3 4 5 6 7 in \<open>auto simp: create_task_def store Let_def\<close>)
qed

text \<open>What a client reads with \<open>tasks/get\<close> after its message was accepted.\<close>

lemma sent_then_get:
  assumes "inv w" and "ctx_tenantID ctx \<noteq> Some []" and "HasScope ctx ''agent:write''"
    and "jc_SendParams (sv_codec S) (rq_Params req) = Some params" and "SanitizeMessage (sp_Message params) = None"
    and "sp_TaskID params = []"
    and "handleSendMessage S ctx req w = (rep, js, w')"
  shows "rep = sendRPCError (rq_ID req) RPCCodeInternalError ''Failed to create task'' \<and> js = []
    \<or> (\<exists>t st. rep = sendRPCResult (rq_ID req) (ResultTask t) \<and> js = [(t_ID t, Some st)]
        \<and> (\<forall>greq. jc_GetParams (sv_codec S) (rq_Params greq) = Some (t_ID t) \<longrightarrow>
             fst (handleGetTaskRPC S ctx greq w') = sendRPCResult (rq_ID greq) (ResultTask (json_task t)))
        \<and> ts_State (t_Status t) = TaskStateSubmitted \<and> t_TenantID t = tenant_or_default ctx
        \<and> TaskID st = t_ID t \<and> Messages st = t_History t @ [sp_Message params])"
proof -
  have "create_task S ctx (rq_ID req) (tenant_or_default ctx) params w = (rep, js, w')"
    using assms(3-7) by (simp add: handleSendMessage_def)
  from create_task_readable [OF assms(1,2) this] show ?thesis
    by (fastforce simp: handleGetTaskRPC_def store split: prod.split)
qed

end

text \<open>A server over the Redis task store is such a server.\<close>

context redis_client
begin

lemma fetch_tasks_pure: "inv w \<Longrightarrow> snd (fetch_tasks R s ctx vs w) = w"
proof (induction vs)
  case (Cons v vs)
  show ?case
  proof (cases v)
    case (DText i)
    have "snd (Task_GetByID R s ctx i w) = w"
      using Cons.prems by (auto simp: get_task_view split: option.split redis_value.split)
    then obtain r where "Task_GetByID R s ctx i w = (r, w)" by (cases "Task_GetByID R s ctx i w") auto
    with DText Cons show ?thesis by (cases r) (auto simp: case_prod_beta)
  qed (use Cons in auto)
qed simp

lemma list_context_pure: "inv w \<Longrightarrow> snd (Task_ListByContextID R s ctx cid w) = w"
  using fetch_tasks_pure [of w s ctx] by (auto simp: Task_ListByContextID_def lrange case_prod_beta)

end

definition redis_server ::
  "'w RedisClient \<Rightarrow> ('w \<Rightarrow> string \<times> 'w) \<Rightarrow> ('w \<Rightarrow> time \<times> 'w) \<Rightarrow> RedisTaskStore \<Rightarrow> 'w Server \<Rightarrow> 'w Server" where
  "redis_server R gen clock s S = S\<lparr>sv_taskStore := RedisTaskStore_ops R clock s, sv_uuid := gen,
     sv_engine := (sv_engine S)\<lparr>e_rt := (e_rt (sv_engine S))\<lparr>rt_Now := clock\<rparr>\<rparr>\<rparr>"

sublocale redis_client \<subseteq> redis_srv: task_server
  "RedisTaskStore_ops R clock s" inv "\<lambda>ctx t. tenantFromCtx ctx = task_tenant t" "redis_server R gen clock s S"
  for s S
proof unfold_locales
  fix w
  assume "inv w"
  then show "inv (snd (sv_uuid (redis_server R gen clock s S) w))"
    using gen [of w] by (cases "gen w") (simp add: redis_server_def)
next
  fix w
  assume "inv w"
  then show "inv (snd (sv_now (redis_server R gen clock s S) w))"
    using clock [of w] by (cases "clock w") (simp add: redis_server_def)
next
  fix w ctx cid
  assume "inv w"
  then show "inv (snd (tk_ListByContextID (RedisTaskStore_ops R clock s) ctx cid w))"
    by (simp add: RedisTaskStore_ops_def list_context_pure)
next
  fix ctx and t :: Task
  assume "ctx_tenantID ctx \<noteq> Some []" "t_TenantID t = tenant_or_default ctx"
  then show "tenantFromCtx ctx = task_tenant t"
    by (auto simp: tenantFromCtx_def task_tenant_def tenant_or_default_def split: option.splits)
qed (simp add: redis_server_def)

context redis_client
begin

lemmas server_sent_then_get = redis_srv.sent_then_get

end

section \<open>A sample server\<close>

definition sample_claims :: Claims where
  "sample_claims = \<lparr>cl_TenantID = ''acme'', cl_Scopes = [''agent:write''], cl_ExpiresAt = 60000000000, cl_IssuedAt = 0\<rparr>"

definition sample_jwt :: Jwt where
  "sample_jwt = \<lparr>jwt_Sign = (\<lambda>secret c. if c = sample_claims then Inr ''tok'' else Inl (ErrorText ''unsupported'')),
     jwt_Parse = (\<lambda>secret now t. if t = ''tok'' \<and> now < 60000000000 then Some sample_claims else None)\<rparr>"

definition sample_params :: "string \<Rightarrow> SendMessageParams" where
  "sample_params tid = \<lparr>sp_Message = zero_Message\<lparr>m_Parts := [text_part ''hello'']\<rparr>, sp_TaskID = tid, sp_ContextID = [],
     sp_ReturnImmediately = True, sp_Configuration = None\<rparr>"

definition sample_rpc_codec :: "string \<Rightarrow> RpcCodec" where
  "sample_rpc_codec tid = \<lparr>jc_Request = (\<lambda>b. Some \<lparr>rq_JSONRPC = ''2.0'', rq_Method = b, rq_Params = [], rq_ID = GInt 1\<rparr>),
     jc_SendParams = (\<lambda>t. Some (sample_params tid)), jc_GetParams = (\<lambda>t. Some t), jc_PushParams = (\<lambda>t. None),
     jc_EventText = (\<lambda>ev. [])\<rparr>"

definition sample_server :: "string \<Rightarrow> redis_world Server" where
  "sample_server tid = redis_server redis_db redis_gen redis_clock default_task_store
     (NewServer (NewEngine \<lparr>rt_Now = redis_clock, rt_Rand = (\<lambda>w. (0, w)), rt_Wait = (\<lambda>ctx d w. (None, w))\<rparr> (Some sample_graph)
         (RedisMemoryStore_ops redis_db redis_gen redis_clock default_redis_store) None [])
       (RedisTaskStore_ops redis_db redis_clock default_task_store)
       (RedisMemoryStore_ops redis_db redis_gen redis_clock default_redis_store) NewConcreteToolRegistry False
       \<lparr>so_Name = [], so_Description = [], so_Version = [], so_URL = [], so_Secret = ''s''\<rparr>
       None redis_gen (sample_rpc_codec tid) sample_jwt (sort_key sn_Timestamp) (\<lambda>_. []))"

lemma sample_server_simps [simp]:
  "sv_codec (sample_server tid) = sample_rpc_codec tid" "sv_jwt (sample_server tid) = sample_jwt"
  "sv_secret (sample_server tid) = ''s''" "sv_uuid (sample_server tid) = redis_gen"
  "sv_taskStore (sample_server tid) = RedisTaskStore_ops redis_db redis_clock default_task_store"
  "rt_Now (e_rt (sv_engine (sample_server tid))) = redis_clock" "e_graph (sv_engine (sample_server tid)) = Some sample_graph"
  by (simp_all add: sample_server_def redis_server_def NewServer_def NewEngine_def)

lemma sample_sanitized [simp]: "SanitizeMessage (sp_Message (sample_params tid)) = None"
proof -
  have "SanitizeInput ''hello'' = None" by (simp add: SanitizeInput_def injectionPatterns_def byte_lower_def)
  then show ?thesis by (simp add: sample_params_def SanitizeMessage_def text_part_def)
qed

definition writer_ctx :: Ctx where
  "writer_ctx = Background\<lparr>ctx_tenantID := Some ''acme'', ctx_scopes := Some [''agent:write'']\<rparr>"

lemma writer_scope [simp]: "HasScope writer_ctx ''agent:write''" "ctx_tenantID writer_ctx = Some ''acme''"
  by (simp_all add: writer_ctx_def HasScope_def)

lemma sample_params_simps [simp]: "sp_TaskID (sample_params tid) = tid" "sp_ContextID (sample_params tid) = []"
  by (simp_all add: sample_params_def)

lemma sample_codec_simps [simp]:
  "jc_SendParams (sample_rpc_codec tid) t = Some (sample_params tid)"
  "jc_Request (sample_rpc_codec tid) b = Some \<lparr>rq_JSONRPC = ''2.0'', rq_Method = b, rq_Params = [], rq_ID = GInt 1\<rparr>"
  by (simp_all add: sample_rpc_codec_def)

lemma sample_send:
  "handleSendMessage (sample_server []) writer_ctx req w
    = create_task (sample_server []) writer_ctx (rq_ID req) ''acme'' (sample_params []) w"
  by (simp add: handleSendMessage_def tenant_or_default_def)

lemma sample_create_jobs:
  "fst (snd (create_task (sample_server []) writer_ctx rid ''acme'' (sample_params []) w)) \<noteq> []"
  by (simp add: create_task_def or_uuid_def inherited_history_def Task_Create_def marshal_task_def task_json_ok_def
      vars_json_ok_def redis_db_def Let_def split: prod.split)

section \<open>Properties of the server\<close>

text \<open>
  C20: only authorised requests start the engine. A request starts at most one background run,
  and only when it carries a bearer token that the JWT package accepts and either it is a
  \<open>message/send\<close> whose message passes the sanitizer, with a token of scope \<open>agent:write\<close> or
  \<open>agent:admin\<close>, or it is a replay, with a token of scope \<open>agent:debug\<close> or \<open>agent:admin\<close>.
\<close>

theorem runs_need_authorisation:
  assumes "ServeHTTP S auth ctx route w = (rep, js, w')" and "js \<noteq> []"
  shows "length js = 1 \<and> (\<exists>claims. authenticated S auth claims
    \<and> (case route of
         RouteRPC body \<Rightarrow> (\<exists>req params. jc_Request (sv_codec S) body = Some req \<and> rq_Method req = ''message/send''
             \<and> jc_SendParams (sv_codec S) (rq_Params req) = Some params \<and> SanitizeMessage (sp_Message params) = None)
           \<and> {''agent:write'', ''agent:admin''} \<inter> set (cl_Scopes claims) \<noteq> {}
       | RouteReplay ck \<Rightarrow> {''agent:debug'', ''agent:admin''} \<inter> set (cl_Scopes claims) \<noteq> {}
       | _ \<Rightarrow> False))"
proof -
  obtain m w1 where m: "Middleware (sv_jwt S) (e_rt (sv_engine S)) (sv_secret S) auth ctx w = (m, w1)" by fastforce
  with assms obtain ctx' where c: "m = Inr ctx'" and h: "handle_authenticated S ctx' route w1 = (rep, js, w')"
    by (auto simp: ServeHTTP_def split: Route.splits sum.splits prod.splits)
  from Middleware_Inr [OF m [unfolded c]] obtain claims where a: "authenticated S auth claims"
    and ctx': "ctx' = ctx\<lparr>ctx_tenantID := Some (cl_TenantID claims), ctx_scopes := Some (cl_Scopes claims)\<rparr>" by blast
  have sc: "HasScope ctx' sco \<longleftrightarrow> {sco, ''agent:admin''} \<inter> set (cl_Scopes claims) \<noteq> {}" for sco
    by (auto simp: HasScope_def ctx' any_scope_iff)
  show ?thesis
  proof (cases route)
    case (RouteRPC body)
    with h rpc_jobs [of S ctx' body w1 rep js w'] assms(2) a sc [of "''agent:write''"] show ?thesis by auto
  next
    case (RouteReplay ck)
    with h replay_jobs [of S ctx' ck w1 rep js w'] assms(2) a sc [of "''agent:debug''"] show ?thesis by auto
  qed (use h assms(2) in \<open>auto dest: quiet_handlers\<close>)
qed

theorem runs_need_authorisation_witness:
  "\<exists>rep js w'. ServeHTTP (sample_server []) ''Bearer tok'' Background (RouteRPC ''message/send'') new_redis = (rep, js, w')
    \<and> length js = 1"
proof -
  have "Split ''Bearer tok'' (CHR '' '') = [''Bearer'', ''tok'']" "ToLower ''Bearer'' = ''bearer''" by code_simp+
  then have "Middleware sample_jwt (e_rt (sv_engine (sample_server []))) ''s'' ''Bearer tok'' Background new_redis
      = (Inr writer_ctx, snd (redis_clock new_redis))"
    by (simp add: Middleware_def sample_jwt_def redis_clock_def new_redis_def sample_claims_def writer_ctx_def)
  then have "ServeHTTP (sample_server []) ''Bearer tok'' Background (RouteRPC ''message/send'') new_redis
      = handleSendMessage (sample_server []) writer_ctx
          \<lparr>rq_JSONRPC = ''2.0'', rq_Method = ''message/send'', rq_Params = [], rq_ID = GInt 1\<rparr> (snd (redis_clock new_redis))"
    by (simp add: ServeHTTP_def handleJSONRPC_def)
  moreover have "fst (snd (handleSendMessage (sample_server []) writer_ctx
      \<lparr>rq_JSONRPC = ''2.0'', rq_Method = ''message/send'', rq_Params = [], rq_ID = GInt 1\<rparr> (snd (redis_clock new_redis)))) \<noteq> []"
    unfolding sample_send by (rule sample_create_jobs)
  ultimately obtain rep js w' where
    s: "ServeHTTP (sample_server []) ''Bearer tok'' Background (RouteRPC ''message/send'') new_redis = (rep, js, w')" "js \<noteq> []"
    by (metis prod.collapse)
  with runs_need_authorisation [OF s] show ?thesis by blast
qed




definition waiting_task :: Task where
  "waiting_task = acme_task\<lparr>t_Status := \<lparr>ts_State = TaskStateInputRequired, ts_Timestamp = 0, ts_Message = []\<rparr>\<rparr>"


text \<open>
  C23: a token opens the door it was made for. Under the documented behaviour of the JWT package
  (a token it signed is parsed with the same secret, before it expires, to the same claims, and
  has no space), a generated token presented as a bearer token authenticates its tenant, and the
  context has exactly the scopes of the token (and every scope with \<open>agent:admin\<close>) until the
  expiry, cut to the second.
\<close>

theorem token_roundtrip:
  assumes "\<forall>c tok. jwt_Sign jwt secret c = Inr tok \<longrightarrow> CHR '' '' \<notin> set tok
      \<and> (\<forall>now. jwt_Parse jwt secret now tok = (if now < cl_ExpiresAt c then Some c else None))"
    and "GenerateToken jwt rt secret tenant scopes dur w = (Inr tok, w1)"
    and "rt_Now rt w = (t0, w0)" and "rt_Now rt w2 = (now, w3)"
  shows "if now < (t0 + dur) div 1000000000 * 1000000000
    then (\<exists>ctx'. Middleware jwt rt secret (''Bearer '' @ tok) ctx w2 = (Inr ctx', w3)
      \<and> tenantFromCtx ctx' = tenant \<and> (\<forall>sco. HasScope ctx' sco \<longleftrightarrow> sco \<in> set scopes \<or> ''agent:admin'' \<in> set scopes))
    else Middleware jwt rt secret (''Bearer '' @ tok) ctx w2 = (Inl (401, ''invalid token''), w3)"
proof -
  obtain t2 where sign: "jwt_Sign jwt secret \<lparr>cl_TenantID = tenant, cl_Scopes = scopes,
      cl_ExpiresAt = numeric_date (t0 + dur), cl_IssuedAt = t2\<rparr> = Inr tok"
    using assms(2,3) by (auto simp: GenerateToken_def split: prod.splits)
  let ?c = "\<lparr>cl_TenantID = tenant, cl_Scopes = scopes, cl_ExpiresAt = numeric_date (t0 + dur), cl_IssuedAt = t2\<rparr>"
  from assms(1) sign have tok: "CHR '' '' \<notin> set tok"
    "jwt_Parse jwt secret now tok = (if now < numeric_date (t0 + dur) then Some ?c else None)" by force+
  have "Split (''Bearer '' @ tok) (CHR '' '') = [''Bearer'', tok]"
    using Split_two [of "CHR '' ''" "''Bearer''" tok] tok(1) by simp
  moreover have "ToLower ''Bearer'' = ''bearer''" by code_simp
  ultimately show ?thesis using tok(2) assms(4)
    by (simp add: Middleware_def numeric_date_def HasScope_def any_scope_iff tenantFromCtx_def)
qed

theorem token_roundtrip_witness:
  "\<exists>ctx'. Middleware sample_jwt \<lparr>rt_Now = (\<lambda>w. (w, w)), rt_Rand = (\<lambda>w. (0, w)), rt_Wait = (\<lambda>ctx d w. (None, w))\<rparr> ''s''
      ''Bearer tok'' Background 5 = (Inr ctx', 5) \<and> HasScope ctx' ''agent:write'' \<and> \<not> HasScope ctx' ''agent:debug''"
proof -
  let ?rt = "\<lparr>rt_Now = (\<lambda>w. (w, w)), rt_Rand = (\<lambda>w. (0, w)), rt_Wait = (\<lambda>ctx d w. (None, w))\<rparr> :: int Runtime"
  have jwt: "\<forall>c tok. jwt_Sign sample_jwt ''s'' c = Inr tok \<longrightarrow> CHR '' '' \<notin> set tok
      \<and> (\<forall>now. jwt_Parse sample_jwt ''s'' now tok = (if now < cl_ExpiresAt c then Some c else None))"
    by (auto simp: sample_jwt_def sample_claims_def)
  have "GenerateToken sample_jwt ?rt ''s'' ''acme'' [''agent:write''] 60000000000 0 = (Inr ''tok'', 0)"
    by (simp add: GenerateToken_def sample_jwt_def sample_claims_def numeric_date_def)
  from token_roundtrip [OF jwt this, of 0 0 5 5 5 Background]
  obtain ctx' where "Middleware sample_jwt ?rt ''s'' (''Bearer '' @ ''tok'') Background 5 = (Inr ctx', 5)"
    "\<forall>sco. HasScope ctx' sco \<longleftrightarrow> sco \<in> set [''agent:write''] \<or> ''agent:admin'' \<in> set [''agent:write'']" by auto
  then show ?thesis by (intro exI [of _ ctx']) simp
qed

end
