(* ===== verification/A2A_Client.thy ===== *)
theory A2A_Client
  imports A2A_Server
begin

text \<open>
  Package \<open>a2a\<close>: the client of remote agents, the node that delegates to one, the webhook
  dispatcher and the gRPC front end. The HTTP client is the parameter \<open>A2AHttp\<close>, the decoding of
  response bodies and event texts the parameter \<open>A2ADecoder\<close>. The trace headers that the tracing
  package injects into a request are left out.
\<close>

section \<open>The client (a2a/client.go)\<close>

datatype a2a_body =
    NoBody
  | RpcBody string string "SendMessageParams option" int
  | EventBody string

record A2ARequest =
  aq_Method :: string
  aq_URL :: string
  aq_Headers :: "(string, string) gomap"
  aq_Body :: a2a_body

record 'w A2AHttp =
  ah_URL :: "string \<Rightarrow> go_error option"
  ah_Do :: "Ctx \<Rightarrow> A2ARequest \<Rightarrow> 'w \<Rightarrow> (go_error + HttpResponse) \<times> 'w"
  ah_Done :: "Ctx \<Rightarrow> 'w \<Rightarrow> bool \<times> 'w"
  ah_Now :: "'w \<Rightarrow> time \<times> 'w"
  ah_Sleep :: "duration \<Rightarrow> 'w \<Rightarrow> 'w"

record A2ADecoder =
  dc_Card :: "HttpResponse \<Rightarrow> go_error + AgentCard"
  dc_RPC :: "HttpResponse \<Rightarrow> go_error + RPCResponse"
  dc_Event :: "string \<Rightarrow> Event option"
  dc_Task :: "rpc_result option \<Rightarrow> go_error + Task"

definition send_request ::
  "'w A2AHttp \<Rightarrow> Ctx \<Rightarrow> A2ARequest \<Rightarrow> 'w \<Rightarrow> (go_error + HttpResponse) \<times> 'w" where
  "send_request env ctx req w = (case ah_URL env (aq_URL req) of Some err \<Rightarrow> (Inl err, w) | None \<Rightarrow> ah_Do env ctx req w)"

definition bearer :: "string \<Rightarrow> (string, string) gomap" where
  "bearer token = (if token \<noteq> [] then [(''Authorization'', ''Bearer '' @ token)] else [])"

definition Discover ::
  "'w A2AHttp \<Rightarrow> A2ADecoder \<Rightarrow> Ctx \<Rightarrow> string \<Rightarrow> 'w \<Rightarrow> (go_error + AgentCard) \<times> 'w" where
  "Discover env dc ctx agentURL w =
     (case send_request env ctx \<lparr>aq_Method = ''GET'', aq_URL = TrimSuffix agentURL ''/'' @ ''/.well-known/agent.json'',
        aq_Headers = [], aq_Body = NoBody\<rparr> w of
        (Inl err, w1) \<Rightarrow> (Inl err, w1)
      | (Inr resp, w1) \<Rightarrow>
          if hp_StatusCode resp \<noteq> 200
          then (Inl (ErrorText (''failed to fetch agent card: '' @ itoa (hp_StatusCode resp))), w1)
          else (dc_Card dc resp, w1))"

text \<open>\<open>mustMarshal\<close> drops its error: parameters that cannot be encoded are left out.\<close>

definition mustMarshal :: "SendMessageParams \<Rightarrow> SendMessageParams option" where
  "mustMarshal p = (if message_json_ok (sp_Message p) \<and> vars_json_ok (sp_Configuration p)
     then Some (p\<lparr>sp_Message := json_message (sp_Message p),
       sp_Configuration := map_option json_vars (omitempty (sp_Configuration p))\<rparr>) else None)"

definition SendMessage ::
  "'w A2AHttp \<Rightarrow> A2ADecoder \<Rightarrow> string \<Rightarrow> Ctx \<Rightarrow> string \<Rightarrow> SendMessageParams \<Rightarrow> 'w \<Rightarrow> (go_error + RPCResponse) \<times> 'w" where
  "SendMessage env dc token ctx agentURL params w = (case ah_Now env w of (now, w1) \<Rightarrow>
     (case send_request env ctx \<lparr>aq_Method = ''POST'', aq_URL = agentURL,
        aq_Headers = [(''Content-Type'', ''application/json'')] @ bearer token,
        aq_Body = RpcBody ''2.0'' ''message/send'' (mustMarshal params) now\<rparr> w1 of
        (Inl err, w2) \<Rightarrow> (Inl err, w2)
      | (Inr resp, w2) \<Rightarrow> (dc_RPC dc resp, w2)))"

text \<open>\<open>strings.TrimSpace\<close> for the white space of ASCII.\<close>

definition is_space :: "char \<Rightarrow> bool" where
  "is_space c \<longleftrightarrow> byte_in 9 13 c \<or> c = CHR '' ''"

definition TrimSpace :: "string \<Rightarrow> string" where
  "TrimSpace s = rev (dropWhile is_space (rev (dropWhile is_space s)))"

text \<open>
  The reading goroutine of \<open>StreamEvents\<close>: complete lines only (\<open>ReadString\<close> fails on the rest),
  the context is polled with each event, and the loop ends behind \<open>TaskCompleted\<close>.
\<close>

fun event_loop ::
  "'w A2AHttp \<Rightarrow> A2ADecoder \<Rightarrow> Ctx \<Rightarrow> string list \<Rightarrow> 'w \<Rightarrow> Event list \<times> 'w" where
  "event_loop env dc ctx [] w = ([], w)"
| "event_loop env dc ctx (raw # lines) w =
     (let line = TrimSpace raw in
      if line = [] \<or> HasPrefix line '':'' then event_loop env dc ctx lines w
      else if HasPrefix line ''data: '' then
        (case dc_Event dc (TrimPrefix line ''data: '') of
           None \<Rightarrow> event_loop env dc ctx lines w
         | Some ev \<Rightarrow> (case ah_Done env ctx w of
             (True, w1) \<Rightarrow> ([], w1)
           | (False, w1) \<Rightarrow>
               if ev_Type ev = EventTaskCompleted then ([ev], w1)
               else (case event_loop env dc ctx lines w1 of (evs, w2) \<Rightarrow> (ev # evs, w2))))
      else event_loop env dc ctx lines w)"

definition StreamEvents ::
  "'w A2AHttp \<Rightarrow> A2ADecoder \<Rightarrow> string \<Rightarrow> Ctx \<Rightarrow> string \<Rightarrow> string \<Rightarrow> 'w \<Rightarrow> (go_error + Event list) \<times> 'w" where
  "StreamEvents env dc token ctx agentURL taskID w =
     (case send_request env ctx \<lparr>aq_Method = ''GET'',
        aq_URL = TrimSuffix agentURL ''/'' @ ''/tasks/'' @ taskID @ ''/events'',
        aq_Headers = bearer token @ [(''Accept'', ''text/event-stream'')], aq_Body = NoBody\<rparr> w of
        (Inl err, w1) \<Rightarrow> (Inl err, w1)
      | (Inr resp, w1) \<Rightarrow>
          if hp_StatusCode resp \<noteq> 200
          then (Inl (ErrorText (''failed to connect to stream: '' @ itoa (hp_StatusCode resp))), w1)
          else (case event_loop env dc ctx (butlast (Split (hp_Body resp) (CHR 0x0A))) w1 of (evs, w2) \<Rightarrow> (Inr evs, w2)))"

section \<open>The delegating node (a2a/delegate\_node.go)\<close>

record DelegateNode =
  dn_id :: string
  dn_remoteAgentURL :: string
  dn_token :: string
  dn_preferStream :: bool

definition NewDelegateNode :: "string \<Rightarrow> string \<Rightarrow> string \<Rightarrow> DelegateNode" where
  "NewDelegateNode i url token = \<lparr>dn_id = i, dn_remoteAgentURL = url, dn_token = token, dn_preferStream = True\<rparr>"

definition any_at :: "gvars \<Rightarrow> string \<Rightarrow> gany" where
  "any_at m k = (case glookup m k of None \<Rightarrow> GNil | Some v \<Rightarrow> v)"

text \<open>
  The loop over the remote events, on the state behind the pointer. An artifact without a string
  id panics, with what was appended before in place.
\<close>

fun collect_artifacts :: "Event list \<Rightarrow> AgentState \<Rightarrow> gopanic option \<times> AgentState" where
  "collect_artifacts [] s = (None, s)"
| "collect_artifacts (ev # evs) s =
     (if ev_Type ev = EventTaskCompleted then (None, s)
      else if ev_Type ev = EventNodeCompleted then
        (case glookup (case ev_Payload ev of None \<Rightarrow> [] | Some m \<Rightarrow> m) ''artifact'' of
           Some (GMap art) \<Rightarrow> (case map_string art ''id'' of
             None \<Rightarrow> (Some TypeAssertion, s)
           | Some i \<Rightarrow> collect_artifacts evs (s\<lparr>Artifacts := Artifacts s @ [\<lparr>a_ID = i, a_Name = ''RemoteArtifact'', a_Parts = [],
               a_Metadata = Some [(''type'', any_at art ''type''), (''data'', any_at art ''data'')]\<rparr>]\<rparr>))
         | _ \<Rightarrow> collect_artifacts evs s)
      else collect_artifacts evs s)"

definition Delegate_Process ::
  "'w A2AHttp \<Rightarrow> A2ADecoder \<Rightarrow> DelegateNode \<Rightarrow> Ctx \<Rightarrow> AgentState \<Rightarrow> 'w
    \<Rightarrow> (AgentState \<times> (gopanic + (go_error + NodeResult))) \<times> 'w" where
  "Delegate_Process env dc n ctx s w =
     (case Discover env dc ctx (dn_remoteAgentURL n) w of
        (Inl err, w1) \<Rightarrow> ((s, Inr (Inl (Errorf ''delegate discovery failed: '' err []))), w1)
      | (Inr acard, w1) \<Rightarrow>
        (case SendMessage env dc (dn_token n) ctx (dn_remoteAgentURL n)
            \<lparr>sp_Message = LastMessage s, sp_TaskID = [], sp_ContextID = ContextID s, sp_ReturnImmediately = True,
             sp_Configuration = None\<rparr> w1 of
           (Inl err, w2) \<Rightarrow> ((s, Inr (Inl (Errorf ''delegate initiation failed: '' err []))), w2)
         | (Inr resp, w2) \<Rightarrow>
           (case rr_Error resp of
              Some e \<Rightarrow> ((s, Inr (Inl (ErrorText (''remote agent error: '' @ rpe_Message e)))), w2)
            | None \<Rightarrow>
              (case dc_Task dc (rr_Result resp) of
                 Inl err \<Rightarrow> ((s, Inr (Inl (Errorf ''failed to decode remote task: '' err []))), w2)
               | Inr task \<Rightarrow>
                   (let same = \<lparr>nr_State = RSame, nr_NextNodes = [], nr_Interrupt = None\<rparr> in
                    if dn_preferStream n \<and> cap_Streaming (ac_Capabilities acard) then
                      (case StreamEvents env dc (dn_token n) ctx (dn_remoteAgentURL n) (t_ID task) w2 of
                         (Inl err, w3) \<Rightarrow> ((s, Inr (Inr same)), w3)
                       | (Inr evs, w3) \<Rightarrow> (case collect_artifacts evs s of
                           (Some p, s') \<Rightarrow> ((s', Inl p), w3)
                         | (None, s') \<Rightarrow> ((s', Inr (Inr same)), w3)))
                    else ((s, Inr (Inr same)), w2))))))"

section \<open>Webhooks (a2a/webhook.go)\<close>

text \<open>\<open>Header.Set\<close>: keys are stored in canonical form (an upper case letter after each hyphen).\<close>

definition byte_upper :: "char \<Rightarrow> char" where
  "byte_upper c = (if byte_in 97 122 c then char_of (of_char c - 32 :: nat) else c)"

fun canonical :: "bool \<Rightarrow> string \<Rightarrow> string" where
  "canonical up [] = []"
| "canonical up (c # cs) = (if up then byte_upper c else byte_lower c) # canonical (c = CHR ''-'') cs"

definition token_byte :: "char \<Rightarrow> bool" where
  "token_byte c \<longleftrightarrow> digit c \<or> letter c \<or> c \<in> set ''!#$%&*+-.^_`|~'' \<or> c = CHR 0x27"

definition CanonicalHeaderKey :: "string \<Rightarrow> string" where
  "CanonicalHeaderKey k = (if list_all token_byte k then canonical True k else k)"

definition header_set :: "string \<Rightarrow> string \<Rightarrow> (string, string) gomap \<Rightarrow> (string, string) gomap" where
  "header_set k v h = gset (CanonicalHeaderKey k) v h"

text \<open>\<open>hmac\<close> is the hex-encoded HMAC-SHA256 of a payload under a secret.\<close>

definition webhook_headers :: "(string \<Rightarrow> string \<Rightarrow> string) \<Rightarrow> WebhookConfig \<Rightarrow> string \<Rightarrow> (string, string) gomap" where
  "webhook_headers hmac cfg payload =
     (let h = fold (\<lambda>(k, v). header_set k v) (wh_Headers cfg)
            (header_set ''X-A2A-Event'' ''fluxgraph'' (header_set ''Content-Type'' ''application/json'' [])) in
      if wh_Secret cfg \<noteq> [] then header_set ''X-A2A-Signature'' (hmac (wh_Secret cfg) payload) h else h)"

definition webhook_send ::
  "'w A2AHttp \<Rightarrow> (string \<Rightarrow> string \<Rightarrow> string) \<Rightarrow> WebhookConfig \<Rightarrow> string \<Rightarrow> 'w \<Rightarrow> go_error option \<times> 'w" where
  "webhook_send env hmac cfg payload w =
     (case send_request env Background \<lparr>aq_Method = ''POST'', aq_URL = wh_URL cfg,
        aq_Headers = webhook_headers hmac cfg payload, aq_Body = EventBody payload\<rparr> w of
        (Inl err, w1) \<Rightarrow> (Some err, w1)
      | (Inr resp, w1) \<Rightarrow>
          if 400 \<le> hp_StatusCode resp
          then (Some (ErrorText (''webhook failed with status '' @ itoa (hp_StatusCode resp))), w1)
          else (None, w1))"

text \<open>The retry loop from attempt \<open>3 - n\<close>: after a failed attempt \<open>i\<close> it sleeps \<open>i + 1\<close> seconds.\<close>

fun retry_send ::
  "'w A2AHttp \<Rightarrow> (string \<Rightarrow> string \<Rightarrow> string) \<Rightarrow> WebhookConfig \<Rightarrow> string \<Rightarrow> nat \<Rightarrow> 'w \<Rightarrow> 'w" where
  "retry_send env hmac cfg payload 0 w = w"
| "retry_send env hmac cfg payload (Suc n) w = (case webhook_send env hmac cfg payload w of
     (None, w1) \<Rightarrow> w1
   | (Some err, w1) \<Rightarrow> retry_send env hmac cfg payload n (ah_Sleep env ((3 - int n) * 1000000000) w1))"

definition sendWithRetry ::
  "'w A2AHttp \<Rightarrow> (string \<Rightarrow> string \<Rightarrow> string) \<Rightarrow> WebhookConfig \<Rightarrow> string \<Rightarrow> 'w \<Rightarrow> 'w" where
  "sendWithRetry env hmac cfg payload w = retry_send env hmac cfg payload 3 w"

definition webhook_wants :: "Event \<Rightarrow> WebhookConfig \<Rightarrow> bool" where
  "webhook_wants ev cfg \<longleftrightarrow> wh_EventTypes cfg = [] \<or> list_ex (\<lambda>t. t = event_text (ev_Type ev)) (wh_EventTypes cfg)"

definition dispatch ::
  "'w A2AHttp \<Rightarrow> (string \<Rightarrow> string \<Rightarrow> string) \<Rightarrow> (Event \<Rightarrow> string) \<Rightarrow> 'w TaskStore \<Rightarrow> Event \<Rightarrow> 'w \<Rightarrow> 'w" where
  "dispatch env hmac event_json ts ev w =
     (if ev_TaskID ev = [] then w
      else (case tk_GetByID ts Background (ev_TaskID ev) w of
        (Inl err, w1) \<Rightarrow> w1
      | (Inr task, w1) \<Rightarrow>
          fold (\<lambda>cfg v. if webhook_wants ev cfg then sendWithRetry env hmac cfg (event_json ev) v else v) (t_Webhooks task) w1))"

text \<open>\<open>Start\<close> subscribes the dispatcher, and stops at the first subscription that fails.\<close>

fun subscribe_all ::
  "(EventType \<Rightarrow> 'w \<Rightarrow> (go_error + string) \<times> 'w) \<Rightarrow> EventType list \<Rightarrow> 'w \<Rightarrow> go_error option \<times> 'w" where
  "subscribe_all Subscribe [] w = (None, w)"
| "subscribe_all Subscribe (p # ps) w = (case Subscribe p w of
     (Inl err, w1) \<Rightarrow> (Some err, w1)
   | (Inr _, w1) \<Rightarrow> subscribe_all Subscribe ps w1)"

definition webhook_Start ::
  "(EventType \<Rightarrow> 'w \<Rightarrow> (go_error + string) \<times> 'w) \<Rightarrow> 'w \<Rightarrow> go_error option \<times> 'w" where
  "webhook_Start Subscribe w = subscribe_all Subscribe [EventAgentPaused, EventTaskCompleted, EventNodeCompleted] w"

section \<open>The gRPC front end (a2a/grpc\_server.go)\<close>

record PBMessage =
  pb_Role :: string
  pb_Parts :: "string list"

record PBTask =
  pbt_Id :: string
  pbt_ContextId :: string
  pbt_TenantId :: string
  pbt_State :: string
  pbt_Detail :: string
  pbt_Timestamp :: time
  pbt_CreatedAt :: time
  pbt_UpdatedAt :: time

definition mapPBToCoreMessage :: "PBMessage \<Rightarrow> Message" where
  "mapPBToCoreMessage m = zero_Message\<lparr>m_Role := Role_of (pb_Role m),
     m_Parts := map (\<lambda>t. if t \<noteq> [] then text_part t else zero_Part) (pb_Parts m)\<rparr>"

definition mapCoreToPBTask :: "Task \<Rightarrow> PBTask" where
  "mapCoreToPBTask t = \<lparr>pbt_Id = t_ID t, pbt_ContextId = t_ContextID t, pbt_TenantId = t_TenantID t,
     pbt_State = task_state_text (ts_State (t_Status t)), pbt_Detail = ts_Message (t_Status t),
     pbt_Timestamp = ts_Timestamp (t_Status t), pbt_CreatedAt = t_CreatedAt t, pbt_UpdatedAt = t_UpdatedAt t\<rparr>"

text \<open>\<open>SendMessage\<close>: the reply, the background runs and the world; a nil message is dereferenced.\<close>

definition grpc_SendMessage ::
  "'w Server \<Rightarrow> Ctx \<Rightarrow> string \<Rightarrow> string \<Rightarrow> PBMessage option \<Rightarrow> 'w \<Rightarrow> (gopanic + PBTask) \<times> job list \<times> 'w" where
  "grpc_SendMessage S ctx reqTaskID reqContextID msg w = (case or_uuid S reqTaskID w of (taskID, w1) \<Rightarrow>
     (case msg of
        None \<Rightarrow> (Inl NilDereference, [], w1)
      | Some m \<Rightarrow>
          (case sv_now S w1 of (t1, w2) \<Rightarrow> case sv_now S w2 of (t2, w3) \<Rightarrow> case sv_now S w3 of (t3, w4) \<Rightarrow>
           (Inr (mapCoreToPBTask \<lparr>t_ID = taskID, t_ContextID = reqContextID, t_TenantID = tenant_or_default ctx,
              t_Status = \<lparr>ts_State = TaskStateSubmitted, ts_Timestamp = t1, ts_Message = []\<rparr>, t_History = [],
              t_Artifacts = [], t_Webhooks = [], t_Metadata = None, t_CreatedAt = t2, t_UpdatedAt = t3\<rparr>),
            [(taskID, Some (initial_state taskID reqContextID [] (mapPBToCoreMessage m)))], w4))))"

definition grpc_GetTask :: "'w Server \<Rightarrow> Ctx \<Rightarrow> string \<Rightarrow> 'w \<Rightarrow> (go_error + PBTask) \<times> 'w" where
  "grpc_GetTask S ctx taskID w = (case tk_GetByID (sv_taskStore S) ctx taskID w of
     (Inl err, w1) \<Rightarrow> (Inl (Errorf ''task not found: '' err []), w1)
   | (Inr t, w1) \<Rightarrow> (Inr (mapCoreToPBTask t), w1))"

definition grpc_StreamTaskEvents :: "'w Server \<Rightarrow> 'w \<Rightarrow> go_error option \<times> 'w" where
  "grpc_StreamTaskEvents S w = (None, w)"

section \<open>Lemmas\<close>

lemma collect_artifacts_frame:
  "collect_artifacts evs s = (p, s') \<Longrightarrow> s' = s\<lparr>Artifacts := Artifacts s'\<rparr> \<and> prefix (Artifacts s) (Artifacts s')"
proof (induction evs arbitrary: s)
  case (Cons ev evs)
  show ?case
  proof (cases "collect_artifacts (ev # evs) s = (p, s) \<or> collect_artifacts (ev # evs) s = collect_artifacts evs s")
    case True
    with Cons show ?thesis by auto
  next
    case False
    then obtain a where a: "collect_artifacts (ev # evs) s = collect_artifacts evs (s\<lparr>Artifacts := Artifacts s @ [a]\<rparr>)"
      using Cons.prems by (auto split: if_splits option.splits gany.splits) metis
    with Cons.prems Cons.IH [of "s\<lparr>Artifacts := Artifacts s @ [a]\<rparr>"] show ?thesis
      by (auto simp: prefix_def)
  qed
qed simp

lemma delegate_same:
  assumes "Delegate_Process env dc n ctx s w = ((s', Inr (Inr r)), w')"
  shows "r = \<lparr>nr_State = RSame, nr_NextNodes = [], nr_Interrupt = None\<rparr> \<and> s' = s\<lparr>Artifacts := Artifacts s'\<rparr>
    \<and> prefix (Artifacts s) (Artifacts s')"
  using assms unfolding Delegate_Process_def Let_def
  by (auto split: prod.splits sum.splits option.splits if_splits dest: collect_artifacts_frame)

text \<open>Routing, hooks and saving do not look at the task store.\<close>

lemma other_task_store:
  "fireHooks (e\<lparr>e_taskStore := x\<rparr>) = fireHooks (e\<lparr>e_taskStore := y\<rparr>)"
  "advance (e\<lparr>e_taskStore := x\<rparr>) = advance (e\<lparr>e_taskStore := y\<rparr>)"
proof -
  have f: "finish (e\<lparr>e_taskStore := x\<rparr>) = finish (e\<lparr>e_taskStore := y\<rparr>)"
    by (simp add: fun_eq_iff finish_def)
  show "fireHooks (e\<lparr>e_taskStore := x\<rparr>) = fireHooks (e\<lparr>e_taskStore := y\<rparr>)"
    by (simp add: fun_eq_iff fireHooks_def)
  show "advance (e\<lparr>e_taskStore := x\<rparr>) = advance (e\<lparr>e_taskStore := y\<rparr>)"
    unfolding fun_eq_iff advance_def f by simp
qed

text \<open>The client stops listening behind \<open>TaskCompleted\<close>.\<close>

lemma event_loop_completed:
  "fst (event_loop env dc ctx lines w) = a @ ev # b \<Longrightarrow> ev_Type ev = EventTaskCompleted \<Longrightarrow> b = []"
proof (induction lines arbitrary: w a)
  case (Cons l lines)
  obtain d w1 where d: "ah_Done env ctx w = (d, w1)" by fastforce
  show ?case
  proof (cases "\<exists>v. event_loop env dc ctx (l # lines) w = event_loop env dc ctx lines v")
    case True
    with Cons show ?thesis by metis
  next
    case False
    then obtain e where "fst (event_loop env dc ctx (l # lines) w) = []
        \<or> fst (event_loop env dc ctx (l # lines) w) = [e]
        \<or> fst (event_loop env dc ctx (l # lines) w) = e # fst (event_loop env dc ctx lines w1) \<and> ev_Type e \<noteq> EventTaskCompleted"
      using d by (auto simp: Let_def case_prod_beta split: option.splits if_splits bool.splits)
    with Cons.prems Cons.IH [of w1 "tl a"] show ?thesis by (cases a) (auto simp del: event_loop.simps)
  qed
qed simp

text \<open>Counting the requests of a client.\<close>

definition counted_http :: "'w A2AHttp \<Rightarrow> (nat \<times> duration \<times> 'w) A2AHttp" where
  "counted_http env = \<lparr>ah_URL = ah_URL env,
     ah_Do = (\<lambda>ctx q (n, d, w). case ah_Do env ctx q w of (r, w') \<Rightarrow> (r, Suc n, d, w')),
     ah_Done = (\<lambda>ctx (n, d, w). case ah_Done env ctx w of (r, w') \<Rightarrow> (r, n, d, w')),
     ah_Now = (\<lambda>(n, d, w). case ah_Now env w of (r, w') \<Rightarrow> (r, n, d, w')),
     ah_Sleep = (\<lambda>t (n, d, w). (n, d + t, ah_Sleep env t w))\<rparr>"

lemma counted_webhook_send:
  "webhook_send (counted_http env) hmac cfg payload (n, d, w) =
     (case webhook_send env hmac cfg payload w of (r, w') \<Rightarrow>
        (r, (case ah_URL env (wh_URL cfg) of None \<Rightarrow> Suc n | Some _ \<Rightarrow> n), d, w'))"
  by (simp add: webhook_send_def send_request_def counted_http_def split: option.split prod.split sum.split)

lemma counted_retry:
  "\<exists>m e. retry_send (counted_http env) hmac cfg payload k (n, d, w) = (n + m, d + e, retry_send env hmac cfg payload k w)
    \<and> m \<le> k \<and> e \<le> (\<Sum>i<k. (3 - int i) * 1000000000)" if "k \<le> 3"
  using that
proof (induction k arbitrary: n d w)
  case (Suc k)
  obtain r w1 where r: "webhook_send env hmac cfg payload w = (r, w1)" by fastforce
  let ?n = "case ah_URL env (wh_URL cfg) of None \<Rightarrow> Suc n | Some _ \<Rightarrow> n"
  have nonneg: "0 \<le> (\<Sum>i<Suc k. (3 - int i) * 1000000000)"
    using Suc.prems by (intro sum_nonneg) auto
  have n: "\<exists>j. ?n = n + j \<and> j \<le> 1" by (auto split: option.split)
  show ?case
  proof (cases r)
    case None
    with r n nonneg show ?thesis by (fastforce simp: counted_webhook_send)
  next
    case (Some err)
    let ?d = "(3 - int k) * 1000000000"
    have sl: "ah_Sleep (counted_http env) ?d (?n, d, w1) = (?n, d + ?d, ah_Sleep env ?d w1)"
      by (simp add: counted_http_def)
    from Suc.IH [of ?n "d + ?d" "ah_Sleep env ?d w1"] Suc.prems obtain m e where
      "retry_send (counted_http env) hmac cfg payload k (?n, d + ?d, ah_Sleep env ?d w1)
         = (?n + m, d + ?d + e, retry_send env hmac cfg payload k (ah_Sleep env ?d w1))"
      "m \<le> k" "e \<le> (\<Sum>i<k. (3 - int i) * 1000000000)" by auto
    moreover from n obtain j where "?n = n + j" "j \<le> 1" by blast
    ultimately show ?thesis using Some r sl
      by (intro exI [of _ "j + m"] exI [of _ "?d + e"]) (simp add: counted_webhook_send)
  qed
qed simp

section \<open>Properties\<close>


text \<open>The sample client answers every request with the status 500.\<close>

definition failing_http :: "nat A2AHttp" where
  "failing_http = \<lparr>ah_URL = (\<lambda>u. None),
     ah_Do = (\<lambda>ctx q n. (Inr \<lparr>hp_StatusCode = 500, hp_Body = [], hp_ReadErr = None\<rparr>, Suc n)),
     ah_Done = (\<lambda>ctx n. (False, n)), ah_Now = (\<lambda>n. (0, n)), ah_Sleep = (\<lambda>d n. n)\<rparr>"

definition signed_hook :: WebhookConfig where
  "signed_hook = \<lparr>wh_ID = ''h1'', wh_URL = ''http://h'', wh_Secret = ''k'', wh_EventTypes = [], wh_Headers = [(''x-a2a-signature'', ''forged'')]\<rparr>"


text \<open>
  C27: what a remote agent produced stays out of the task store. A delegation that succeeds
  extends the artifacts of the state in place and returns that state, so that the engine finds no
  new artifact in the result: whatever the task store's \<open>AppendArtifact\<close> does, the pass of the
  engine is the same.
\<close>

theorem delegated_artifacts_not_mirrored:
  assumes "Delegate_Process env dc n ctx s w = ((s', Inr (Inr r)), w')"
  shows "s' = s\<lparr>Artifacts := Artifacts s'\<rparr> \<and> prefix (Artifacts s) (Artifacts s')
    \<and> node_succeeded (e\<lparr>e_taskStore := Some (ts\<lparr>tk_AppendArtifact := X\<rparr>)\<rparr>) g ctx sid nid el r (s'\<lparr>StepCount := k\<rparr>) v
      = node_succeeded (e\<lparr>e_taskStore := Some ts\<rparr>) g ctx sid nid el r (s'\<lparr>StepCount := k\<rparr>) v"
proof -
  let ?e1 = "e\<lparr>e_taskStore := Some (ts\<lparr>tk_AppendArtifact := X\<rparr>)\<rparr>" and ?e2 = "e\<lparr>e_taskStore := Some ts\<rparr>"
  from delegate_same [OF assms] have r: "r = \<lparr>nr_State = RSame, nr_NextNodes = [], nr_Interrupt = None\<rparr>" by simp
  have "sync_task ?e1 ctx nid (length (Artifacts t)) (t\<lparr>LastNodeID := nid\<rparr>) u
      = sync_task ?e2 ctx nid (length (Artifacts t)) (t\<lparr>LastNodeID := nid\<rparr>) u" for t u
    by (simp add: sync_task_def append_artifacts_def update_task_status_def)
  then have "node_succeeded ?e1 g ctx sid nid el r (s'\<lparr>StepCount := k\<rparr>) v = node_succeeded ?e2 g ctx sid nid el r (s'\<lparr>StepCount := k\<rparr>) v"
    by (simp add: node_succeeded_def r Let_def other_task_store(1) [where e = e and x = "Some (ts\<lparr>tk_AppendArtifact := X\<rparr>)" and y = "Some ts"]
        other_task_store(2) [where e = e and x = "Some (ts\<lparr>tk_AppendArtifact := X\<rparr>)" and y = "Some ts"]
        split: prod.split option.split)
  with delegate_same [OF assms] show ?thesis by blast
qed

text \<open>A remote agent that completes one node with an artifact.\<close>

definition remote_http :: "nat A2AHttp" where
  "remote_http = \<lparr>ah_URL = (\<lambda>u. None),
     ah_Do = (\<lambda>ctx q n. (Inr \<lparr>hp_StatusCode = 200, hp_Body = ''data: x'' @ [CHR 0x0A], hp_ReadErr = None\<rparr>, Suc n)),
     ah_Done = (\<lambda>ctx n. (False, n)), ah_Now = (\<lambda>n. (0, n)), ah_Sleep = (\<lambda>d n. n)\<rparr>"

definition remote_decoder :: A2ADecoder where
  "remote_decoder = \<lparr>
     dc_Card = (\<lambda>r. Inr (NewAgentCard ''a'' [] [] [] (NewConcreteToolRegistry :: unit ConcreteToolRegistry)
       \<lparr>cap_Streaming = True, cap_PushNotifications = False, cap_ExtendedAgentCard = False,
        cap_StateTimeTravel = True, cap_MultiTenancy = True\<rparr>)),
     dc_RPC = (\<lambda>r. Inr \<lparr>rr_ID = GNil, rr_Result = None, rr_Error = None\<rparr>),
     dc_Event = (\<lambda>d. Some \<lparr>ev_Type = EventNodeCompleted, ev_SessionID = [], ev_TaskID = [],
       ev_Payload = Some [(''artifact'', GMap [(''id'', GString ''a1'')])], ev_Timestamp = 0\<rparr>),
     dc_Task = (\<lambda>r. Inr acme_task)\<rparr>"

definition remote_artifact :: Artifact where
  "remote_artifact = \<lparr>a_ID = ''a1'', a_Name = ''RemoteArtifact'', a_Parts = [],
     a_Metadata = Some [(''type'', GNil), (''data'', GNil)]\<rparr>"

lemma remote_delegation:
  "Delegate_Process remote_http remote_decoder (NewDelegateNode ''d'' ''http://r'' []) Background NewState 0
    = ((NewState\<lparr>Artifacts := [remote_artifact]\<rparr>,
       Inr (Inr \<lparr>nr_State = RSame, nr_NextNodes = [], nr_Interrupt = None\<rparr>)), 3)"
proof -
  have "butlast (Split (''data: x'' @ [CHR 0x0A]) (CHR 0x0A)) = [''data: x'']" "TrimSpace ''data: x'' = ''data: x''"
    "HasPrefix ''data: x'' ''data: ''" "\<not> HasPrefix ''data: x'' '':''"
    by code_simp+
  then show ?thesis
    by (simp add: Delegate_Process_def Discover_def SendMessage_def StreamEvents_def send_request_def remote_http_def
        remote_decoder_def NewDelegateNode_def NewAgentCard_def any_at_def map_string_def Let_def NewState_def remote_artifact_def)
qed

theorem delegated_artifacts_not_mirrored_witness:
  "\<exists>r. nr_State r = RSame
    \<and> node_succeeded (sv_engine (sample_server [])\<lparr>e_taskStore := Some (sv_taskStore (sample_server [])
        \<lparr>tk_AppendArtifact := (\<lambda>ctx i a w. (None, w))\<rparr>)\<rparr>) sample_graph Background ''s'' ''d'' 0 r
        (NewState\<lparr>Artifacts := [remote_artifact], StepCount := 1\<rparr>) new_redis
      = node_succeeded (sv_engine (sample_server [])\<lparr>e_taskStore := Some (sv_taskStore (sample_server []))\<rparr>)
        sample_graph Background ''s'' ''d'' 0 r (NewState\<lparr>Artifacts := [remote_artifact], StepCount := 1\<rparr>) new_redis"
  using delegated_artifacts_not_mirrored [OF remote_delegation, where e = "sv_engine (sample_server [])"
      and ts = "sv_taskStore (sample_server [])" and X = "\<lambda>ctx i a w. (None, w)" and g = sample_graph and sid = "''s''"
      and nid = "''d''" and el = 0 and k = 1 and v = new_redis]
  by (intro exI [of _ "\<lparr>nr_State = RSame, nr_NextNodes = [], nr_Interrupt = None\<rparr>"]) simp

text \<open>
  The gRPC front end starts runs without the checks of the HTTP server. Whatever scopes the
  context has and whatever the message says, \<open>SendMessage\<close> starts a run on it and reports a
  submitted task, but it does so for every task store alike: no task is created, so the reported
  task is as unknown to the store as it was before.
\<close>

theorem grpc_bypasses_the_guards:
  "(\<exists>t st w'. grpc_SendMessage S ctx tid cid (Some m) w = (Inr t, [(pbt_Id t, Some st)], w')
      \<and> pbt_State t = ''submitted'' \<and> pbt_TenantId t = tenant_or_default ctx \<and> pbt_Id t = (if tid = [] then fst (sv_uuid S w) else tid)
      \<and> TaskID st = pbt_Id t \<and> ContextID st = cid \<and> Messages st = [mapPBToCoreMessage m])
    \<and> grpc_SendMessage (S\<lparr>sv_taskStore := ts, sv_audit := a\<rparr>) (ctx\<lparr>ctx_scopes := sc\<rparr>) tid cid (Some m) w
      = grpc_SendMessage S ctx tid cid (Some m) w"
proof -
  obtain i w1 where i: "or_uuid S tid w = (i, w1)" by fastforce
  then have "i = (if tid = [] then fst (sv_uuid S w) else tid)" by (auto simp: or_uuid_def split: if_splits)
  moreover have "or_uuid (S\<lparr>sv_taskStore := ts, sv_audit := a\<rparr>) tid w = (i, w1)" using i by (auto simp: or_uuid_def split: if_splits)
  ultimately show ?thesis using i
    by (simp add: grpc_SendMessage_def mapCoreToPBTask_def initial_state_def tenant_or_default_def WithMessage_def
        NewState_def clone_def split: prod.split)
qed

end
