(* ===== verification/A2A_Events.thy ===== *)
theory A2A_Events
  imports A2A_Client
begin

text \<open>
  The event stream of a task from end to end: the subscriptions that \<open>handleTaskEvents\<close>
  (a2a/server.go) takes on the in-process bus and gives back, and the stream that the client
  (a2a/client.go) reads from what the handler wrote.
\<close>

section \<open>The subscriptions of a stream\<close>

text \<open>The handler subscribes to three types of events and unsubscribes in the reverse order.\<close>

definition sse_open ::
  "(nat \<Rightarrow> string) \<Rightarrow> 'h \<Rightarrow> ('h, 'x) mem_world_scheme \<Rightarrow> string list \<times> ('h, 'x) mem_world_scheme" where
  "sse_open uuid handler w =
     (case InMemory_Subscribe uuid EventNodeCompleted handler w of (subID, w1) \<Rightarrow>
      case InMemory_Subscribe uuid EventTaskCompleted handler w1 of (subID2, w2) \<Rightarrow>
      case InMemory_Subscribe uuid EventAgentPaused handler w2 of (subID3, w3) \<Rightarrow> ([subID3, subID2, subID], w3))"

definition sse_close :: "string list \<Rightarrow> ('h, 'x) mem_world_scheme \<Rightarrow> ('h, 'x) mem_world_scheme" where
  "sse_close ids w = fold (\<lambda>sub v. snd (InMemory_Unsubscribe sub v)) ids w"

text \<open>What the other users of the bus do while the stream is open.\<close>

datatype 'h bus_op = BSubscribe EventType 'h | BUnsubscribe string

fun bus_do :: "(nat \<Rightarrow> string) \<Rightarrow> 'h bus_op \<Rightarrow> ('h, 'x) mem_world_scheme \<Rightarrow> ('h, 'x) mem_world_scheme" where
  "bus_do uuid (BSubscribe et h) w = snd (InMemory_Subscribe uuid et h w)"
| "bus_do uuid (BUnsubscribe sub) w = snd (InMemory_Unsubscribe sub w)"

text \<open>The invariant of the bus: ids were drawn before, and no id is registered for two types.\<close>

definition bus_ok :: "(nat \<Rightarrow> string) \<Rightarrow> ('h, 'x) mem_world_scheme \<Rightarrow> bool" where
  "bus_ok uuid w \<longleftrightarrow> bus_inv uuid w
     \<and> (\<forall>sub et et'. sub \<in> set (gkeys (subs_of et w)) \<longrightarrow> sub \<in> set (gkeys (subs_of et' w)) \<longrightarrow> et = et')"

lemma bus_ok_new [simp]: "bus_ok uuid new_mem_world"
  by (simp add: bus_ok_def subs_of_def) (simp add: new_mem_world_def)

lemma subs_of_Subscribe:
  "subs_of et' (snd (InMemory_Subscribe uuid et h w))
    = (if et' = et then gset (uuid (mw_uuids w)) h (subs_of et w) else subs_of et' w)"
  by (simp add: subs_of_def [of et' "snd _"] Subscribe_subs) (simp add: subs_of_def)

lemma bus_ok_Subscribe:
  assumes "inj uuid" and "bus_ok uuid w"
  shows "bus_ok uuid (snd (InMemory_Subscribe uuid et h w))"
  using assms subs_of_fresh [of uuid w] bus_inv_Subscribe [of uuid w et h]
  unfolding bus_ok_def subs_of_Subscribe by (auto simp: gkeys_gset simp del: set_map split: if_splits)

lemma gdelete_absent: "glookup m k = None \<Longrightarrow> gdelete k m = m"
  by (induction m) (auto simp: AList.delete_eq split: if_splits)

text \<open>\<open>Unsubscribe\<close> takes its id away wherever it is.\<close>

lemma subs_of_Unsubscribe:
  assumes "bus_ok uuid w"
  shows "subs_of et (snd (InMemory_Unsubscribe sub w)) = gdelete sub (subs_of et w)"
proof -
  have ok: "gomap_ok (mw_subs w)" using assms by (simp add: bus_ok_def bus_inv_def)
  have at: "subs_of (fst x) w = snd x" if "x \<in> set (mw_subs w)" for x
    using ok that by (cases x) (simp add: subs_of_def)
  show ?thesis
  proof (cases "\<exists>x \<in> set (mw_subs w). glookup (snd x) sub \<noteq> None")
    case True
    then obtain k where k: "sub \<in> set (gkeys (subs_of k w))" using at by (metis glookup_None_iff)
    have iff: "\<forall>x \<in> set (mw_subs w). glookup (snd x) sub \<noteq> None \<longleftrightarrow> fst x = k"
      using assms k at unfolding bus_ok_def by (metis glookup_None_iff)
    have "gdelete sub (subs_of et w) = subs_of et w" if "et \<noteq> k"
      using assms k that unfolding bus_ok_def by (metis gdelete_absent glookup_None_iff)
    with glookup_update_first [OF ok iff, of "gdelete sub"] show ?thesis
      by (auto simp: subs_of_def InMemory_Unsubscribe_def drop_sub_def [abs_def] split: option.split)
  next
    case False
    then have "glookup (subs_of et w) sub = None"
      using subs_of_cases [of et w] by (auto simp: simp del: set_map)
    with False show ?thesis by (simp add: InMemory_Unsubscribe_def update_first_none gdelete_absent subs_of_def)
  qed
qed

lemma set_update_first: "x \<in> set (update_first P f m) \<Longrightarrow> x \<in> set m \<or> (\<exists>y \<in> set m. x = f y)"
  by (induction m) (auto split: if_splits)

lemma fst_update_first: "(\<And>x. fst (f x) = fst x) \<Longrightarrow> map fst (update_first P f m) = map fst m"
  by (induction m) auto

lemma bus_ok_Unsubscribe:
  assumes "bus_ok uuid w"
  shows "bus_ok uuid (snd (InMemory_Unsubscribe sub w))"
proof -
  let ?m = "update_first (\<lambda>x. glookup (snd x) sub \<noteq> None) (drop_sub sub) (mw_subs w)"
  have inv: "gomap_ok (mw_subs w)" "\<forall>x \<in> set (mw_subs w). set (gkeys (snd x)) \<subseteq> uuid ` {..<mw_uuids w}"
    using assms unfolding bus_ok_def bus_inv_def by blast+
  have "set (gkeys (snd x)) \<subseteq> uuid ` {..<mw_uuids w}" if x: "x \<in> set ?m" for x
  proof -
    from set_update_first [OF x] obtain y where "y \<in> set (mw_subs w)" "set (gkeys (snd x)) \<subseteq> set (gkeys (snd y))"
      unfolding drop_sub_def by (metis Diff_subset order_refl set_gkeys_gdelete snd_conv)
    with inv(2) show ?thesis by blast
  qed
  moreover have "gomap_ok ?m" using inv(1) by (simp add: fst_update_first drop_sub_def)
  ultimately have "bus_inv uuid (snd (InMemory_Unsubscribe sub w))"
    by (simp add: bus_inv_def InMemory_Unsubscribe_def del: set_map)
  with assms show ?thesis
    unfolding bus_ok_def subs_of_Unsubscribe [OF assms] set_gkeys_gdelete by blast
qed

lemma bus_ok_do: "inj uuid \<Longrightarrow> bus_ok uuid w \<Longrightarrow> bus_ok uuid (bus_do uuid b w)"
  by (cases b) (simp_all add: bus_ok_Subscribe bus_ok_Unsubscribe)

lemma bus_ok_run: "inj uuid \<Longrightarrow> bus_ok uuid w \<Longrightarrow> bus_ok uuid (fold (bus_do uuid) ops w)"
  by (induction ops arbitrary: w) (simp_all add: bus_ok_do)

lemma Subscribe_end:
  assumes "inj uuid" and "bus_ok uuid w"
  shows "subs_of et' (snd (InMemory_Subscribe uuid et h w))
    = subs_of et' w @ (if et' = et then [(uuid (mw_uuids w), h)] else [])"
  using assms subs_of_fresh [of uuid w et] by (auto simp: subs_of_Subscribe bus_ok_def gset_fresh_end)

lemma Subscribe_draws [simp]:
  "mw_uuids (snd (InMemory_Subscribe uuid et h w)) = Suc (mw_uuids w)" "fst (InMemory_Subscribe uuid et h w) = uuid (mw_uuids w)"
  by (simp_all add: InMemory_Subscribe_def Let_def)

lemma sse_open_ids: "fst (sse_open uuid h w) = map uuid [mw_uuids w + 2, mw_uuids w + 1, mw_uuids w]"
  by (simp add: sse_open_def case_prod_beta)

lemma sse_open_subs:
  assumes "inj uuid" and "bus_ok uuid w"
  shows "subs_of et (snd (sse_open uuid h w)) = subs_of et w
    @ (if et = EventNodeCompleted then [(uuid (mw_uuids w), h)] else if et = EventTaskCompleted then [(uuid (mw_uuids w + 1), h)]
       else if et = EventAgentPaused then [(uuid (mw_uuids w + 2), h)] else [])"
  using assms by (simp add: sse_open_def case_prod_beta Subscribe_end bus_ok_Subscribe)

lemma old_subs:
  assumes "bus_ok uuid w" and "x \<in> set (subs_of et w)"
  shows "fst x \<in> uuid ` {..<mw_uuids w}"
proof -
  have "(et, subs_of et w) \<in> set (mw_subs w)" using subs_of_cases [of et w] assms(2) by auto
  then have "set (gkeys (subs_of et w)) \<subseteq> uuid ` {..<mw_uuids w}"
    using assms(1) unfolding bus_ok_def bus_inv_def by (metis snd_conv)
  moreover have "fst x \<in> set (gkeys (subs_of et w))" using assms(2) by simp
  ultimately show ?thesis by (rule subsetD)
qed

lemma sse_open_ok:
  assumes "inj uuid" and "bus_ok uuid w"
  shows "bus_ok uuid (snd (sse_open uuid h w))"
  using assms by (simp add: sse_open_def case_prod_beta bus_ok_Subscribe)

lemma sse_close_subs:
  assumes "bus_ok uuid w"
  shows "subs_of et (sse_close ids w) = filter (\<lambda>x. fst x \<notin> set ids) (subs_of et w)"
    and "bus_ok uuid (sse_close ids w)"
  using assms
proof (induction ids arbitrary: w)
  case (Cons i ids)
  {
    case 1
    with Cons.IH(1) [of "snd (InMemory_Unsubscribe i w)"] bus_ok_Unsubscribe [of uuid w i] show ?case
      by (auto simp: sse_close_def subs_of_Unsubscribe AList.delete_eq intro: filter_cong)
  next
    case 2
    with Cons.IH(2) [of "snd (InMemory_Unsubscribe i w)"] bus_ok_Unsubscribe [of uuid w i] show ?case
      by (simp add: sse_close_def)
  }
qed (simp_all add: sse_close_def)

section \<open>What the client reads\<close>

text \<open>The events of the stream, as the handler sends them.\<close>

fun sse_events :: "string \<Rightarrow> sse_in list \<Rightarrow> Event list" where
  "sse_events taskID [] = []"
| "sse_events taskID (SseGone # ins) = []"
| "sse_events taskID (SseTick # ins) = sse_events taskID ins"
| "sse_events taskID (SseBus ev # ins) =
     (if \<not> sse_wanted taskID ev then sse_events taskID ins
      else if ev_Type ev = EventTaskCompleted then [ev]
      else ev # sse_events taskID ins)"

lemma Split_nonempty [simp]: "Split s c \<noteq> []"
  by (induction s) (auto split: list.split)

lemma butlast_Split_line:
  "c \<notin> set l \<Longrightarrow> butlast (Split (l @ c # rest) c) = l # butlast (Split rest c)"
  by (simp add: Split_line)

lemma TrimSpace_kept:
  assumes "s \<noteq> []" and "\<not> is_space (hd s)" and "\<not> is_space (last s)"
  shows "TrimSpace s = s"
proof -
  have "dropWhile is_space s = s" using assms(1,2) by (cases s) auto
  moreover have "dropWhile is_space (rev s) = rev s" using assms(1,3) by (cases s rule: rev_cases) auto
  ultimately show ?thesis by (simp add: TrimSpace_def)
qed

text \<open>A JSON text on one line: it starts and ends with a character that is not white space.\<close>

definition one_line :: "string \<Rightarrow> bool" where
  "one_line t \<longleftrightarrow> t \<noteq> [] \<and> CHR 0x0A \<notin> set t \<and> \<not> is_space (hd t) \<and> \<not> is_space (last t)"

lemma event_loop_frame:
  assumes "sse_wanted taskID ev" and "one_line (jc_EventText jc ev)" and "dc_Event dc (jc_EventText jc ev) = Some ev"
    and "\<And>v. ah_Done env ctx v = (False, v)"
  shows "event_loop env dc ctx (butlast (Split (sse_frame jc ev @ rest) (CHR 0x0A))) w
    = (if ev_Type ev = EventTaskCompleted then ([ev], w)
       else (case event_loop env dc ctx (butlast (Split rest (CHR 0x0A))) w of (evs, v) \<Rightarrow> (ev # evs, v)))"
proof -
  let ?e = "''event: '' @ event_text (ev_Type ev)" and ?d = "''data: '' @ jc_EventText jc ev"
  have e: "CHR 0x0A \<notin> set ?e" "TrimSpace ?e = ?e" "\<not> HasPrefix ?e ''data: ''" "\<not> HasPrefix ?e '':''"
    using assms(1) by (auto simp: sse_wanted_def TrimSpace_def is_space_def byte_in_def HasPrefix_def)
  have "TrimSpace ?d = ?d"
    using assms(2) by (intro TrimSpace_kept) (auto simp: one_line_def is_space_def byte_in_def)
  moreover have "CHR 0x0A \<notin> set ?d" using assms(2) by (simp add: one_line_def)
  moreover have "\<not> HasPrefix ?d '':''" "HasPrefix ?d ''data: ''" "TrimPrefix ?d ''data: '' = jc_EventText jc ev"
    by (simp_all only: HasPrefix_append TrimPrefix_append) (simp add: HasPrefix_def)
  moreover have "Split (sse_frame jc ev @ rest) (CHR 0x0A) = ?e # ?d # [] # Split rest (CHR 0x0A)"
    using e(1) \<open>CHR 0x0A \<notin> set ?d\<close> Split_line [of "CHR 0x0A" ?e "?d @ CHR 0x0A # CHR 0x0A # rest"]
      Split_line [of "CHR 0x0A" ?d "CHR 0x0A # rest"]
    by (simp add: sse_frame_def)
  moreover have "TrimSpace [] = []" by (simp add: TrimSpace_def)
  ultimately show ?thesis using e(2-4) assms(3,4) by (simp add: Let_def)
qed

section \<open>Properties\<close>




definition node_event :: Event where
  "node_event = \<lparr>ev_Type = EventNodeCompleted, ev_SessionID = [], ev_TaskID = [],
     ev_Payload = Some [(''artifact'', GMap [(''id'', GString ''a1'')])], ev_Timestamp = 0\<rparr>"


end
