(* ===== verification/Postgres_Store.thy ===== *)
theory Postgres_Store
  imports Providers_Model Redis_Store "HOL-Library.Multiset"
begin

text \<open>
  Package \<open>storage\<close>, files \<open>postgres_store.go\<close> and \<open>pgx_driver.go\<close>: the memory store on
  PostgreSQL and its adapter to the pgx pool. Each SQL statement of the source is a constructor of
  \<open>sql_stmt\<close> or an operation of \<open>DBQuerier\<close>; the locale \<open>sql_db\<close> says what the statements do to
  the tables of the migrations (\<open>migrations/\<close>). The goroutine that \<open>Save\<close> starts is the separate
  operation \<open>Postgres_prune\<close>.
\<close>

section \<open>Statements, rows and the database interface\<close>

text \<open>The documents in the JSONB columns.\<close>

datatype pg_json = JState AgentState | JParts "Part list" | JOther

datatype sql_stmt =
    UpsertSession string string AgentStatus
  | UpsertState string pg_json
  | InsertCheckpoint string string pg_json
  | PruneCheckpoints string int
  | InsertMessage string string string pg_json "rat list option"
  | TrimMessages string int

text \<open>
  A query over several rows gives the outcome of each \<open>Scan\<close> and what \<open>Err\<close> returns after the
  last row.
\<close>

type_synonym 'r db_rows = "(go_error + 'r) list \<times> go_error option"

record 'w DBQuerier =
  db_Exec :: "Ctx \<Rightarrow> sql_stmt \<Rightarrow> 'w \<Rightarrow> go_error option \<times> 'w"
  db_BeginTx :: "Ctx \<Rightarrow> 'w \<Rightarrow> go_error option \<times> 'w"
  tx_Exec :: "Ctx \<Rightarrow> sql_stmt \<Rightarrow> 'w \<Rightarrow> go_error option \<times> 'w"
  tx_Commit :: "Ctx \<Rightarrow> 'w \<Rightarrow> go_error option \<times> 'w"
  tx_Rollback :: "Ctx \<Rightarrow> 'w \<Rightarrow> go_error option \<times> 'w"
  db_SelectState :: "Ctx \<Rightarrow> string \<Rightarrow> 'w \<Rightarrow> (go_error + pg_json) \<times> 'w"
  db_SelectCheckpoint :: "Ctx \<Rightarrow> string \<Rightarrow> 'w \<Rightarrow> (go_error + pg_json) \<times> 'w"
  db_SelectCheckpoints :: "Ctx \<Rightarrow> string \<Rightarrow> int \<Rightarrow> 'w \<Rightarrow> (go_error + CheckpointMeta db_rows) \<times> 'w"
  db_SelectSimilar :: "Ctx \<Rightarrow> string \<Rightarrow> rat list \<Rightarrow> int \<Rightarrow> 'w \<Rightarrow> (go_error + (string \<times> pg_json) db_rows) \<times> 'w"

text \<open>
  The driver: statements that return no rows go through \<open>translatePgError\<close>, queries are handed
  on as they are.
\<close>

definition translatePgError :: "go_error option \<Rightarrow> go_error option" where
  "translatePgError err = (case err of
     Some e \<Rightarrow> if Error e = ''no rows in result set'' then Some (Sentinel ErrNoRows) else Some e
   | None \<Rightarrow> None)"

definition PgxDriver :: "'w DBQuerier \<Rightarrow> 'w DBQuerier" where
  "PgxDriver pool = pool\<lparr>
     db_Exec := (\<lambda>ctx q w. case db_Exec pool ctx q w of (err, w1) \<Rightarrow> (translatePgError err, w1)),
     tx_Exec := (\<lambda>ctx q w. case tx_Exec pool ctx q w of (err, w1) \<Rightarrow> (translatePgError err, w1))\<rparr>"

text \<open>
  Opening the pool: \<open>parse\<close> and \<open>pool\<close> are \<open>pgxpool.ParseConfig\<close> and \<open>pgxpool.NewWithConfig\<close>
  (with the registration of the vector type as the hook on new connections), \<open>ping\<close> is the pool's
  \<open>Ping\<close>. The number of connections is converted to 32 bits without a check.
\<close>

definition wrap32 :: "int \<Rightarrow> int" where
  "wrap32 n = (n + 2 ^ 31) mod 2 ^ 32 - 2 ^ 31"

definition NewPostgresDriver ::
  "(string \<Rightarrow> go_error + 'o) \<Rightarrow> ('o \<Rightarrow> int \<Rightarrow> Ctx \<Rightarrow> 'w \<Rightarrow> (go_error + 'w DBQuerier) \<times> 'w) \<Rightarrow> ('w DBQuerier \<Rightarrow> Ctx \<Rightarrow> 'w \<Rightarrow> go_error option \<times> 'w)
    \<Rightarrow> string \<Rightarrow> int \<Rightarrow> 'w \<Rightarrow> (go_error + 'w DBQuerier) \<times> 'w" where
  "NewPostgresDriver parse pool ping url maxConns w = (case parse url of
     Inl err \<Rightarrow> (Inl err, w)
   | Inr config \<Rightarrow> (case pool config (wrap32 maxConns) Background w of
       (Inl err, w1) \<Rightarrow> (Inl err, w1)
     | (Inr p, w1) \<Rightarrow> (case ping p Background w1 of (Some err, w2) \<Rightarrow> (Inl err, w2) | (None, w2) \<Rightarrow> (Inr (PgxDriver p), w2))))"

text \<open>A number that fits is handed on; from \<open>2\<^sup>3\<^sup>1\<close> on the pool is asked for another size.\<close>

lemma wrap32_id: "- (2 ^ 31) \<le> n \<Longrightarrow> n < 2 ^ 31 \<Longrightarrow> wrap32 n = n"
  by (simp add: wrap32_def)

lemma wrap32_over:
  assumes "2 ^ 31 \<le> n" and "n < 2 ^ 32"
  shows "wrap32 n = n - 2 ^ 32"
proof -
  have "(n + 2 ^ 31) mod 2 ^ 32 = (n - 2 ^ 31 + 1 * 2 ^ 32) mod 2 ^ 32" by (simp add: add.commute)
  also have "\<dots> = n - 2 ^ 31" using assms by (subst mod_mult_self1) (simp add: mod_pos_pos_trivial)
  finally show ?thesis by (simp add: wrap32_def)
qed

section \<open>The store\<close>

record 'w PostgresMemoryStore =
  pg_embedder :: "(Ctx \<Rightarrow> string \<Rightarrow> 'w \<Rightarrow> (go_error + rat list) \<times> 'w) option"
  pg_maxCheckpoints :: int
  pg_maxMessages :: int

definition NewPostgresMemoryStore :: "'w PostgresMemoryStore \<Rightarrow> 'w PostgresMemoryStore" where
  "NewPostgresMemoryStore opts = opts\<lparr>
     pg_maxCheckpoints := (if pg_maxCheckpoints opts = 0 then 50 else pg_maxCheckpoints opts),
     pg_maxMessages := (if pg_maxMessages opts = 0 then 200 else pg_maxMessages opts)\<rparr>"

definition ctx_tenant :: "Ctx \<Rightarrow> string" where
  "ctx_tenant ctx = (case ctx_tenantID ctx of Some t \<Rightarrow> t | None \<Rightarrow> [])"

text \<open>The frame of a transaction: \<open>Rollback\<close> is deferred, whatever the body did.\<close>

definition in_tx ::
  "'w DBQuerier \<Rightarrow> Ctx \<Rightarrow> ('w \<Rightarrow> (go_error + 'a) \<times> 'w) \<Rightarrow> 'w \<Rightarrow> (go_error + 'a) \<times> 'w" where
  "in_tx D ctx body w = (case db_BeginTx D ctx w of
     (Some err, w1) \<Rightarrow> (Inl err, w1)
   | (None, w1) \<Rightarrow> (case body w1 of (r, w2) \<Rightarrow> (r, snd (tx_Rollback D ctx w2))))"

text \<open>The statements of \<open>Save\<close>.\<close>

definition save_tx ::
  "'w DBQuerier \<Rightarrow> Ctx \<Rightarrow> string \<Rightarrow> AgentStatus \<Rightarrow> string \<Rightarrow> pg_json \<Rightarrow> 'w \<Rightarrow> (go_error + string) \<times> 'w" where
  "save_tx D ctx sessionID status ckptID data w =
     (case tx_Exec D ctx (UpsertSession sessionID (ctx_tenant ctx) status) w of
        (Some err, w2) \<Rightarrow> (Inl (Errorf ''upsert session: '' err []), w2)
      | (None, w2) \<Rightarrow> (case tx_Exec D ctx (UpsertState sessionID data) w2 of
          (Some err, w3) \<Rightarrow> (Inl (Errorf ''upsert agent_state: '' err []), w3)
        | (None, w3) \<Rightarrow> (case tx_Exec D ctx (InsertCheckpoint ckptID sessionID data) w3 of
            (Some err, w4) \<Rightarrow> (Inl (Errorf ''insert checkpoint: '' err []), w4)
          | (None, w4) \<Rightarrow> (case tx_Commit D ctx w4 of
              (Some e, w5) \<Rightarrow> (Inl e, w5)
            | (None, w5) \<Rightarrow> (Inr ckptID, w5)))))"

definition Postgres_Save ::
  "'w DBQuerier \<Rightarrow> ('w \<Rightarrow> string \<times> 'w) \<Rightarrow> Ctx \<Rightarrow> string \<Rightarrow> AgentState \<Rightarrow> 'w \<Rightarrow> (go_error + string) \<times> 'w" where
  "Postgres_Save D gen ctx sessionID state w = (case marshal_state state of
     Inl err \<Rightarrow> (Inl err, w)
   | Inr data \<Rightarrow> (case gen w of (ckptID, w1) \<Rightarrow>
       in_tx D ctx (save_tx D ctx sessionID (Status state) ckptID (JState data)) w1))"

definition Postgres_prune :: "'w DBQuerier \<Rightarrow> 'w PostgresMemoryStore \<Rightarrow> string \<Rightarrow> 'w \<Rightarrow> 'w" where
  "Postgres_prune D s sessionID w = snd (db_Exec D Background (PruneCheckpoints sessionID (pg_maxCheckpoints s)) w)"

definition unmarshal_state :: "pg_json \<Rightarrow> go_error + AgentState" where
  "unmarshal_state j = (case j of JState st \<Rightarrow> Inr st | _ \<Rightarrow> Inl (ErrorText ''json: cannot unmarshal''))"

definition scan_state :: "string \<Rightarrow> string \<Rightarrow> go_error + pg_json \<Rightarrow> go_error + AgentState" where
  "scan_state what i row = (case row of
     Inl err \<Rightarrow> if errors_Is err ErrNoRows then Inl (ErrorText (what @ i @ '' not found'')) else Inl err
   | Inr j \<Rightarrow> unmarshal_state j)"

definition Postgres_Load :: "'w DBQuerier \<Rightarrow> Ctx \<Rightarrow> string \<Rightarrow> 'w \<Rightarrow> (go_error + AgentState) \<times> 'w" where
  "Postgres_Load D ctx sessionID w = (case db_SelectState D ctx sessionID w of (row, w1) \<Rightarrow>
     (scan_state ''session '' sessionID row, w1))"

definition Postgres_LoadCheckpoint :: "'w DBQuerier \<Rightarrow> Ctx \<Rightarrow> string \<Rightarrow> 'w \<Rightarrow> (go_error + AgentState) \<times> 'w" where
  "Postgres_LoadCheckpoint D ctx checkpointID w = (case db_SelectCheckpoint D ctx checkpointID w of (row, w1) \<Rightarrow>
     (scan_state ''checkpoint '' checkpointID row, w1))"

text \<open>Reading rows: the first \<open>Scan\<close> that fails ends the loop; the error of the iteration comes last.\<close>

fun scan_rows :: "(go_error + 'r) list \<Rightarrow> go_error + 'r list" where
  "scan_rows [] = Inr []"
| "scan_rows (Inl e # rows) = Inl e"
| "scan_rows (Inr r # rows) = (case scan_rows rows of Inl e \<Rightarrow> Inl e | Inr rs \<Rightarrow> Inr (r # rs))"

definition read_rows :: "'r db_rows \<Rightarrow> go_error + 'r list" where
  "read_rows q = (case scan_rows (fst q) of Inl e \<Rightarrow> Inl e
   | Inr rs \<Rightarrow> (case snd q of Some e \<Rightarrow> Inl e | None \<Rightarrow> Inr rs))"

definition Postgres_ListCheckpoints ::
  "'w DBQuerier \<Rightarrow> 'w PostgresMemoryStore \<Rightarrow> Ctx \<Rightarrow> string \<Rightarrow> 'w \<Rightarrow> (go_error + CheckpointMeta list) \<times> 'w" where
  "Postgres_ListCheckpoints D s ctx sessionID w =
     (case db_SelectCheckpoints D ctx sessionID (pg_maxCheckpoints s) w of
        (Inl err, w1) \<Rightarrow> (Inl err, w1)
      | (Inr rows, w1) \<Rightarrow> (read_rows rows, w1))"

definition message_text :: "Message \<Rightarrow> string" where
  "message_text m = concat (map (\<lambda>p. p_Text p @ [CHR 0x0A]) (filter (\<lambda>p. p_Type p = PartTypeText) (m_Parts m)))"

text \<open>Only messages of users are embedded; an error of the embedder leaves the column empty.\<close>

definition embed_message ::
  "'w PostgresMemoryStore \<Rightarrow> Ctx \<Rightarrow> Message \<Rightarrow> 'w \<Rightarrow> rat list option \<times> 'w" where
  "embed_message s ctx msg w = (case pg_embedder s of
     None \<Rightarrow> (None, w)
   | Some embedText \<Rightarrow>
       if m_Role msg = RoleUser \<and> message_text msg \<noteq> [] then
         (case embedText ctx (message_text msg) w of (Inl _, w1) \<Rightarrow> (None, w1) | (Inr v, w1) \<Rightarrow> (Some v, w1))
       else (None, w))"

fun insert_messages ::
  "'w DBQuerier \<Rightarrow> 'w PostgresMemoryStore \<Rightarrow> Ctx \<Rightarrow> string \<Rightarrow> Message list \<Rightarrow> 'w \<Rightarrow> go_error option \<times> 'w" where
  "insert_messages D s ctx sid [] w = (None, w)"
| "insert_messages D s ctx sid (msg # msgs) w =
     (if \<not> list_all part_json_ok (m_Parts msg) then (Some marshal_error, w)
      else (case embed_message s ctx msg w of (emb, w1) \<Rightarrow>
        (case tx_Exec D ctx (InsertMessage sid (ctx_tenant ctx) (role_text (m_Role msg)) (JParts (map json_part (m_Parts msg))) emb) w1 of
           (Some e, w2) \<Rightarrow> (Some e, w2)
         | (None, w2) \<Rightarrow> insert_messages D s ctx sid msgs w2)))"

definition Postgres_AppendMessages ::
  "'w DBQuerier \<Rightarrow> 'w PostgresMemoryStore \<Rightarrow> Ctx \<Rightarrow> string \<Rightarrow> Message list \<Rightarrow> 'w \<Rightarrow> go_error option \<times> 'w" where
  "Postgres_AppendMessages D s ctx sessionID messages w =
     (case in_tx D ctx (\<lambda>w.
        case insert_messages D s ctx sessionID messages w of
          (Some e, w2) \<Rightarrow> (Inl e, w2)
        | (None, w2) \<Rightarrow> (case tx_Exec D ctx (TrimMessages sessionID (pg_maxMessages s)) w2 of
            (Some e, w3) \<Rightarrow> (Inl e, w3)
          | (None, w3) \<Rightarrow> (case tx_Commit D ctx w3 of
              (Some e, w4) \<Rightarrow> (Inl e, w4)
            | (None, w4) \<Rightarrow> (Inr (), w4)))) w of
        (Inl e, w1) \<Rightarrow> (Some e, w1)
      | (Inr _, w1) \<Rightarrow> (None, w1))"

text \<open>A row whose content is no list of parts is skipped.\<close>

fun decode_messages :: "(string \<times> pg_json) list \<Rightarrow> Message list" where
  "decode_messages [] = []"
| "decode_messages ((role, JParts ps) # rows) =
     zero_Message\<lparr>m_Role := Role_of role, m_Parts := ps\<rparr> # decode_messages rows"
| "decode_messages (row # rows) = decode_messages rows"

definition Postgres_Search ::
  "'w DBQuerier \<Rightarrow> 'w PostgresMemoryStore \<Rightarrow> Ctx \<Rightarrow> string \<Rightarrow> string \<Rightarrow> int \<Rightarrow> 'w
    \<Rightarrow> (go_error + Message list) \<times> 'w" where
  "Postgres_Search D s ctx sessionID query topK w = (case pg_embedder s of
     None \<Rightarrow> (Inl (ErrorText ''embedding provider not configured for pg store''), w)
   | Some embedText \<Rightarrow> (case embedText ctx query w of
       (Inl err, w1) \<Rightarrow> (Inl (Errorf ''embed query failed: '' err []), w1)
     | (Inr vec, w1) \<Rightarrow> (case db_SelectSimilar D ctx sessionID vec topK w1 of
         (Inl err, w2) \<Rightarrow> (Inl err, w2)
       | (Inr rows, w2) \<Rightarrow> (map_sum id decode_messages (read_rows rows), w2))))"

definition PostgresMemoryStore_ops ::
  "'w DBQuerier \<Rightarrow> ('w \<Rightarrow> string \<times> 'w) \<Rightarrow> 'w PostgresMemoryStore \<Rightarrow> 'w MemoryStore" where
  "PostgresMemoryStore_ops D gen s = \<lparr>ms_Save = Postgres_Save D gen, ms_Load = Postgres_Load D,
     ms_LoadCheckpoint = Postgres_LoadCheckpoint D, ms_ListCheckpoints = Postgres_ListCheckpoints D s,
     ms_AppendMessages = Postgres_AppendMessages D s, ms_Search = Postgres_Search D s\<rparr>"

section \<open>The tables and the contract of the database\<close>

record ck_row =
  cr_id :: string
  cr_session :: string
  cr_json :: pg_json
  cr_created :: time

record msg_row =
  mr_id :: nat
  mr_session :: string
  mr_tenant :: string
  mr_role :: string
  mr_content :: pg_json
  mr_embedding :: "rat list option"
  mr_created :: time

record pg_tables =
  pt_sessions :: "string \<rightharpoonup> string \<times> AgentStatus"
  pt_states :: "string \<rightharpoonup> pg_json \<times> nat"
  pt_ckpts :: "ck_row list"
  pt_msgs :: "msg_row list"

text \<open>\<open>ORDER BY created_at DESC\<close>: any order that is newest first, with ties broken arbitrarily.\<close>

definition newest_first :: "('r \<Rightarrow> time) \<Rightarrow> 'r list \<Rightarrow> 'r list \<Rightarrow> bool" where
  "newest_first t rows S \<longleftrightarrow> mset S = mset rows \<and> sorted_wrt (\<lambda>a b. t b \<le> t a) S"

text \<open>The rows that \<open>DELETE ... AND id NOT IN (SELECT id ... LIMIT n)\<close> leaves.\<close>

definition keeps_newest :: "('r \<Rightarrow> bool) \<Rightarrow> ('r \<Rightarrow> time) \<Rightarrow> int \<Rightarrow> 'r list \<Rightarrow> 'r list \<Rightarrow> bool" where
  "keeps_newest P t n rows rows' \<longleftrightarrow> 0 \<le> n
     \<and> (\<exists>S. newest_first t (filter P rows) S \<and> rows' = filter (\<lambda>r. P r \<longrightarrow> r \<in> set (take (nat n) S)) rows)"

text \<open>
  What a statement does to the tables, at the time \<open>now\<close> of its transaction: upserts by primary
  key, foreign keys to \<open>sessions\<close>, unique checkpoint ids, serial message ids.
\<close>

fun sql_effect :: "time \<Rightarrow> sql_stmt \<Rightarrow> pg_tables \<Rightarrow> pg_tables \<Rightarrow> bool" where
  "sql_effect now (UpsertSession sid tenant st) T T' \<longleftrightarrow>
     T' = T\<lparr>pt_sessions := (pt_sessions T)(sid \<mapsto> (case pt_sessions T sid of None \<Rightarrow> (tenant, st) | Some x \<Rightarrow> (fst x, st)))\<rparr>"
| "sql_effect now (UpsertState sid j) T T' \<longleftrightarrow> pt_sessions T sid \<noteq> None
     \<and> T' = T\<lparr>pt_states := (pt_states T)(sid \<mapsto> (j, case pt_states T sid of None \<Rightarrow> 1 | Some x \<Rightarrow> snd x + 1))\<rparr>"
| "sql_effect now (InsertCheckpoint ck sid j) T T' \<longleftrightarrow> pt_sessions T sid \<noteq> None \<and> ck \<notin> cr_id ` set (pt_ckpts T)
     \<and> T' = T\<lparr>pt_ckpts := pt_ckpts T @ [\<lparr>cr_id = ck, cr_session = sid, cr_json = j, cr_created = now\<rparr>]\<rparr>"
| "sql_effect now (PruneCheckpoints sid n) T T' \<longleftrightarrow> (\<exists>rows. T' = T\<lparr>pt_ckpts := rows\<rparr>
     \<and> keeps_newest (\<lambda>r. cr_session r = sid) cr_created n (pt_ckpts T) rows)"
| "sql_effect now (InsertMessage sid tenant role j emb) T T' \<longleftrightarrow> pt_sessions T sid \<noteq> None
     \<and> (\<exists>i. i \<notin> mr_id ` set (pt_msgs T) \<and> T' = T\<lparr>pt_msgs := pt_msgs T @ [\<lparr>mr_id = i, mr_session = sid, mr_tenant = tenant,
           mr_role = role, mr_content = j, mr_embedding = emb, mr_created = now\<rparr>]\<rparr>)"
| "sql_effect now (TrimMessages sid n) T T' \<longleftrightarrow> (\<exists>rows. T' = T\<lparr>pt_msgs := rows\<rparr>
     \<and> keeps_newest (\<lambda>r. mr_session r = sid) mr_created n (pt_msgs T) rows)"

definition meta_of :: "ck_row \<Rightarrow> CheckpointMeta" where
  "meta_of r = \<lparr>ck_CheckpointID = cr_id r, ck_SessionID = cr_session r, ck_CreatedAt = cr_created r\<rparr>"

text \<open>
  The database of a client that is used by one call at a time. \<open>tab\<close> is the committed content,
  \<open>tx\<close> the open transaction with its time and its view of the tables. A statement that fails
  changes nothing, a transaction takes effect with its commit or not at all, primary keys are
  unique, and reads succeed (\<open>norows\<close> is the error of a query that finds no row).
\<close>

locale sql_db =
  fixes D :: "'w DBQuerier"
    and gen :: "'w \<Rightarrow> string \<times> 'w"
    and norows :: go_error
    and ok :: "'w \<Rightarrow> bool"
    and tab :: "'w \<Rightarrow> pg_tables"
    and tx :: "'w \<Rightarrow> (time \<times> pg_tables) option"
  assumes gen: "ok w \<Longrightarrow> gen w = (u, w') \<Longrightarrow> ok w' \<and> tab w' = tab w \<and> tx w' = tx w"
    and begin_tx: "ok w \<Longrightarrow> tx w = None \<Longrightarrow> db_BeginTx D ctx w = (r, w')
      \<Longrightarrow> ok w' \<and> tab w' = tab w \<and> (if r = None then \<exists>now. tx w' = Some (now, tab w) else tx w' = None)"
    and tx_exec: "ok w \<Longrightarrow> tx w = Some (now, T) \<Longrightarrow> tx_Exec D ctx q w = (r, w')
      \<Longrightarrow> ok w' \<and> tab w' = tab w \<and> (r = None \<longrightarrow> (\<exists>T'. sql_effect now q T T' \<and> tx w' = Some (now, T')))"
    and commit: "ok w \<Longrightarrow> tx w = Some (now, T) \<Longrightarrow> tx_Commit D ctx w = (r, w')
      \<Longrightarrow> ok w' \<and> tab w' = (if r = None then T else tab w)"
    and rollback: "ok w \<Longrightarrow> tx_Rollback D ctx w = (r, w') \<Longrightarrow> ok w' \<and> tab w' = tab w \<and> tx w' = None"
    and exec: "ok w \<Longrightarrow> tx w = None \<Longrightarrow> db_Exec D ctx q w = (r, w')
      \<Longrightarrow> ok w' \<and> tx w' = None \<and> (if r = None then \<exists>now. sql_effect now q (tab w) (tab w') else tab w' = tab w)"
    and select_state: "ok w \<Longrightarrow> db_SelectState D ctx sid w
      = ((case pt_states (tab w) sid of None \<Rightarrow> Inl norows | Some x \<Rightarrow> Inr (fst x)), w)"
    and select_checkpoint: "ok w \<Longrightarrow> db_SelectCheckpoint D ctx ck w
      = ((case find (\<lambda>r. cr_id r = ck) (pt_ckpts (tab w)) of None \<Rightarrow> Inl norows | Some r \<Rightarrow> Inr (cr_json r)), w)"
    and select_checkpoints: "ok w \<Longrightarrow> 0 \<le> n \<Longrightarrow> \<exists>S. newest_first cr_created (filter (\<lambda>r. cr_session r = sid) (pt_ckpts (tab w))) S
      \<and> db_SelectCheckpoints D ctx sid n w = (Inr (map (\<lambda>r. Inr (meta_of r)) (take (nat n) S), None), w)"
    and select_similar: "ok w \<Longrightarrow> 0 \<le> n \<Longrightarrow> \<exists>S. set S \<subseteq> {r \<in> set (pt_msgs (tab w)). mr_session r = sid \<and> mr_embedding r \<noteq> None}
      \<and> length S \<le> nat n \<and> db_SelectSimilar D ctx sid v n w = (Inr (map (\<lambda>r. Inr (mr_role r, mr_content r)) S, None), w)"
    and keys: "ok w \<Longrightarrow> distinct (map cr_id (pt_ckpts (tab w))) \<and> distinct (map mr_id (pt_msgs (tab w)))"
begin

text \<open>A body inside a transaction that keeps it open or commits, and what its frame makes of it.\<close>

lemma in_tx_view:
  assumes "ok w" and "tx w = None" and "in_tx D ctx body w = (r, w')"
    and "\<And>w1 now r w2. ok w1 \<Longrightarrow> tab w1 = tab w \<Longrightarrow> tx w1 = Some (now, tab w) \<Longrightarrow> body w1 = (r, w2)
      \<Longrightarrow> ok w2 \<and> (case r of Inl e \<Rightarrow> tab w2 = tab w | Inr x \<Rightarrow> Q now x (tab w2))"
  shows "ok w' \<and> tx w' = None \<and> (case r of Inl e \<Rightarrow> tab w' = tab w | Inr x \<Rightarrow> \<exists>now. Q now x (tab w'))"
proof -
  obtain b w1 where b: "db_BeginTx D ctx w = (b, w1)" by fastforce
  note bt = begin_tx [OF assms(1,2) b]
  show ?thesis
  proof (cases b)
    case None
    with bt obtain now where i: "ok w1" "tab w1 = tab w" "tx w1 = Some (now, tab w)" by auto
    obtain x w2 where x: "body w1 = (x, w2)" by fastforce
    obtain y w3 where y: "tx_Rollback D ctx w2 = (y, w3)" by fastforce
    have "r = x" "w' = w3" using assms(3) b None x y by (auto simp: in_tx_def)
    moreover note assms(4) [OF i x]
    moreover from this y have "ok w3 \<and> tab w3 = tab w2 \<and> tx w3 = None" using rollback by blast
    ultimately show ?thesis by (auto split: sum.splits)
  next
    case (Some e)
    with bt assms(3) b show ?thesis by (auto simp: in_tx_def)
  qed
qed

end

lemma find_fresh: "k \<notin> f ` set xs \<Longrightarrow> find (\<lambda>r. f r = k) (xs @ [x]) = (if f x = k then Some x else None)"
  by (induction xs) auto

lemma find_key: "distinct (map f xs) \<Longrightarrow> x \<in> set xs \<Longrightarrow> find (\<lambda>r. f r = f x) xs = Some x"
  by (induction xs) force+

text \<open>The tables after a successful \<open>Save\<close>.\<close>

definition saved :: "time \<Rightarrow> Ctx \<Rightarrow> string \<Rightarrow> AgentState \<Rightarrow> string \<Rightarrow> pg_tables \<Rightarrow> pg_tables \<Rightarrow> bool" where
  "saved now ctx sid st ck T T' \<longleftrightarrow> ck \<notin> cr_id ` set (pt_ckpts T) \<and> pt_msgs T' = pt_msgs T
     \<and> pt_sessions T' = (pt_sessions T)(sid \<mapsto> (case pt_sessions T sid of None \<Rightarrow> (ctx_tenant ctx, Status st) | Some x \<Rightarrow> (fst x, Status st)))
     \<and> pt_states T' = (pt_states T)(sid \<mapsto> (JState (json_state st), case pt_states T sid of None \<Rightarrow> 1 | Some x \<Rightarrow> snd x + 1))
     \<and> pt_ckpts T' = pt_ckpts T @ [\<lparr>cr_id = ck, cr_session = sid, cr_json = JState (json_state st), cr_created = now\<rparr>]"

context sql_db
begin

lemma tx_execD:
  assumes "ok w" and "tx w = Some (now, T)" and "tx_Exec D ctx q w = (None, w')"
  obtains T' where "sql_effect now q T T'" "tx w' = Some (now, T')" "ok w'" "tab w' = tab w"
  using tx_exec [OF assms(1,2,3)] by blast

lemma tx_exec_failed: "ok w \<Longrightarrow> tx w = Some (now, T) \<Longrightarrow> tx_Exec D ctx q w = (r, w') \<Longrightarrow> ok w' \<and> tab w' = tab w"
  using tx_exec by blast

lemma save_body:
  assumes "ok w" and "tx w = Some (now, T)" and "tab w = T"
    and "save_tx D ctx sid (Status st) ck (JState (json_state st)) w = (r, w')"
  shows "ok w' \<and> (case r of Inl e \<Rightarrow> tab w' = T | Inr x \<Rightarrow> x = ck \<and> saved now ctx sid st ck T (tab w'))"
proof -
  obtain e1 w1 where 1: "tx_Exec D ctx (UpsertSession sid (ctx_tenant ctx) (Status st)) w = (e1, w1)" by fastforce
  obtain e2 w2 where 2: "tx_Exec D ctx (UpsertState sid (JState (json_state st))) w1 = (e2, w2)" by fastforce
  obtain e3 w3 where 3: "tx_Exec D ctx (InsertCheckpoint ck sid (JState (json_state st))) w2 = (e3, w3)" by fastforce
  obtain e4 w4 where 4: "tx_Commit D ctx w3 = (e4, w4)" by fastforce
  show ?thesis
  proof (cases e1)
    case None
    obtain T1 where T1: "sql_effect now (UpsertSession sid (ctx_tenant ctx) (Status st)) T T1" "tx w1 = Some (now, T1)" "ok w1" "tab w1 = T"
      using tx_execD [OF assms(1,2)] 1 None assms(3) by metis
    note N1 = None
    show ?thesis
    proof (cases e2)
      case None
      obtain T2 where T2: "sql_effect now (UpsertState sid (JState (json_state st))) T1 T2" "tx w2 = Some (now, T2)" "ok w2" "tab w2 = T"
        using tx_execD [OF T1(3,2)] 2 None T1(4) by metis
      note N2 = None
      show ?thesis
      proof (cases e3)
        case None
        obtain T3 where T3: "sql_effect now (InsertCheckpoint ck sid (JState (json_state st))) T2 T3" "tx w3 = Some (now, T3)" "ok w3" "tab w3 = T"
          using tx_execD [OF T2(3,2)] 3 None T2(4) by metis
        have "saved now ctx sid st ck T T3"
          using T1(1) T2(1) T3(1) by (auto simp: saved_def)
        with commit [OF T3(3,2) 4] T3(4) assms(4) 1 2 3 4 N1 N2 None show ?thesis
          by (auto simp: save_tx_def split: option.splits)
      qed (use tx_exec_failed [OF T2(3,2) 3] T2(4) assms(4) 1 2 3 N1 N2 in \<open>auto simp: save_tx_def\<close>)
    qed (use tx_exec_failed [OF T1(3,2) 2] T1(4) assms(4) 1 2 N1 in \<open>auto simp: save_tx_def\<close>)
  qed (use tx_exec_failed [OF assms(1,2) 1] assms(3,4) 1 in \<open>auto simp: save_tx_def\<close>)
qed

lemma save_view:
  assumes "ok w" and "tx w = None" and "Postgres_Save D gen ctx sid st w = (r, w')"
  shows "ok w' \<and> tx w' = None
    \<and> (case r of Inl e \<Rightarrow> tab w' = tab w | Inr ck \<Rightarrow> \<exists>now. saved now ctx sid st ck (tab w) (tab w'))"
proof (cases "state_json_ok st")
  case True
  obtain u w1 where u: "gen w = (u, w1)" by fastforce
  note g = gen [OF assms(1) u]
  have "ok w' \<and> tx w' = None \<and> (case r of Inl e \<Rightarrow> tab w' = tab w1
      | Inr x \<Rightarrow> \<exists>now. x = u \<and> saved now ctx sid st u (tab w1) (tab w'))"
  proof (rule in_tx_view [of w1])
    show "in_tx D ctx (save_tx D ctx sid (Status st) u (JState (json_state st))) w1 = (r, w')"
      using assms(3) u True unfolding Postgres_Save_def marshal_state_def by simp
  next
    fix v now q v'
    assume "ok v" "tab v = tab w1" "tx v = Some (now, tab w1)"
      "save_tx D ctx sid (Status st) u (JState (json_state st)) v = (q, v')"
    then show "ok v' \<and> (case q of Inl e \<Rightarrow> tab v' = tab w1 | Inr x \<Rightarrow> x = u \<and> saved now ctx sid st u (tab w1) (tab v'))"
      by (metis save_body)
  qed (use g assms(1,2) in auto)
  with g show ?thesis by (auto split: sum.splits)
qed (use assms in \<open>auto simp: Postgres_Save_def marshal_state_def\<close>)

lemma load_view: "ok w \<Longrightarrow> Postgres_Load D ctx sid w
    = (scan_state ''session '' sid (case pt_states (tab w) sid of None \<Rightarrow> Inl norows | Some x \<Rightarrow> Inr (fst x)), w)"
  by (simp add: Postgres_Load_def select_state)

lemma checkpoint_view: "ok w \<Longrightarrow> Postgres_LoadCheckpoint D ctx ck w
    = (scan_state ''checkpoint '' ck (case find (\<lambda>r. cr_id r = ck) (pt_ckpts (tab w)) of
         None \<Rightarrow> Inl norows | Some r \<Rightarrow> Inr (cr_json r)), w)"
  by (simp add: Postgres_LoadCheckpoint_def select_checkpoint)

lemma find_saved: "saved now ctx sid st ck T T' \<Longrightarrow>
    find (\<lambda>r. cr_id r = ck) (pt_ckpts T') = Some \<lparr>cr_id = ck, cr_session = sid, cr_json = JState (json_state st), cr_created = now\<rparr>"
  by (simp add: saved_def find_fresh)

end

lemma PostgresMemoryStore_ops_simps [simp]:
  "ms_Save (PostgresMemoryStore_ops D gen s) = Postgres_Save D gen" "ms_Load (PostgresMemoryStore_ops D gen s) = Postgres_Load D"
  "ms_LoadCheckpoint (PostgresMemoryStore_ops D gen s) = Postgres_LoadCheckpoint D"
  by (simp_all add: PostgresMemoryStore_ops_def)

sublocale sql_db \<subseteq> pg_memory: memory_store
  "PostgresMemoryStore_ops D gen s" "\<lambda>w. ok w \<and> tx w = None" "\<lambda>ctx sid sid'. sid \<noteq> sid'"
  for s
proof (unfold_locales, unfold PostgresMemoryStore_ops_simps)
  fix w ctx sid st
  assume "ok w \<and> tx w = None"
  then show "ok (snd (Postgres_Save D gen ctx sid st w)) \<and> tx (snd (Postgres_Save D gen ctx sid st w)) = None"
    using save_view [of w ctx sid st] by (cases "Postgres_Save D gen ctx sid st w") auto
next
  fix w ctx sid
  assume "ok w \<and> tx w = None"
  then show "snd (Postgres_Load D ctx sid w) = w" "snd (Postgres_LoadCheckpoint D ctx sid w) = w"
    by (simp_all add: load_view checkpoint_view)
next
  fix w ctx sid st ck w'
  assume i: "ok w \<and> tx w = None" "Postgres_Save D gen ctx sid st w = (Inr ck, w')"
  then obtain now where s: "saved now ctx sid st ck (tab w) (tab w')" and o: "ok w'"
    using save_view [of w ctx sid st "Inr ck" w'] by auto
  show "fst (Postgres_Load D ctx sid w') = Inr (json_state st)"
    using s o by (simp add: load_view saved_def scan_state_def unmarshal_state_def)
  show "fst (Postgres_LoadCheckpoint D ctx ck w') = Inr (json_state st)"
    using find_saved [OF s] o by (simp add: checkpoint_view scan_state_def unmarshal_state_def)
next
  fix w ctx and sid sid' :: string and st
  assume "ok w \<and> tx w = None" "sid \<noteq> sid'"
  then show "fst (Postgres_Load D ctx sid' (snd (Postgres_Save D gen ctx sid st w))) = fst (Postgres_Load D ctx sid' w)"
    using save_view [of w ctx sid st] by (cases "Postgres_Save D gen ctx sid st w") (auto simp: load_view saved_def split: sum.splits)
next
  fix w ctx sid sid' st e w'
  assume "ok w \<and> tx w = None" "Postgres_Save D gen ctx sid st w = (Inl e, w')"
  then show "fst (Postgres_Load D ctx sid' w') = fst (Postgres_Load D ctx sid' w)"
    using save_view [of w ctx sid st "Inl e" w'] by (simp add: load_view)
qed

section \<open>Appending, listing and searching\<close>

text \<open>The rows that \<open>AppendMessages\<close> inserts for a list of messages.\<close>

definition row_of :: "string \<Rightarrow> Message \<Rightarrow> msg_row \<Rightarrow> bool" where
  "row_of sid m r \<longleftrightarrow> mr_session r = sid \<and> mr_role r = role_text (m_Role m)
     \<and> mr_content r = JParts (map json_part (m_Parts m)) \<and> (mr_embedding r \<noteq> None \<longrightarrow> m_Role m = RoleUser)"

text \<open>An embedder that does not touch the database.\<close>

definition quiet_embedder ::
  "('w \<Rightarrow> bool) \<Rightarrow> ('w \<Rightarrow> pg_tables) \<Rightarrow> ('w \<Rightarrow> (time \<times> pg_tables) option) \<Rightarrow> 'w PostgresMemoryStore \<Rightarrow> bool" where
  "quiet_embedder ok tab tx s \<longleftrightarrow> (\<forall>f ctx t w r w'. pg_embedder s = Some f \<longrightarrow> f ctx t w = (r, w') \<longrightarrow> ok w
     \<longrightarrow> ok w' \<and> tab w' = tab w \<and> tx w' = tx w)"

lemma length_le_kept: "distinct (filter P xs) \<Longrightarrow> set (filter P xs) \<subseteq> set (take n ys) \<Longrightarrow> length (filter P xs) \<le> n"
proof -
  assume "distinct (filter P xs)" "set (filter P xs) \<subseteq> set (take n ys)"
  then have "length (filter P xs) \<le> card (set (take n ys))"
    by (metis List.finite_set card_mono distinct_card)
  also have "\<dots> \<le> length (take n ys)" by (rule card_length)
  finally show ?thesis by simp
qed

lemma sorted_take_drop:
  "sorted_wrt R S \<Longrightarrow> a \<in> set (take n S) \<Longrightarrow> b \<in> set S \<Longrightarrow> b \<notin> set (take n S) \<Longrightarrow> R a b"
  by (metis Un_iff append_take_drop_id set_append sorted_wrt_append)

text \<open>What the trimming statements leave: the newest rows, at most \<open>n\<close> of them, and every other row.\<close>

lemma keeps_newestD:
  assumes "keeps_newest P t n rows rows'" and "distinct rows'"
  shows "length (filter P rows') \<le> nat n" and "filter (\<lambda>r. \<not> P r) rows' = filter (\<lambda>r. \<not> P r) rows"
    and "set rows' \<subseteq> set rows"
    and "a \<in> set rows' \<Longrightarrow> P a \<Longrightarrow> b \<in> set rows \<Longrightarrow> P b \<Longrightarrow> b \<notin> set rows' \<Longrightarrow> t b \<le> t a"
    and "length (filter P rows) \<le> nat n \<Longrightarrow> rows' = rows"
proof -
  obtain S where S: "mset S = mset (filter P rows)" "sorted_wrt (\<lambda>a b. t b \<le> t a) S"
    and r: "rows' = filter (\<lambda>r. P r \<longrightarrow> r \<in> set (take (nat n) S)) rows"
    using assms(1) by (auto simp: keeps_newest_def newest_first_def)
  have set: "set S = set (filter P rows)" using S(1) by (metis set_mset_mset)
  have len: "length S = length (filter P rows)" using S(1) by (metis size_mset)
  show "length (filter P rows') \<le> nat n"
    using r by (intro length_le_kept [of _ _ _ S] distinct_filter assms(2)) auto
  show "filter (\<lambda>r. \<not> P r) rows' = filter (\<lambda>r. \<not> P r) rows" unfolding r by (auto intro: filter_cong)
  show "set rows' \<subseteq> set rows" unfolding r by auto
  show "t b \<le> t a" if "a \<in> set rows'" "P a" "b \<in> set rows" "P b" "b \<notin> set rows'"
    using that set r by (intro sorted_take_drop [OF S(2), of a "nat n" b]) auto
  show "rows' = rows" if "length (filter P rows) \<le> nat n"
    using that set len unfolding r by (auto intro!: filter_True)
qed

context sql_db
begin

lemma embed_message_view:
  assumes "quiet_embedder ok tab tx s" and "ok w" and "embed_message s ctx m w = (v, w')"
  shows "ok w' \<and> tab w' = tab w \<and> tx w' = tx w \<and> (v \<noteq> None \<longrightarrow> m_Role m = RoleUser)"
  using assms unfolding quiet_embedder_def embed_message_def
  by (auto split: option.splits if_splits prod.splits sum.splits)

lemma insert_messages_view:
  assumes "quiet_embedder ok tab tx s" and "ok w" and "tx w = Some (now, T)" and "insert_messages D s ctx sid msgs w = (r, w')"
  shows "ok w' \<and> tab w' = tab w \<and> (r = None \<longrightarrow> (\<exists>rows. list_all2 (row_of sid) msgs rows \<and> tx w' = Some (now, T\<lparr>pt_msgs := pt_msgs T @ rows\<rparr>)))"
  using assms(2-)
proof (induction msgs arbitrary: w T)
  case Nil
  then show ?case by auto
next
  case (Cons m msgs)
  show ?case
  proof (cases "list_all part_json_ok (m_Parts m)")
    case True
    obtain v w1 where v: "embed_message s ctx m w = (v, w1)" by fastforce
    note e = embed_message_view [OF assms(1) Cons.prems(1) v]
    let ?q = "InsertMessage sid (ctx_tenant ctx) (role_text (m_Role m)) (JParts (map json_part (m_Parts m))) v"
    obtain x w2 where x: "tx_Exec D ctx ?q w1 = (x, w2)" by fastforce
    show ?thesis
    proof (cases x)
      case None
      obtain T1 where T1: "sql_effect now ?q T T1" "tx w2 = Some (now, T1)" "ok w2" "tab w2 = tab w1"
        using tx_execD [of w1 now T ctx ?q w2] e Cons.prems(2) x None by auto
      then obtain row where row: "T1 = T\<lparr>pt_msgs := pt_msgs T @ [row]\<rparr>" "row_of sid m row"
        using e by (auto simp: row_of_def)
      have "insert_messages D s ctx sid msgs w2 = (r, w')" using Cons.prems(3) True v x None by simp
      from Cons.IH [OF T1(3,2) this] row T1(4) e show ?thesis by auto
    next
      case (Some er)
      with Cons.prems True v x tx_exec_failed [of w1 now T ctx ?q x w2] e show ?thesis by auto
    qed
  qed (use Cons.prems in auto)
qed

text \<open>\<open>AppendMessages\<close> either changes nothing or appends a row for each message and trims the session.\<close>

lemma append_view:
  assumes "quiet_embedder ok tab tx s" and "ok w" and "tx w = None"
    and "Postgres_AppendMessages D s ctx sid msgs w = (r, w')"
  shows "ok w' \<and> tx w' = None \<and> (case r of Some e \<Rightarrow> tab w' = tab w
    | None \<Rightarrow> \<exists>rows kept. list_all2 (row_of sid) msgs rows \<and> tab w' = (tab w)\<lparr>pt_msgs := kept\<rparr>
        \<and> keeps_newest (\<lambda>r. mr_session r = sid) mr_created (pg_maxMessages s) (pt_msgs (tab w) @ rows) kept)"
proof -
  let ?body = "\<lambda>w. case insert_messages D s ctx sid msgs w of
          (Some e, w2) \<Rightarrow> (Inl e, w2)
        | (None, w2) \<Rightarrow> (case tx_Exec D ctx (TrimMessages sid (pg_maxMessages s)) w2 of
            (Some e, w3) \<Rightarrow> (Inl e, w3)
          | (None, w3) \<Rightarrow> (case tx_Commit D ctx w3 of (Some e, w4) \<Rightarrow> (Inl e, w4) | (None, w4) \<Rightarrow> (Inr (), w4)))"
  define Q where "Q T' \<longleftrightarrow> (\<exists>rows kept. list_all2 (row_of sid) msgs rows \<and> T' = (tab w)\<lparr>pt_msgs := kept\<rparr>
        \<and> keeps_newest (\<lambda>r. mr_session r = sid) mr_created (pg_maxMessages s) (pt_msgs (tab w) @ rows) kept)" for T'
  have body: "ok v' \<and> (case q of Inl e \<Rightarrow> tab v' = tab w | Inr x \<Rightarrow> Q (tab v'))"
    if i: "ok v" "tab v = tab w" "tx v = Some (now, tab w)" and b: "?body v = (q, v')" for v now q v'
  proof -
    obtain e1 w1 where 1: "insert_messages D s ctx sid msgs v = (e1, w1)" by fastforce
    obtain e2 w2 where 2: "tx_Exec D ctx (TrimMessages sid (pg_maxMessages s)) w1 = (e2, w2)" by fastforce
    obtain e3 w3 where 3: "tx_Commit D ctx w2 = (e3, w3)" by fastforce
    note v1 = insert_messages_view [OF assms(1) i(1,3) 1]
    show ?thesis
    proof (cases e1)
      case None
      with v1 obtain rows where rows: "list_all2 (row_of sid) msgs rows"
        "tx w1 = Some (now, (tab w)\<lparr>pt_msgs := pt_msgs (tab w) @ rows\<rparr>)" "ok w1" "tab w1 = tab w" using i(2) by auto
      note N1 = None
      show ?thesis
      proof (cases e2)
        case None
        obtain T2 where T2: "sql_effect now (TrimMessages sid (pg_maxMessages s)) ((tab w)\<lparr>pt_msgs := pt_msgs (tab w) @ rows\<rparr>) T2"
          "tx w2 = Some (now, T2)" "ok w2" "tab w2 = tab w"
          using tx_execD [OF rows(3,2)] 2 None rows(4) by metis
        then have "Q T2" using rows(1) by (auto simp: Q_def)
        with commit [OF T2(3,2) 3] T2(4) b 1 2 3 N1 None show ?thesis by (auto split: option.splits)
      next
        case (Some e)
        with tx_exec_failed [OF rows(3,2) 2] rows(4) b 1 2 N1 show ?thesis by auto
      qed
    next
      case (Some e)
      with v1 b 1 i(2) show ?thesis by auto
    qed
  qed
  obtain q v where q: "in_tx D ctx ?body w = (q, v)" by fastforce
  have "ok v \<and> tx v = None \<and> (case q of Inl e \<Rightarrow> tab v = tab w | Inr x \<Rightarrow> \<exists>now :: time. Q (tab v))"
    by (rule in_tx_view [OF assms(2,3) q]) (rule body)
  moreover have "v = w'" "r = (case q of Inl e \<Rightarrow> Some e | Inr _ \<Rightarrow> None)"
    using assms(4) q by (auto simp: Postgres_AppendMessages_def split: sum.splits)
  ultimately show ?thesis unfolding Q_def by (auto split: sum.splits)
qed

end

text \<open>Lists of checkpoints and search results.\<close>

lemma scan_rows_Inr [simp]: "scan_rows (map (\<lambda>r. Inr (f r)) rs) = Inr (map f rs)"
  by (induction rs) auto

context sql_db
begin

lemma list_view:
  assumes "ok w" and "0 \<le> pg_maxCheckpoints s"
  shows "\<exists>S. newest_first cr_created (filter (\<lambda>r. cr_session r = sid) (pt_ckpts (tab w))) S
    \<and> Postgres_ListCheckpoints D s ctx sid w = (Inr (map meta_of (take (nat (pg_maxCheckpoints s)) S)), w)"
  using select_checkpoints [OF assms, of sid ctx] by (auto simp: Postgres_ListCheckpoints_def read_rows_def)

lemma prune_view:
  assumes "ok w" and "tx w = None"
  shows "ok (Postgres_prune D s sid w) \<and> tx (Postgres_prune D s sid w) = None
    \<and> (tab (Postgres_prune D s sid w) = tab w
       \<or> (\<exists>rows. tab (Postgres_prune D s sid w) = (tab w)\<lparr>pt_ckpts := rows\<rparr>
            \<and> keeps_newest (\<lambda>r. cr_session r = sid) cr_created (pg_maxCheckpoints s) (pt_ckpts (tab w)) rows))"
proof -
  obtain r w' where "db_Exec D Background (PruneCheckpoints sid (pg_maxCheckpoints s)) w = (r, w')" by fastforce
  with exec [OF assms this] show ?thesis by (auto simp: Postgres_prune_def split: if_splits)
qed

lemma prune_bound:
  assumes "ok w" and "tx w = None" and "0 < pg_maxCheckpoints s"
  shows "tab (Postgres_prune D s sid w) = tab w
    \<or> length (filter (\<lambda>r. cr_session r = sid) (pt_ckpts (tab (Postgres_prune D s sid w)))) \<le> nat (pg_maxCheckpoints s)
      \<and> pt_states (tab (Postgres_prune D s sid w)) = pt_states (tab w)"
proof -
  note v = prune_view [OF assms(1,2), of s sid]
  then have "distinct (pt_ckpts (tab (Postgres_prune D s sid w)))" using keys by (auto simp: distinct_map)
  with v keeps_newestD(1) show ?thesis by fastforce
qed

lemma search_view:
  assumes "quiet_embedder ok tab tx s" and "ok w" and "0 \<le> topK"
    and "Postgres_Search D s ctx sid query topK w = (Inr ms, w')"
  shows "length ms \<le> nat topK \<and> tab w' = tab w \<and> (\<forall>m \<in> set ms. \<exists>r \<in> set (pt_msgs (tab w)). mr_session r = sid
    \<and> mr_embedding r \<noteq> None \<and> m_Role m = Role_of (mr_role r) \<and> mr_content r = JParts (m_Parts m))"
proof -
  from assms(4) obtain f v w1 where f: "pg_embedder s = Some f" "f ctx query w = (Inr v, w1)"
    by (auto simp: Postgres_Search_def split: option.splits prod.splits sum.splits)
  with assms(1,2) have w1: "ok w1" "tab w1 = tab w" unfolding quiet_embedder_def by blast+
  from select_similar [OF w1(1) assms(3), of sid ctx v] obtain S where
    S: "set S \<subseteq> {r \<in> set (pt_msgs (tab w)). mr_session r = sid \<and> mr_embedding r \<noteq> None}" "length S \<le> nat topK"
    "db_SelectSimilar D ctx sid v topK w1 = (Inr (map (\<lambda>r. Inr (mr_role r, mr_content r)) S, None), w1)"
    using w1(2) by auto
  then have ms: "ms = decode_messages (map (\<lambda>r. (mr_role r, mr_content r)) S)" "w' = w1"
    using assms(4) f by (auto simp: Postgres_Search_def read_rows_def)
  have "length (decode_messages (map (\<lambda>r. (mr_role r, mr_content r)) S)) \<le> length S
    \<and> (\<forall>m \<in> set (decode_messages (map (\<lambda>r. (mr_role r, mr_content r)) S)).
        \<exists>r \<in> set S. m_Role m = Role_of (mr_role r) \<and> mr_content r = JParts (m_Parts m))"
  proof (induction S)
    case (Cons r S)
    then show ?case by (cases "mr_content r") fastforce+
  qed simp
  with ms S w1(2) show ?thesis by fastforce
qed

end

section \<open>A database\<close>

text \<open>A database in one process that keeps the contract; ties in the order go to the older row.\<close>

record pg_world =
  pw_tab :: pg_tables
  pw_tx :: "(time \<times> pg_tables) option"
  pw_uuids :: nat
  pw_clock :: time

definition keep_rows :: "('r \<Rightarrow> bool) \<Rightarrow> ('r \<Rightarrow> time) \<Rightarrow> int \<Rightarrow> 'r list \<Rightarrow> 'r list" where
  "keep_rows P t n rows = filter (\<lambda>r. P r \<longrightarrow> r \<in> set (take (nat n) (sort_key (\<lambda>r. - t r) (filter P rows)))) rows"

definition next_id :: "msg_row list \<Rightarrow> nat" where
  "next_id rows = Suc (sum_list (map mr_id rows))"

fun run_sql :: "time \<Rightarrow> sql_stmt \<Rightarrow> pg_tables \<Rightarrow> pg_tables option" where
  "run_sql now (UpsertSession sid tenant st) T =
     Some (T\<lparr>pt_sessions := (pt_sessions T)(sid \<mapsto> (case pt_sessions T sid of None \<Rightarrow> (tenant, st) | Some x \<Rightarrow> (fst x, st)))\<rparr>)"
| "run_sql now (UpsertState sid j) T = (if pt_sessions T sid = None then None
     else Some (T\<lparr>pt_states := (pt_states T)(sid \<mapsto> (j, case pt_states T sid of None \<Rightarrow> 1 | Some x \<Rightarrow> snd x + 1))\<rparr>))"
| "run_sql now (InsertCheckpoint ck sid j) T = (if pt_sessions T sid = None \<or> ck \<in> cr_id ` set (pt_ckpts T) then None
     else Some (T\<lparr>pt_ckpts := pt_ckpts T @ [\<lparr>cr_id = ck, cr_session = sid, cr_json = j, cr_created = now\<rparr>]\<rparr>))"
| "run_sql now (PruneCheckpoints sid n) T = (if n < 0 then None
     else Some (T\<lparr>pt_ckpts := keep_rows (\<lambda>r. cr_session r = sid) cr_created n (pt_ckpts T)\<rparr>))"
| "run_sql now (InsertMessage sid tenant role j emb) T = (if pt_sessions T sid = None then None
     else Some (T\<lparr>pt_msgs := pt_msgs T @ [\<lparr>mr_id = next_id (pt_msgs T), mr_session = sid, mr_tenant = tenant,
           mr_role = role, mr_content = j, mr_embedding = emb, mr_created = now\<rparr>]\<rparr>))"
| "run_sql now (TrimMessages sid n) T = (if n < 0 then None
     else Some (T\<lparr>pt_msgs := keep_rows (\<lambda>r. mr_session r = sid) mr_created n (pt_msgs T)\<rparr>))"

definition pg_error :: go_error where
  "pg_error = ErrorText ''SQL error''"

definition pg_norows :: go_error where
  "pg_norows = ErrorText ''no rows in result set''"

definition pg_db :: "pg_world DBQuerier" where
  "pg_db = \<lparr>
     db_Exec = (\<lambda>ctx q w. case run_sql (pw_clock w) q (pw_tab w) of
        None \<Rightarrow> (Some pg_error, w) | Some T \<Rightarrow> (None, w\<lparr>pw_tab := T\<rparr>)),
     db_BeginTx = (\<lambda>ctx w. (None, w\<lparr>pw_tx := Some (pw_clock w, pw_tab w)\<rparr>)),
     tx_Exec = (\<lambda>ctx q w. case pw_tx w of
        None \<Rightarrow> (Some pg_error, w)
      | Some (now, T) \<Rightarrow> (case run_sql now q T of
          None \<Rightarrow> (Some pg_error, w) | Some T' \<Rightarrow> (None, w\<lparr>pw_tx := Some (now, T')\<rparr>))),
     tx_Commit = (\<lambda>ctx w. case pw_tx w of
        None \<Rightarrow> (Some pg_error, w) | Some (now, T) \<Rightarrow> (None, w\<lparr>pw_tab := T, pw_tx := None\<rparr>)),
     tx_Rollback = (\<lambda>ctx w. (None, w\<lparr>pw_tx := None\<rparr>)),
     db_SelectState = (\<lambda>ctx sid w. ((case pt_states (pw_tab w) sid of None \<Rightarrow> Inl pg_norows | Some x \<Rightarrow> Inr (fst x)), w)),
     db_SelectCheckpoint = (\<lambda>ctx ck w. ((case find (\<lambda>r. cr_id r = ck) (pt_ckpts (pw_tab w)) of
        None \<Rightarrow> Inl pg_norows | Some r \<Rightarrow> Inr (cr_json r)), w)),
     db_SelectCheckpoints = (\<lambda>ctx sid n w. (Inr (map (\<lambda>r. Inr (meta_of r))
        (take (nat n) (sort_key (\<lambda>r. - cr_created r) (filter (\<lambda>r. cr_session r = sid) (pt_ckpts (pw_tab w))))), None), w)),
     db_SelectSimilar = (\<lambda>ctx sid v n w. (Inr (map (\<lambda>r. Inr (mr_role r, mr_content r))
        (take (nat n) (filter (\<lambda>r. mr_session r = sid \<and> mr_embedding r \<noteq> None) (pt_msgs (pw_tab w)))), None), w))\<rparr>"

definition pg_gen :: "pg_world \<Rightarrow> string \<times> pg_world" where
  "pg_gen w = (replicate (pw_uuids w) (CHR ''x''), w\<lparr>pw_uuids := Suc (pw_uuids w)\<rparr>)"

definition pk_ok :: "pg_tables \<Rightarrow> bool" where
  "pk_ok T \<longleftrightarrow> distinct (map cr_id (pt_ckpts T)) \<and> distinct (map mr_id (pt_msgs T))"

definition pg_ok :: "pg_world \<Rightarrow> bool" where
  "pg_ok w \<longleftrightarrow> pk_ok (pw_tab w) \<and> (case pw_tx w of None \<Rightarrow> True | Some x \<Rightarrow> pk_ok (snd x))"

lemma newest_first_sort: "newest_first t rows (sort_key (\<lambda>r. - t r) rows)"
  using sorted_sort_key [of "\<lambda>r. - t r" rows] by (simp add: newest_first_def sorted_wrt_map)

lemma next_id_fresh: "next_id rows \<notin> mr_id ` set rows"
proof -
  have "x \<in> set rows \<Longrightarrow> mr_id x < next_id rows" for x
    using member_le_sum_list [of "mr_id x" "map mr_id rows"] by (simp add: next_id_def)
  then show ?thesis by fastforce
qed

lemma keep_rows_ok: "0 \<le> n \<Longrightarrow> keeps_newest P t n rows (keep_rows P t n rows)"
  using newest_first_sort [of t "filter P rows"] unfolding keeps_newest_def keep_rows_def by blast

lemma run_sql_effect: "run_sql now q T = Some T' \<Longrightarrow> sql_effect now q T T'"
proof (cases q)
  case (InsertMessage sid tenant role j emb)
  moreover assume "run_sql now q T = Some T'"
  ultimately show ?thesis
    using next_id_fresh [of "pt_msgs T"] by (auto split: if_splits intro!: exI [of _ "next_id (pt_msgs T)"])
next
  case (PruneCheckpoints sid n)
  moreover assume "run_sql now q T = Some T'"
  ultimately show ?thesis
    by (auto split: if_splits intro!: exI [of _ "keep_rows (\<lambda>r. cr_session r = sid) cr_created n (pt_ckpts T)"] keep_rows_ok)
next
  case (TrimMessages sid n)
  moreover assume "run_sql now q T = Some T'"
  ultimately show ?thesis
    by (auto split: if_splits intro!: exI [of _ "keep_rows (\<lambda>r. mr_session r = sid) mr_created n (pt_msgs T)"] keep_rows_ok)
qed (auto split: if_splits)

lemma sql_effect_pk: "sql_effect now q T T' \<Longrightarrow> pk_ok T \<Longrightarrow> pk_ok T'"
  by (cases q) (auto simp: pk_ok_def keeps_newest_def distinct_map_filter)

interpretation pgdb: sql_db pg_db pg_gen pg_norows pg_ok pw_tab pw_tx
proof unfold_locales
  fix w ctx q r w' and now T
  assume "pg_ok w" "pw_tx w = Some (now, T)" "tx_Exec pg_db ctx q w = (r, w')"
  then show "pg_ok w' \<and> pw_tab w' = pw_tab w \<and> (r = None \<longrightarrow> (\<exists>T'. sql_effect now q T T' \<and> pw_tx w' = Some (now, T')))"
    using run_sql_effect [of now q T] sql_effect_pk [of now q T] by (auto simp: pg_db_def pg_ok_def split: option.splits)
next
  fix w ctx q r w'
  assume "pg_ok w" "pw_tx w = None" "db_Exec pg_db ctx q w = (r, w')"
  then show "pg_ok w' \<and> pw_tx w' = None
      \<and> (if r = None then \<exists>now. sql_effect now q (pw_tab w) (pw_tab w') else pw_tab w' = pw_tab w)"
    using run_sql_effect [of "pw_clock w" q "pw_tab w"] sql_effect_pk [of "pw_clock w" q "pw_tab w"]
    by (auto simp: pg_db_def pg_ok_def split: option.splits)
next
  fix w and n :: int and ctx sid
  show "\<exists>S. newest_first cr_created (filter (\<lambda>r. cr_session r = sid) (pt_ckpts (pw_tab w))) S
      \<and> db_SelectCheckpoints pg_db ctx sid n w = (Inr (map (\<lambda>r. Inr (meta_of r)) (take (nat n) S), None), w)"
    using newest_first_sort by (auto simp: pg_db_def)
next
  fix w and n :: int and ctx sid v
  show "\<exists>S. set S \<subseteq> {r \<in> set (pt_msgs (pw_tab w)). mr_session r = sid \<and> mr_embedding r \<noteq> None}
      \<and> length S \<le> nat n \<and> db_SelectSimilar pg_db ctx sid v n w = (Inr (map (\<lambda>r. Inr (mr_role r, mr_content r)) S, None), w)"
    by (intro exI [of _ "take (nat n) (filter (\<lambda>r. mr_session r = sid \<and> mr_embedding r \<noteq> None) (pt_msgs (pw_tab w)))"])
      (auto simp: pg_db_def dest: in_set_takeD)
qed (auto simp: pg_db_def pg_gen_def pg_ok_def pk_ok_def split: option.splits)

section \<open>The driver keeps the contract\<close>

lemma translate_None [simp]: "translatePgError e = None \<longleftrightarrow> e = None" "translatePgError None = None"
  by (auto simp: translatePgError_def split: option.split)

lemma PgxDriver_simps [simp]:
  "db_BeginTx (PgxDriver P) = db_BeginTx P" "tx_Commit (PgxDriver P) = tx_Commit P" "tx_Rollback (PgxDriver P) = tx_Rollback P"
  "db_SelectState (PgxDriver P) = db_SelectState P" "db_SelectCheckpoint (PgxDriver P) = db_SelectCheckpoint P"
  "db_SelectCheckpoints (PgxDriver P) = db_SelectCheckpoints P" "db_SelectSimilar (PgxDriver P) = db_SelectSimilar P"
  "tx_Exec (PgxDriver P) ctx q w = (translatePgError (fst (tx_Exec P ctx q w)), snd (tx_Exec P ctx q w))"
  "db_Exec (PgxDriver P) ctx q w = (translatePgError (fst (db_Exec P ctx q w)), snd (db_Exec P ctx q w))"
  by (simp_all add: PgxDriver_def case_prod_beta)

lemma pgx_driver_contract:
  assumes "sql_db D gen norows ok tab tx"
  shows "sql_db (PgxDriver D) gen norows ok tab tx"
proof -
  note laws = sql_db.gen [OF assms] sql_db.begin_tx [OF assms] sql_db.commit [OF assms] sql_db.rollback [OF assms]
    sql_db.select_state [OF assms] sql_db.select_checkpoint [OF assms] sql_db.select_checkpoints [OF assms]
    sql_db.select_similar [OF assms] sql_db.keys [OF assms]
  show ?thesis
  proof (unfold_locales, unfold PgxDriver_simps)
    fix w and now :: time and T ctx q r w'
    assume "ok w" "tx w = Some (now, T)" "(translatePgError (fst (tx_Exec D ctx q w)), snd (tx_Exec D ctx q w)) = (r, w')"
    then show "ok w' \<and> tab w' = tab w \<and> (r = None \<longrightarrow> (\<exists>T'. sql_effect now q T T' \<and> tx w' = Some (now, T')))"
      using sql_db.tx_exec [OF assms, of w now T ctx q "fst (tx_Exec D ctx q w)" w'] by auto
  next
    fix w ctx q r w'
    assume "ok w" "tx w = None" "(translatePgError (fst (db_Exec D ctx q w)), snd (db_Exec D ctx q w)) = (r, w')"
    then show "ok w' \<and> tx w' = None \<and> (if r = None then \<exists>now. sql_effect now q (tab w) (tab w') else tab w' = tab w)"
      using sql_db.exec [OF assms, of w ctx q "fst (db_Exec D ctx q w)" w'] by (auto split: if_splits)
  qed (rule laws; assumption)+
qed

text \<open>
  A missing session is not reported as such: pgx's error for a query without rows is another value
  than the package's \<open>errNoRows\<close>, and \<open>QueryRow\<close> hands it on as it is.
\<close>

lemma missing_session_unnamed:
  "db_SelectState P ctx sid w = (Inl pg_norows, w) \<Longrightarrow> fst (Postgres_Load (PgxDriver P) ctx sid w) = Inl pg_norows"
  by (simp add: Postgres_Load_def scan_state_def pg_norows_def)

section \<open>Properties of postgres\_store.go\<close>


definition pg_start :: pg_world where
  "pg_start = \<lparr>pw_tab = \<lparr>pt_sessions = Map.empty, pt_states = Map.empty, pt_ckpts = [], pt_msgs = []\<rparr>,
     pw_tx = None, pw_uuids = 0, pw_clock = 0\<rparr>"

lemma pg_start_ok [simp]: "pg_ok pg_start" "pw_tx pg_start = None"
  by (simp_all add: pg_start_def pg_ok_def pk_ok_def)

lemma pg_saves: "\<exists>w. Postgres_Save pg_db pg_gen Background ''s'' NewState pg_start = (Inr [], w)"
  by (simp add: Postgres_Save_def marshal_state_def pg_gen_def in_tx_def save_tx_def pg_db_def pg_start_def)


text \<open>
  C34: appended messages are kept in a window, all or none. For every database that keeps the
  contract, and an embedder that does not touch it, a failed \<open>AppendMessages\<close> changes nothing; a
  successful one adds a row for each message to the session and then keeps at most \<open>maxMessages\<close>
  of the session's rows, drops none while there is room, drops only rows that are no newer than
  those it keeps, and leaves other sessions, states and checkpoints alone.
\<close>

theorem postgres_messages_windowed:
  assumes "sql_db D gen norows ok tab tx" and "quiet_embedder ok tab tx s" and "ok w" and "tx w = None"
    and "Postgres_AppendMessages D s ctx sid msgs w = (r, w')"
  shows "case r of Some e \<Rightarrow> tab w' = tab w
    | None \<Rightarrow> pt_states (tab w') = pt_states (tab w) \<and> pt_ckpts (tab w') = pt_ckpts (tab w)
        \<and> (\<exists>rows. list_all2 (row_of sid) msgs rows
            \<and> length (filter (\<lambda>r. mr_session r = sid) (pt_msgs (tab w'))) \<le> nat (pg_maxMessages s)
            \<and> filter (\<lambda>r. mr_session r \<noteq> sid) (pt_msgs (tab w')) = filter (\<lambda>r. mr_session r \<noteq> sid) (pt_msgs (tab w))
            \<and> set (pt_msgs (tab w')) \<subseteq> set (pt_msgs (tab w) @ rows)
            \<and> (\<forall>a \<in> set (pt_msgs (tab w')). \<forall>b \<in> set (pt_msgs (tab w) @ rows) - set (pt_msgs (tab w')).
                 mr_session a = sid \<and> mr_session b = sid \<longrightarrow> mr_created b \<le> mr_created a)
            \<and> (length (filter (\<lambda>r. mr_session r = sid) (pt_msgs (tab w) @ rows)) \<le> nat (pg_maxMessages s)
                 \<longrightarrow> pt_msgs (tab w') = pt_msgs (tab w) @ rows))"
proof (cases r)
  case None
  note v = sql_db.append_view [OF assms]
  with None obtain rows kept where rows: "list_all2 (row_of sid) msgs rows" and w': "tab w' = (tab w)\<lparr>pt_msgs := kept\<rparr>"
    and k: "keeps_newest (\<lambda>r. mr_session r = sid) mr_created (pg_maxMessages s) (pt_msgs (tab w) @ rows) kept"
    by auto
  have "distinct kept" using v w' sql_db.keys [OF assms(1), of w'] by (auto simp: distinct_map)
  note n = keeps_newestD [OF k this]
  have "filter (\<lambda>r. mr_session r \<noteq> sid) rows = []"
    using rows by (auto simp: row_of_def list_all2_conv_all_nth filter_empty_conv in_set_conv_nth)
  with n(2) have "filter (\<lambda>r. mr_session r \<noteq> sid) kept = filter (\<lambda>r. mr_session r \<noteq> sid) (pt_msgs (tab w))" by simp
  with rows n(1,3,5) n(4) show ?thesis unfolding None option.case w' by (auto intro!: exI [of _ rows])
qed (use sql_db.append_view [OF assms] in simp)

definition plain_store :: "pg_world PostgresMemoryStore" where
  "plain_store = NewPostgresMemoryStore \<lparr>pg_embedder = None, pg_maxCheckpoints = 0, pg_maxMessages = 0\<rparr>"

theorem postgres_messages_windowed_witness:
  "\<exists>w w'. Postgres_AppendMessages pg_db plain_store Background ''s'' [zero_Message] w = (None, w')
    \<and> length (filter (\<lambda>r. mr_session r = ''s'') (pt_msgs (pw_tab w'))) \<le> 200"
proof -
  obtain w where w: "Postgres_Save pg_db pg_gen Background ''s'' NewState pg_start = (Inr [], w)" using pg_saves ..
  note v = pgdb.save_view [OF pg_start_ok w]
  have q: "quiet_embedder pg_ok pw_tab pw_tx plain_store"
    by (simp add: quiet_embedder_def plain_store_def NewPostgresMemoryStore_def)
  obtain w' where w': "Postgres_AppendMessages pg_db plain_store Background ''s'' [zero_Message] w = (None, w')"
    using v by (auto simp: Postgres_AppendMessages_def in_tx_def pg_db_def plain_store_def NewPostgresMemoryStore_def
        embed_message_def saved_def zero_Message_def)
  have "length (filter (\<lambda>r. mr_session r = ''s'') (pt_msgs (pw_tab w'))) \<le> nat (pg_maxMessages plain_store)"
    using postgres_messages_windowed [OF pgdb.sql_db_axioms q _ _ w'] v by auto
  with w' show ?thesis by (auto simp: plain_store_def NewPostgresMemoryStore_def)
qed

end
