(* ===== verification/Eval_Model.thy ===== *)
theory Eval_Model
  imports Engine_Props
begin

text \<open>
  Package \<open>eval\<close>: the harness that runs test cases against an engine. Reading and decoding the
  YAML file is the parameter \<open>load\<close>; the order of a test case's variables is the order in which
  the \<open>range\<close> loop visits them.
\<close>

section \<open>Test cases and verdicts (eval/harness.go)\<close>

record Assertion =
  as_Type :: string
  as_Key :: string
  as_Value :: string
  as_Threshold :: rat

record TestCase =
  ts_Name :: string
  ts_Description :: string
  ts_Input :: string
  ts_Expected :: "Assertion list"
  ts_Variables :: gvars

record Result =
  rs_Name :: string
  rs_Passed :: bool
  rs_Error :: string

text \<open>The search for a text part of an assistant message that contains a string.\<close>

definition assistant_says :: "AgentState \<Rightarrow> string \<Rightarrow> bool" where
  "assistant_says s v = list_ex (\<lambda>m. m_Role m = RoleAssistant
     \<and> list_ex (\<lambda>p. p_Type p = PartTypeText \<and> Contains (p_Text p) v) (m_Parts m)) (Messages s)"

definition checkAssertion :: "AgentState option \<Rightarrow> go_error option \<Rightarrow> Assertion \<Rightarrow> bool" where
  "checkAssertion state err a = (case state of
     None \<Rightarrow> as_Type a = ''status_is'' \<and> as_Value a = ''Failed'' \<and> err \<noteq> None
   | Some s \<Rightarrow>
       if as_Type a = ''status_is'' then status_text (Status s) = as_Value a
       else if as_Type a = ''variable_equals'' then
         (case GetStringVariable s (as_Key a) of (v, None) \<Rightarrow> v = as_Value a | (v, Some _) \<Rightarrow> False)
       else if as_Type a = ''contains'' then assistant_says s (as_Value a)
       else if as_Type a = ''not_contains'' then \<not> assistant_says s (as_Value a)
       else False)"

definition expects_failure :: "Assertion \<Rightarrow> bool" where
  "expects_failure a \<longleftrightarrow> as_Type a = ''status_is'' \<and> as_Value a = ''Failed''"

text \<open>One turn of the loop over the assertions.\<close>

definition judge :: "AgentState option \<Rightarrow> go_error option \<Rightarrow> Assertion \<Rightarrow> Result \<Rightarrow> Result" where
  "judge state err a res =
     (if \<not> checkAssertion state err a then
        res\<lparr>rs_Passed := False, rs_Error := rs_Error res @ ''Assertion failed: '' @ as_Type a @ '' '' @ as_Key a
          @ '' '' @ as_Value a @ ''; ''\<rparr>
      else if expects_failure a \<and> err \<noteq> None then res\<lparr>rs_Passed := True, rs_Error := []\<rparr>
      else res)"

definition verdict :: "TestCase \<Rightarrow> AgentState option \<Rightarrow> go_error option \<Rightarrow> Result" where
  "verdict tc state err = fold (judge state err) (ts_Expected tc)
     (case err of None \<Rightarrow> \<lparr>rs_Name = ts_Name tc, rs_Passed = True, rs_Error = []\<rparr>
      | Some e \<Rightarrow> \<lparr>rs_Name = ts_Name tc, rs_Passed = False, rs_Error = Error e\<rparr>)"

definition case_state :: "TestCase \<Rightarrow> AgentState" where
  "case_state tc = WithMessage ((fold (\<lambda>(k, v) s. WithVariable s k v) (ts_Variables tc) NewState)
       \<lparr>TaskID := ''eval-'' @ ts_Name tc, ContextID := ''eval-context''\<rparr>)
     (zero_Message\<lparr>m_Role := RoleUser, m_Parts := [text_part (ts_Input tc)]\<rparr>)"

definition case_ctx :: "Ctx \<Rightarrow> TestCase \<Rightarrow> Ctx" where
  "case_ctx ctx tc = (case map_string (ts_Variables tc) ''tenant_id'' of
     None \<Rightarrow> ctx | Some tid \<Rightarrow> ctx\<lparr>ctx_tenantID := Some tid\<rparr>)"

text \<open>\<open>None\<close>: the engine does not return.\<close>

definition RunTestCase :: "'w Engine \<Rightarrow> Ctx \<Rightarrow> TestCase \<Rightarrow> 'w \<Rightarrow> ((gopanic + Result) \<times> 'w) option" where
  "RunTestCase e ctx tc w = (case Start e (case_ctx ctx tc) (''eval-'' @ ts_Name tc) (Some (case_state tc)) w of
     None \<Rightarrow> None
   | Some (Panicked p w1) \<Rightarrow> Some (Inl p, w1)
   | Some (Returned final err w1) \<Rightarrow> Some (Inr (verdict tc final err), w1))"

fun run_cases :: "'w Engine \<Rightarrow> Ctx \<Rightarrow> TestCase list \<Rightarrow> 'w \<Rightarrow> ((gopanic + Result list) \<times> 'w) option" where
  "run_cases e ctx [] w = Some (Inr [], w)"
| "run_cases e ctx (tc # tcs) w = (case RunTestCase e ctx tc w of
     None \<Rightarrow> None
   | Some (Inl p, w1) \<Rightarrow> Some (Inl p, w1)
   | Some (Inr r, w1) \<Rightarrow> (case run_cases e ctx tcs w1 of
       None \<Rightarrow> None
     | Some (Inl p, w2) \<Rightarrow> Some (Inl p, w2)
     | Some (Inr rs, w2) \<Rightarrow> Some (Inr (r # rs), w2)))"

definition RunSuite ::
  "(string \<Rightarrow> 'w \<Rightarrow> (go_error + TestCase list) \<times> 'w) \<Rightarrow> 'w Engine \<Rightarrow> Ctx \<Rightarrow> string \<Rightarrow> 'w
    \<Rightarrow> ((gopanic + (go_error + Result list)) \<times> 'w) option" where
  "RunSuite load e ctx filePath w = (case load filePath w of
     (Inl err, w1) \<Rightarrow> Some (Inr (Inl err), w1)
   | (Inr suite, w1) \<Rightarrow> (case run_cases e ctx suite w1 of
       None \<Rightarrow> None
     | Some (Inl p, w2) \<Rightarrow> Some (Inl p, w2)
     | Some (Inr rs, w2) \<Rightarrow> Some (Inr (Inr rs), w2)))"

section \<open>The verdict\<close>

lemma judge_name [simp]: "rs_Name (judge st err a r) = rs_Name r"
  by (simp add: judge_def)

lemma fold_judge_name [simp]: "rs_Name (fold (judge st err) as r) = rs_Name r"
  by (induction "as" arbitrary: r) simp_all

lemma fold_judge:
  "rs_Passed (fold (judge st err) as r) \<longleftrightarrow>
     (rs_Passed r \<and> list_all (checkAssertion st err) as)
     \<or> (err \<noteq> None \<and> (\<exists>pre a post. as = pre @ a # post \<and> expects_failure a \<and> list_all (checkAssertion st err) (a # post)))"
proof (induction "as" rule: rev_induct)
  case (snoc a "as")
  have ex: "(\<exists>pre x post. as @ [a] = pre @ x # post \<and> expects_failure x \<and> list_all (checkAssertion st err) (x # post))
    \<longleftrightarrow> (expects_failure a \<and> checkAssertion st err a)
      \<or> (checkAssertion st err a \<and> (\<exists>pre x post. as = pre @ x # post \<and> expects_failure x \<and> list_all (checkAssertion st err) (x # post)))"
    (is "?L \<longleftrightarrow> ?A \<or> ?B")
  proof
    assume ?L
    then obtain pre x post where e: "as @ [a] = pre @ x # post" "expects_failure x" "list_all (checkAssertion st err) (x # post)" by blast
    show "?A \<or> ?B"
    proof (cases post rule: rev_cases)
      case (snoc p y)
      with e show ?thesis by auto
    qed (use e in auto)
  next
    assume "?A \<or> ?B"
    then show ?L
    proof
      assume ?A
      then show ?L by (intro exI [of _ "as"] exI [of _ a] exI [of _ "[]"]) auto
    next
      assume ?B
      then obtain pre x post where "as = pre @ x # post" "expects_failure x" "list_all (checkAssertion st err) (x # post)"
        "checkAssertion st err a" by blast
      then show ?L by (intro exI [of _ pre] exI [of _ x] exI [of _ "post @ [a]"]) auto
    qed
  qed
  show ?case using snoc unfolding ex by (auto simp: judge_def)
qed simp

text \<open>
  C35: what a passed test case means. A run without an error passes when all its assertions hold.
  A run with an error passes when an assertion that expects the status \<open>Failed\<close> holds and so does
  every assertion behind it: failures of the assertions before it are forgotten. The harness
  returns whenever the engine does, and its verdict carries the name of the case.
\<close>

theorem eval_verdict_exact:
  assumes "Start e (case_ctx ctx tc) (''eval-'' @ ts_Name tc) (Some (case_state tc)) w = Some (Returned final err w1)"
  shows "\<exists>res. RunTestCase e ctx tc w = Some (Inr res, w1) \<and> rs_Name res = ts_Name tc
    \<and> (rs_Passed res \<longleftrightarrow> (case err of
         None \<Rightarrow> \<forall>a \<in> set (ts_Expected tc). checkAssertion final err a
       | Some er \<Rightarrow> \<exists>pre a post. ts_Expected tc = pre @ a # post \<and> as_Type a = ''status_is'' \<and> as_Value a = ''Failed''
           \<and> (\<forall>b \<in> set (a # post). checkAssertion final err b)))"
  using assms by (cases err) (auto simp: RunTestCase_def verdict_def fold_judge expects_failure_def list_all_iff)

text \<open>An engine without a step budget fails every case; a test that expects that passes.\<close>

definition failing_case :: TestCase where
  "failing_case = \<lparr>ts_Name = ''c'', ts_Description = [], ts_Input = ''hi'',
     ts_Expected = [\<lparr>as_Type = ''contains'', as_Key = [], as_Value = ''never said'', as_Threshold = 0\<rparr>,
       \<lparr>as_Type = ''status_is'', as_Key = [], as_Value = ''Failed'', as_Threshold = 0\<rparr>], ts_Variables = []\<rparr>"

theorem eval_verdict_exact_witness:
  "\<exists>res w1. RunTestCase (sample_engine\<lparr>e_maxSteps := 0\<rparr>) Background failing_case new_mem_world = Some (Inr res, w1)
    \<and> rs_Passed res"
proof -
  let ?e = "sample_engine\<lparr>e_maxSteps := 0\<rparr>"
  obtain s w1 where st: "Start ?e (case_ctx Background failing_case) (''eval-'' @ ts_Name failing_case) (Some (case_state failing_case)) new_mem_world
      = Some (Returned (Some s) (Some (Sentinel ErrMaxStepsExceeded)) w1)" "Status s = StatusFailed"
    by (auto simp: Start_def runLoop_def loop.simps run_step_def finish_def case_state_def failing_case_def Let_def case_prod_beta
        WithStatus_def WithMessage_def clone_def NewState_def)
  have "\<forall>b \<in> set [\<lparr>as_Type = ''status_is'', as_Key = [], as_Value = ''Failed'', as_Threshold = 0\<rparr>].
      checkAssertion (Some s) (Some (Sentinel ErrMaxStepsExceeded)) b"
    using st(2) by (simp add: checkAssertion_def)
  with eval_verdict_exact [OF st(1)] show ?thesis
    by (auto simp: failing_case_def intro!: exI [of _ "[\<lparr>as_Type = ''contains'', as_Key = [], as_Value = ''never said'', as_Threshold = 0\<rparr>]"])
qed

end
