(* ===== verification/Mock_Model.thy ===== *)
theory Mock_Model
  imports Providers_Model
begin

text \<open>
  Package \<open>mock\<close>: the LLM provider that replays recorded responses, the mock tool and the mock
  registry. The provider's fields are part of the world; \<open>poll\<close> polls the context, as the
  \<open>select\<close> of each send does.
\<close>

section \<open>The provider (mock/llm.go)\<close>

record MockLLM =
  ml_Responses :: "LLMResponse list"
  ml_Fallback :: "LLMResponse option"
  ml_currentIndex :: nat
  ml_CallsHistory :: "AgentState list"

definition NewMockLLM :: "LLMResponse list \<Rightarrow> LLMResponse option \<Rightarrow> MockLLM" where
  "NewMockLLM responses fallback = \<lparr>ml_Responses = responses, ml_Fallback = fallback, ml_currentIndex = 0, ml_CallsHistory = []\<rparr>"

definition Mock_ModelInfo :: ModelInfo where
  "Mock_ModelInfo = \<lparr>mi_Name = ''mock-llm'', mi_MaxTokens = 4096, mi_MaxOutputTokens = 1024, mi_SupportsTools = True\<rparr>"

text \<open>The response that is next, with the index moved on.\<close>

definition next_response :: "('x) MockLLM_scheme \<Rightarrow> LLMResponse option \<times> ('x) MockLLM_scheme" where
  "next_response m =
     (if ml_currentIndex m < length (ml_Responses m)
      then (Some (ml_Responses m ! ml_currentIndex m), m\<lparr>ml_currentIndex := ml_currentIndex m + 1\<rparr>)
      else (ml_Fallback m, m))"

definition Mock_Generate ::
  "Ctx \<Rightarrow> AgentState \<Rightarrow> ('x) MockLLM_scheme \<Rightarrow> LLMResponse result \<times> ('x) MockLLM_scheme" where
  "Mock_Generate ctx state m =
     (case next_response (m\<lparr>ml_CallsHistory := ml_CallsHistory m @ [state]\<rparr>) of
        (Some r, m1) \<Rightarrow> (Inr (Inr r), m1)
      | (None, m1) \<Rightarrow> (Inr (Inl (Sentinel ErrNoMoreMockResponses)), m1))"

text \<open>What the goroutine sends for a part; \<open>None\<close>: the tool call of the part is nil.\<close>

definition part_sends :: "Part \<Rightarrow> TokenDelta option list" where
  "part_sends p =
     (if p_Type p = PartTypeText then map (\<lambda>ch. Some \<lparr>td_Type = DeltaTypeText, td_Content = ch\<rparr>) (utf8_runes (p_Text p))
      else if p_Type p = PartTypeToolCall then
        [map_option (\<lambda>tc. \<lparr>td_Type = DeltaTypeToolCall, td_Content = tc_ToolName tc\<rparr>) (p_ToolCall p)]
      else [])"

fun send_deltas ::
  "(Ctx \<Rightarrow> 'w \<Rightarrow> go_error option \<times> 'w) \<Rightarrow> Ctx \<Rightarrow> TokenDelta option list \<Rightarrow> 'w \<Rightarrow> (gopanic + StreamOut) \<times> 'w" where
  "send_deltas poll ctx [] w = (Inr \<lparr>so_Deltas = [done_delta], so_Errs = []\<rparr>, w)"
| "send_deltas poll ctx (None # ds) w = (Inl NilDereference, w)"
| "send_deltas poll ctx (Some d # ds) w = (case poll ctx w of
     (Some e, w1) \<Rightarrow> (Inr \<lparr>so_Deltas = [], so_Errs = [e]\<rparr>, w1)
   | (None, w1) \<Rightarrow> (case send_deltas poll ctx ds w1 of
       (Inl p, w2) \<Rightarrow> (Inl p, w2)
     | (Inr out, w2) \<Rightarrow> (Inr (out\<lparr>so_Deltas := d # so_Deltas out\<rparr>), w2)))"

definition Mock_GenerateStream ::
  "(Ctx \<Rightarrow> ('x) MockLLM_scheme \<Rightarrow> go_error option \<times> ('x) MockLLM_scheme) \<Rightarrow> Ctx \<Rightarrow> AgentState
    \<Rightarrow> ('x) MockLLM_scheme \<Rightarrow> StreamOut result \<times> ('x) MockLLM_scheme" where
  "Mock_GenerateStream poll ctx state m =
     (case next_response (m\<lparr>ml_CallsHistory := ml_CallsHistory m @ [state]\<rparr>) of
        (None, m1) \<Rightarrow> (Inr (Inr \<lparr>so_Deltas = [], so_Errs = [Sentinel ErrNoMoreMockResponses]\<rparr>), m1)
      | (Some r, m1) \<Rightarrow> (case send_deltas poll ctx (concat (map part_sends (m_Parts (lr_Message r)))) m1 of
          (Inl p, m2) \<Rightarrow> (Inl p, m2)
        | (Inr out, m2) \<Rightarrow> (Inr (Inr out), m2)))"

definition MockLLM_ops ::
  "(Ctx \<Rightarrow> ('x) MockLLM_scheme \<Rightarrow> go_error option \<times> ('x) MockLLM_scheme) \<Rightarrow> ('x) MockLLM_scheme LLMProvider" where
  "MockLLM_ops poll = \<lparr>lp_ModelInfo = Mock_ModelInfo, lp_Generate = Mock_Generate,
     lp_GenerateStream = Mock_GenerateStream poll\<rparr>"

section \<open>The mock tool and the mock registry (mock/tool.go)\<close>

record MockTool =
  mt_ToolName :: string
  mt_Desc :: string
  mt_BehaviorFunc :: "(gvars \<Rightarrow> go_error + string) option"
  mt_FixedResult :: string
  mt_ReqPermissions :: "string list"
  mt_ExecuteHistory :: "gvars list"

definition MockTool_Execute :: "MockTool \<Rightarrow> gvars \<Rightarrow> (go_error + string) \<times> MockTool" where
  "MockTool_Execute t args =
     (case mt_BehaviorFunc t of Some f \<Rightarrow> f args | None \<Rightarrow> Inr (mt_FixedResult t),
      t\<lparr>mt_ExecuteHistory := mt_ExecuteHistory t @ [args]\<rparr>)"

definition MockRegistry_Register :: "(string, 'w Tool) gomap \<Rightarrow> 'w Tool \<Rightarrow> (string, 'w Tool) gomap" where
  "MockRegistry_Register r tool = gset (tool_Name tool) tool r"

definition MockRegistry_GetTool :: "(string, 'w Tool) gomap \<Rightarrow> string \<Rightarrow> 'w Tool option" where
  "MockRegistry_GetTool r name = glookup r name"

definition MockRegistry_ListTools :: "(string, 'w Tool) gomap \<Rightarrow> 'w Tool list" where
  "MockRegistry_ListTools r = map snd r"

fun MockRegistry_ExecuteConcurrent ::
  "(string, 'w Tool) gomap \<Rightarrow> Ctx \<Rightarrow> ToolCallPart list \<Rightarrow> 'w \<Rightarrow> ToolResultPart list \<times> 'w" where
  "MockRegistry_ExecuteConcurrent r ctx [] w = ([], w)"
| "MockRegistry_ExecuteConcurrent r ctx (tc # calls) w =
     (case (case glookup r (tc_ToolName tc) of
              None \<Rightarrow> (\<lparr>tr_CallID = tc_CallID tc, tr_Result = ''tool not found'', tr_IsError = True\<rparr>, w)
            | Some tool \<Rightarrow> (case tool_Execute tool ctx (case tc_Arguments tc of None \<Rightarrow> [] | Some m \<Rightarrow> m) w of
                (Inl err, w1) \<Rightarrow> (\<lparr>tr_CallID = tc_CallID tc, tr_Result = Error err, tr_IsError = True\<rparr>, w1)
              | (Inr res, w1) \<Rightarrow> (\<lparr>tr_CallID = tc_CallID tc, tr_Result = res, tr_IsError = False\<rparr>, w1))) of
        (res, w1) \<Rightarrow> (case MockRegistry_ExecuteConcurrent r ctx calls w1 of (rs, w2) \<Rightarrow> (res # rs, w2)))"

definition MockRegistry_AuthorizeCall :: "(string, 'w Tool) gomap \<Rightarrow> Ctx \<Rightarrow> string \<Rightarrow> go_error option" where
  "MockRegistry_AuthorizeCall r ctx name = None"

section \<open>Lemmas\<close>

fun generate_all :: "(Ctx \<times> AgentState) list \<Rightarrow> ('x) MockLLM_scheme \<Rightarrow> LLMResponse result list \<times> ('x) MockLLM_scheme" where
  "generate_all [] m = ([], m)"
| "generate_all ((ctx, s) # cs) m = (case Mock_Generate ctx s m of (r, m1) \<Rightarrow>
     (case generate_all cs m1 of (rs, m2) \<Rightarrow> (r # rs, m2)))"

lemma send_deltas_all:
  assumes "\<forall>v. poll ctx v = (None, v)"
  shows "send_deltas poll ctx (map Some ds) w = (Inr \<lparr>so_Deltas = ds @ [done_delta], so_Errs = []\<rparr>, w)"
  using assms by (induction ds arbitrary: w) simp_all

lemma send_deltas_ok:
  assumes "\<forall>d. Some d \<in> set ds \<longrightarrow> td_Type d \<noteq> DeltaTypeDone" and "send_deltas poll ctx ds w = (Inr out, w')"
  shows "stream_ok out"
  using assms
proof (induction ds arbitrary: w out w')
  case Nil
  then show ?case by (auto simp: stream_ok_def intro: exI [of _ "[]"])
next
  case (Cons d ds)
  show ?case
  proof (cases "\<exists>x o' v v'. d = Some x \<and> send_deltas poll ctx ds v = (Inr o', v') \<and> out = o'\<lparr>so_Deltas := [x] @ so_Deltas o'\<rparr>")
    case True
    then obtain x o' v v' where x: "d = Some x" "send_deltas poll ctx ds v = (Inr o', v')" "out = o'\<lparr>so_Deltas := [x] @ so_Deltas o'\<rparr>"
      by blast
    with Cons.prems(1) have "stream_ok o'" by (intro Cons.IH [OF _ x(2)]) simp
    moreover have "\<forall>y \<in> set [x]. td_Type y \<noteq> DeltaTypeDone" using Cons.prems(1) x(1) by simp
    ultimately show ?thesis unfolding x(3) by (rule stream_ok_prepend)
  next
    case False
    with Cons.prems(2) show ?thesis
      by (cases d) (fastforce simp: stream_ok_def split: prod.splits option.splits sum.splits)+
  qed
qed

lemma part_sends_not_done: "Some d \<in> set (concat (map part_sends ps)) \<Longrightarrow> td_Type d \<noteq> DeltaTypeDone"
  by (auto simp: part_sends_def split: if_splits dest!: sym [of "Some d"])

text \<open>A mock with a fallback keeps the contract of a provider; one that can run dry does not.\<close>

lemma mock_stream_ok:
  "Mock_GenerateStream poll ctx s m = (Inr (Inr out), m') \<Longrightarrow> stream_ok out"
  by (auto simp: Mock_GenerateStream_def stream_ok_def split: prod.splits option.splits sum.splits
      dest: send_deltas_ok [rotated] part_sends_not_done)

lemma generate_all_spec:
  "fst (generate_all cs m) = map Inr (take (length cs) (map Inr (drop (ml_currentIndex m) (ml_Responses m)) @ replicate (length cs)
       (case ml_Fallback m of Some r \<Rightarrow> Inr r | None \<Rightarrow> Inl (Sentinel ErrNoMoreMockResponses))))
   \<and> ml_CallsHistory (snd (generate_all cs m)) = ml_CallsHistory m @ map snd cs"
proof (induction cs arbitrary: m)
  case (Cons c cs)
  obtain ctx s where c: "c = (ctx, s)" by (cases c)
  let ?m = "m\<lparr>ml_CallsHistory := ml_CallsHistory m @ [s]\<rparr>"
  show ?case
  proof (cases "ml_currentIndex m < length (ml_Responses m)")
    case True
    with Cons.IH [of "?m\<lparr>ml_currentIndex := ml_currentIndex m + 1\<rparr>"] Cons_nth_drop_Suc [OF True, symmetric]
    show ?thesis by (simp add: c Mock_Generate_def next_response_def case_prod_beta min_def del: replicate_Suc)
  next
    case False
    with Cons.IH [of ?m] show ?thesis
      by (simp add: c Mock_Generate_def next_response_def case_prod_beta split: option.split)
  qed
qed simp

lemma text_parts_sends:
  assumes "\<forall>p \<in> set ps. p_Type p = PartTypeText \<and> valid_utf8 (p_Text p)"
  shows "\<exists>ds. concat (map part_sends ps) = map Some ds \<and> (\<forall>d \<in> set ds. td_Type d = DeltaTypeText)
    \<and> concat (map td_Content ds) = concat (map p_Text ps)"
  using assms
proof (induction ps)
  case (Cons p ps)
  then obtain ds where ds: "concat (map part_sends ps) = map Some ds" "\<forall>d \<in> set ds. td_Type d = DeltaTypeText"
    "concat (map td_Content ds) = concat (map p_Text ps)" by auto
  let ?d = "map (\<lambda>ch. \<lparr>td_Type = DeltaTypeText, td_Content = ch\<rparr>) (utf8_runes (p_Text p))"
  have "part_sends p = map Some ?d" "concat (map td_Content ?d) = p_Text p"
    using Cons.prems by (auto simp: part_sends_def valid_utf8_def comp_def)
  with ds show ?case by (intro exI [of _ "?d @ ds"]) auto
qed simp

section \<open>Properties\<close>

text \<open>
  The mock provider replays its recording. The calls to \<open>Generate\<close> return the recorded
  responses in order, and after the last one the fallback, or an error if there is none; every call is recorded.
  Streaming a recorded message of valid UTF-8 text parts, under a context that is not done, sends
  the text rune by rune: the contents concatenate to the text of the message, and \<open>Done\<close> follows.
\<close>

theorem mock_replays:
  assumes "\<forall>p \<in> set (m_Parts (lr_Message r)). p_Type p = PartTypeText \<and> valid_utf8 (p_Text p)"
    and "\<forall>v. poll ctx v = (None, v)"
  shows "fst (generate_all cs (NewMockLLM rs fb)) = map Inr (take (length cs) (map Inr rs @ replicate (length cs)
       (case fb of Some r \<Rightarrow> Inr r | None \<Rightarrow> Inl (Sentinel ErrNoMoreMockResponses))))
    \<and> ml_CallsHistory (snd (generate_all cs (NewMockLLM rs fb))) = map snd cs
    \<and> (\<exists>ds m'. Mock_GenerateStream poll ctx s (NewMockLLM (r # rs) fb) = (Inr (Inr \<lparr>so_Deltas = ds @ [done_delta], so_Errs = []\<rparr>), m')
        \<and> (\<forall>d \<in> set ds. td_Type d = DeltaTypeText) \<and> concat (map td_Content ds) = concat (map p_Text (m_Parts (lr_Message r))))"
proof -
  from text_parts_sends [OF assms(1)] obtain ds where ds: "concat (map part_sends (m_Parts (lr_Message r))) = map Some ds"
    "\<forall>d \<in> set ds. td_Type d = DeltaTypeText" "concat (map td_Content ds) = concat (map p_Text (m_Parts (lr_Message r)))" by blast
  then have "\<exists>m'. Mock_GenerateStream poll ctx s (NewMockLLM (r # rs) fb) = (Inr (Inr \<lparr>so_Deltas = ds @ [done_delta], so_Errs = []\<rparr>), m')"
    using send_deltas_all [of poll ctx, OF assms(2)] by (simp add: Mock_GenerateStream_def NewMockLLM_def next_response_def)
  moreover have "fst (generate_all cs (NewMockLLM rs fb)) = map Inr (take (length cs) (map Inr rs @ replicate (length cs)
       (case fb of Some r \<Rightarrow> Inr r | None \<Rightarrow> Inl (Sentinel ErrNoMoreMockResponses))))
    \<and> ml_CallsHistory (snd (generate_all cs (NewMockLLM rs fb))) = map snd cs"
    using generate_all_spec [of cs "NewMockLLM rs fb"] by (simp add: NewMockLLM_def)
  ultimately show ?thesis using ds(2,3) by blast
qed

definition hello_response :: LLMResponse where
  "hello_response = \<lparr>lr_Message = zero_Message\<lparr>m_Role := RoleAssistant, m_Parts := [text_part ''hi'']\<rparr>,
     lr_TokenUsage = \<lparr>InputTokens = 1, OutputTokens = 1, TotalTokens = 2\<rparr>, lr_FinishReason = FinishReasonStop\<rparr>"

theorem mock_replays_witness:
  "\<exists>ds m'. Mock_GenerateStream (\<lambda>ctx v. (None, v)) Background NewState (NewMockLLM [hello_response] None)
      = (Inr (Inr \<lparr>so_Deltas = ds @ [done_delta], so_Errs = []\<rparr>), m') \<and> concat (map td_Content ds) = ''hi''"
proof -
  have u: "valid_utf8 ''hi''" by code_simp
  with mock_replays [of hello_response "\<lambda>ctx v. (None, v)" Background "[]" "[]" None NewState] show ?thesis
    by (auto simp: hello_response_def text_part_def)
qed

end
