(* ===== verification/Engine_Runs.thy ===== *)
theory Engine_Runs
  imports Engine_Props
begin

text \<open>
  Lemmas for runs of concrete agents: what one pass of the engine's loop does on a node that
  returns a result or an error that is not retried, for an engine whose hooks leave the state of
  the node alone before the node and on an error. The programs that are built on the engine use
  them.
\<close>

section \<open>States and messages\<close>

definition text_message :: "Role \<Rightarrow> string \<Rightarrow> time \<Rightarrow> Message" where
  "text_message role t now = zero_Message\<lparr>m_Role := role, m_Parts := [text_part t], m_Timestamp := now\<rparr>"

text \<open>A node that writes nothing to its input and returns a state.\<close>

definition returned :: "AgentState \<Rightarrow> state_ref \<Rightarrow> AgentState \<times> (go_error + NodeResult option)" where
  "returned s r = (s, Inr (Some \<lparr>nr_State = r, nr_NextNodes = [], nr_Interrupt = None\<rparr>))"

abbreviation new_state :: "AgentState \<Rightarrow> AgentState \<Rightarrow> AgentState \<times> (go_error + NodeResult option)" where
  "new_state s t \<equiv> returned s (RNew t)"

lemma vars_json_ok_vars: "vars_json_ok (Some (vars s)) = vars_json_ok (Variables s)"
  by (cases "Variables s") (simp_all add: vars_json_ok_def vars_def)

lemma WithMessage_eq: "state_ok s \<Longrightarrow> WithMessage s m = s\<lparr>Variables := Some (vars s), Messages := Messages s @ [m]\<rparr>"
  by (simp add: WithMessage_def Let_def clone_eq)

lemma WithVariable_eq: "state_ok s \<Longrightarrow> WithVariable s k v = s\<lparr>Variables := Some (gset k v (vars s))\<rparr>"
  by (simp add: WithVariable_def Let_def clone_eq vars_def)

lemma vars_update_some [simp]: "vars (s\<lparr>Variables := Some m\<rparr>) = m" "vars (s\<lparr>Variables := Some m, Messages := ms\<rparr>) = m"
  by (simp_all add: vars_def)

lemma vars_json_ok_gset: "vars_json_ok (Some m) \<Longrightarrow> json_ok v \<Longrightarrow> vars_json_ok (Some (gset k v m))"
  by (induction m) (auto simp: vars_json_ok_def split: if_splits)

lemma text_message_json [simp]: "message_json_ok (text_message r t now)"
  by (simp add: message_json_ok_def text_message_def part_json_ok_def text_part_def vars_json_ok_def zero_Message_def zero_Part_def)

lemma text_message_simps [simp]:
  "m_Role (text_message r t now) = r" "m_Parts (text_message r t now) = [text_part t]"
  by (simp_all add: text_message_def)

lemma WithMessage_last [simp]: "LastMessage (WithMessage s m) = m" "Messages (WithMessage s m) = Messages s @ [m]"
  by (simp_all add: LastMessage_def)

lemma move_last [simp]: "LastMessage (s\<lparr>StepCount := k, LastNodeID := n\<rparr>) = LastMessage s" "LastMessage (s\<lparr>LastNodeID := n\<rparr>) = LastMessage s"
  "LastMessage (s\<lparr>StepCount := k\<rparr>) = LastMessage s"
  by (simp_all add: LastMessage_def)

section \<open>One pass\<close>

abbreviation before_node :: "AgentState \<Rightarrow> HookMeta" where
  "before_node s \<equiv> \<lparr>hm_Point = HookBeforeNode, hm_NodeID = LastNodeID s, hm_StepCount = StepCount s, hm_Elapsed = 0, hm_Err = None\<rparr>"

text \<open>An engine with the default retries, at a state that it processes.\<close>

definition at_node :: "'w Engine \<Rightarrow> 'w Graph \<Rightarrow> AgentState \<Rightarrow> 'w Node \<Rightarrow> bool" where
  "at_node e g s node \<longleftrightarrow> e_graph e = Some g \<and> e_retry e = DefaultRetryPolicy
     \<and> Status s = StatusRunning \<and> StepCount s < e_maxSteps e \<and> Graph_Node g (LastNodeID s) = Some node
     \<and> (\<forall>v. \<exists>v'. fireHooks_at e s (before_node s) v = (s, v'))"

lemma process_returns:
  assumes "e_retry e = DefaultRetryPolicy" and "n_Process node ctx s w = (returned s r, w')"
  shows "processNodeWithRetry e ctx node s w = (None, s, Some \<lparr>nr_State = r, nr_NextNodes = [], nr_Interrupt = None\<rparr>, w')"
  unfolding processNodeWithRetry_def Execute_def
  by (rule Execute_loop_ok) (simp_all add: assms DefaultRetryPolicy_def process_call_def returned_def)

lemma process_fails:
  assumes "e_retry e = DefaultRetryPolicy" and "n_Process node ctx s w = ((s, Inl err), w')" and "\<not> is_retriable err"
  shows "processNodeWithRetry e ctx node s w = (Some err, s, None, w')"
  unfolding processNodeWithRetry_def Execute_def
  by (rule Execute_loop_fatal) (simp_all add: assms DefaultRetryPolicy_def process_call_def)

text \<open>
  The pass over a node that returns: \<open>R\<close> is what the hooks make of its state. With a task store
  the node must not drop artifacts.
\<close>

lemma pass_returns:
  assumes n: "at_node e g s node"
    and p: "\<And>v. \<exists>r v'. n_Process node ctx s v = (returned s r, v') \<and> Q r"
    and h: "\<And>r meta v. Q r \<Longrightarrow> hm_Point meta = HookAfterNode \<Longrightarrow>
      \<exists>t v'. r \<noteq> RNil \<and> fireHooks e (Some (case r of RNew t \<Rightarrow> t | _ \<Rightarrow> s\<lparr>StepCount := StepCount s + 1\<rparr>)) meta v = (Some t, v')
        \<and> (r = RSame \<longrightarrow> StepCount t = StepCount s + 1) \<and> (e_taskStore e = None \<or> length (Artifacts s) \<le> length (Artifacts t)) \<and> R t"
  shows "\<exists>t w'. R t \<and> run_step e ctx sid s w
    = advance e g ctx sid (LastNodeID s) [] (t\<lparr>StepCount := StepCount s + 1, LastNodeID := LastNodeID s\<rparr>) w'"
proof -
  obtain w1 where w1: "fireHooks_at e s (before_node s) w = (s, w1)" using n by (auto simp: at_node_def)
  obtain t0 w2 where t0: "rt_Now (e_rt e) w1 = (t0, w2)" by fastforce
  obtain r w3 where r: "n_Process node ctx s w2 = (returned s r, w3)" "Q r" using p by blast
  have pr: "processNodeWithRetry e ctx node s w2 = (None, s, Some \<lparr>nr_State = r, nr_NextNodes = [], nr_Interrupt = None\<rparr>, w3)"
    using n r(1) by (simp add: process_returns at_node_def)
  obtain t1 w4 where t1: "rt_Now (e_rt e) w3 = (t1, w4)" by fastforce
  let ?s = "s\<lparr>StepCount := StepCount s + 1\<rparr>" and ?m = "\<lparr>hm_Point = HookAfterNode, hm_NodeID = LastNodeID s, hm_StepCount = StepCount s + 1,
    hm_Elapsed = t1 - t0, hm_Err = None\<rparr>"
  obtain t w5 where t: "r \<noteq> RNil" "fireHooks e (Some (case r of RNew t \<Rightarrow> t | _ \<Rightarrow> ?s)) ?m w4 = (Some t, w5)"
    "r = RSame \<longrightarrow> StepCount t = StepCount s + 1" "e_taskStore e = None \<or> length (Artifacts s) \<le> length (Artifacts t)" "R t"
    using h [OF r(2), of ?m w4, simplified] by blast
  let ?t = "t\<lparr>StepCount := StepCount s + 1, LastNodeID := LastNodeID s\<rparr>"
  let ?old = "length (Artifacts (if r = RSame then t else s))"
  have "\<exists>w6. sync_task e ctx (LastNodeID s) ?old ?t w5 = (None, w6)"
    using t(4) by (auto simp: sync_task_def split: option.split)
  then obtain w6 where y: "sync_task e ctx (LastNodeID s) ?old ?t w5 = (None, w6)" by blast
  have "run_step e ctx sid s w = advance e g ctx sid (LastNodeID s) [] ?t w6"
    using n t(1-3) w1 t0 pr t1 y
    by (cases r) (simp_all add: at_node_def run_step_def process_step_def node_succeeded_def Let_def)
  with t(5) show ?thesis by blast
qed

lemma pass_fails:
  assumes n: "at_node e g s node" and p: "\<And>v. \<exists>v'. n_Process node ctx s v = ((s, Inl err), v')" and "\<not> is_retriable err"
  shows "\<exists>el w'. run_step e ctx sid s w = node_failed e ctx sid (LastNodeID s) el err (s\<lparr>StepCount := StepCount s + 1\<rparr>) w'"
proof -
  obtain w1 where w1: "fireHooks_at e s (before_node s) w = (s, w1)" using n by (auto simp: at_node_def)
  obtain t0 w2 where t0: "rt_Now (e_rt e) w1 = (t0, w2)" by fastforce
  obtain w3 where r: "n_Process node ctx s w2 = ((s, Inl err), w3)" using p by blast
  have pr: "processNodeWithRetry e ctx node s w2 = (Some err, s, None, w3)"
    using n r(1) assms(3) by (simp add: process_fails at_node_def)
  obtain t1 w4 where t1: "rt_Now (e_rt e) w3 = (t1, w4)" by fastforce
  have "run_step e ctx sid s w = node_failed e ctx sid (LastNodeID s) (t1 - t0) err (s\<lparr>StepCount := StepCount s + 1\<rparr>) w4"
    using n w1 t0 pr t1 by (simp add: at_node_def run_step_def process_step_def Let_def)
  then show ?thesis by blast
qed

lemma loop_Done: "run_step e ctx sid s w = Done t err w' \<Longrightarrow> loop e ctx sid s w = Some (Returned (Some t) err w')"
  by (simp add: loop.simps)

end
