(* ===== verification/Demo_Model.thy ===== *)
theory Demo_Model
  imports Engine_Runs Tools_Model
begin

text \<open>
  The program \<open>examples/visual-demo\<close>: a support agent whose graph has every kind of node, run on
  the in-process store, with a hub that carries the events of a run to the browser. Strings are
  their UTF-8 bytes. The bytes of a JSON text are the parameter \<open>args_text\<close>; decoding a request
  body is the caller's; static files and the listening socket are left out.
\<close>

section \<open>Strings\<close>

text \<open>
  The runes of a string as the bytes they stand for; a byte that starts no encoding stands alone.
  \<open>strings.Fields\<close> cuts at the runes of Unicode white space.
\<close>

function utf8_spans :: "string \<Rightarrow> string list" where
  "utf8_spans [] = []"
| "utf8_spans (b # s) = take (max 1 (rune_width (b # s))) (b # s) # utf8_spans (drop (rune_width (b # s) - 1) s)"
  by pat_completeness auto
termination by (relation "measure length") auto

definition white_runes :: "string list" where
  "white_runes = [[CHR 0x09], [CHR 0x0A], [CHR 0x0B], [CHR 0x0C], [CHR 0x0D], '' '', [CHR 0xC2, CHR 0x85],
     [CHR 0xC2, CHR 0xA0], [CHR 0xE1, CHR 0x9A, CHR 0x80], [CHR 0xE2, CHR 0x80, CHR 0xA8], [CHR 0xE2, CHR 0x80, CHR 0xA9],
     [CHR 0xE2, CHR 0x80, CHR 0xAF], [CHR 0xE2, CHR 0x81, CHR 0x9F], [CHR 0xE3, CHR 0x80, CHR 0x80]]
     @ map (\<lambda>n. [CHR 0xE2, CHR 0x80, char_of (n :: nat)]) [128..<139]"

fun fields_from :: "string list \<Rightarrow> string \<Rightarrow> string list" where
  "fields_from [] cur = (if cur = [] then [] else [cur])"
| "fields_from (r # rs) cur =
     (if r \<in> set white_runes then (if cur = [] then fields_from rs [] else cur # fields_from rs [])
      else fields_from rs (cur @ r))"

definition Fields :: "string \<Rightarrow> string list" where
  "Fields s = fields_from (utf8_spans s) []"

section \<open>Nodes\<close>

record demo_event =
  de_Type :: string
  de_NodeID :: string
  de_Step :: int
  de_Elapsed :: string
  de_Snapshot :: "((string \<times> string \<times> string) list \<times> gvars \<times> string) option"
  de_Error :: string

text \<open>The world: the store, the clock and the channels of the hub with what they buffer.\<close>

record demo_world = "unit mem_world" +
  dw_chs :: "(string, demo_event list) gomap"

definition demo_sleep :: "int \<Rightarrow> demo_world \<Rightarrow> demo_world" where
  "demo_sleep ms w = w\<lparr>mw_clock := mw_clock w + ms * 1000000\<rparr>"

definition userMessageKey :: string where
  "userMessageKey = ''__user_message__''"

definition intake_Process :: "Ctx \<Rightarrow> AgentState \<Rightarrow> demo_world \<Rightarrow> (AgentState \<times> (go_error + NodeResult option)) \<times> demo_world" where
  "intake_Process ctx state w = (let w1 = demo_sleep 150 w in
     (new_state state (WithMessage state (text_message RoleUser (fst (GetStringVariable state userMessageKey)) (mw_clock w1))), w1))"

text \<open>
  The keyword classifier. \<open>ToLower\<close> of the ASCII letters decides the same matches as that of all
  letters: no other letter is mapped to a letter of the keywords.
\<close>

definition demo_intent :: "string \<Rightarrow> string" where
  "demo_intent text = (let msg = ToLower text in
     if Contains msg ([CHR 0xE9, CHR 0x80, CHR 0x80, CHR 0xE6, CHR 0xAC, CHR 0xBE]) \<or> Contains msg ''refund'' then ''refund''
     else if Contains msg ([CHR 0xE8, CHR 0xAE, CHR 0xA2, CHR 0xE5, CHR 0x8D, CHR 0x95]) \<or> Contains msg ''order''
       \<or> Contains msg ([CHR 0xE6, CHR 0x9F, CHR 0xA5]) then ''query''
     else ''escalate'')"

text \<open>A last message without parts is an index out of range; the nil result stands for that panic.\<close>

definition classify_Process :: "Ctx \<Rightarrow> AgentState \<Rightarrow> demo_world \<Rightarrow> (AgentState \<times> (go_error + NodeResult option)) \<times> demo_world" where
  "classify_Process ctx state w = (let w1 = demo_sleep 350 w in
     (case m_Parts (LastMessage state) of
        [] \<Rightarrow> ((state, Inr None), w1)
      | p # _ \<Rightarrow> (let intent = demo_intent (p_Text p) in
          (new_state state (WithMessage (WithVariable state ''intent'' (GString intent))
             (text_message RoleAssistant (''(internal) classified intent '' @ [CHR 0xE2, CHR 0x86, CHR 0x92] @ '' '' @ intent) (mw_clock w1))), w1))))"

definition toolCall_Process ::
  "(nat \<Rightarrow> string) \<Rightarrow> demo_world ConcreteToolRegistry \<Rightarrow> string \<Rightarrow> (AgentState \<Rightarrow> gvars) \<Rightarrow> Ctx \<Rightarrow> AgentState \<Rightarrow> demo_world
    \<Rightarrow> (AgentState \<times> (go_error + NodeResult option)) \<times> demo_world" where
  "toolCall_Process uuid reg toolName argsFn ctx state w =
     (let w1 = demo_sleep 250 w; callID = take 8 (uuid (mw_uuids w1)); w2 = w1\<lparr>mw_uuids := Suc (mw_uuids w1)\<rparr>;
          tc = \<lparr>tc_CallID = callID, tc_ToolName = toolName, tc_Arguments = Some (argsFn state)\<rparr>;
          callMsg = zero_Message\<lparr>m_Role := RoleAssistant, m_Parts := [tool_call_part tc], m_Timestamp := mw_clock w2\<rparr>
      in case ExecuteConcurrent reg ctx [tc] [0] ([zero_result], w2) of (results, w3) \<Rightarrow>
        (let resMsg = zero_Message\<lparr>m_Role := RoleTool,
               m_Parts := [zero_Part\<lparr>p_Type := PartTypeToolResult, p_ToolResult := Some (hd results)\<rparr>], m_Timestamp := mw_clock w3\<rparr>
         in (new_state state (WithMessage (WithMessage state callMsg) resMsg), w3)))"

definition respond_Process ::
  "(AgentState \<Rightarrow> string) \<Rightarrow> Ctx \<Rightarrow> AgentState \<Rightarrow> demo_world \<Rightarrow> (AgentState \<times> (go_error + NodeResult option)) \<times> demo_world" where
  "respond_Process tmpl ctx state w = (let w1 = demo_sleep 200 w in
     (new_state state (WithMessage state (text_message RoleAssistant (tmpl state) (mw_clock w1))), w1))"

definition approval_error :: go_error where
  "approval_error = AgentErr ErrCategoryHumanNeeded ''human_review''
     (Some (ErrorText ''requires supervisor approval before escalating'')) 0"

definition humanReview_Process :: "Ctx \<Rightarrow> AgentState \<Rightarrow> demo_world \<Rightarrow> (AgentState \<times> (go_error + NodeResult option)) \<times> demo_world" where
  "humanReview_Process ctx state w = (let w1 = demo_sleep 200 w in
     if glookup (vars state) ''approved'' = Some (GBool True)
     then (new_state state (WithMessage state (text_message RoleSystem
        (''human approved '' @ [CHR 0xE2, CHR 0x86, CHR 0x92] @ '' unblocking escalation'') (mw_clock w1))), w1)
     else ((state, Inl approval_error), w1))"

section \<open>The hub and the hook\<close>

definition hub_subscribe :: "string \<Rightarrow> demo_world \<Rightarrow> demo_world" where
  "hub_subscribe sessionID w = w\<lparr>dw_chs := gset sessionID [] (dw_chs w)\<rparr>"

definition hub_channel :: "string \<Rightarrow> demo_world \<Rightarrow> demo_event list option" where
  "hub_channel sessionID w = glookup (dw_chs w) sessionID"

text \<open>A full channel drops the event.\<close>

definition hub_publish :: "string \<Rightarrow> demo_event \<Rightarrow> demo_world \<Rightarrow> demo_world" where
  "hub_publish sessionID ev w = (case hub_channel sessionID w of
     None \<Rightarrow> w
   | Some buf \<Rightarrow> if length buf < 32 then w\<lparr>dw_chs := gset sessionID (buf @ [ev]) (dw_chs w)\<rparr> else w)"

definition hub_close :: "string \<Rightarrow> demo_world \<Rightarrow> demo_world" where
  "hub_close sessionID w = (case hub_channel sessionID w of
     None \<Rightarrow> w | Some _ \<Rightarrow> w\<lparr>dw_chs := gdelete sessionID (dw_chs w)\<rparr>)"

text \<open>What the browser sees of a part: role, kind and text; \<open>None\<close>: the part is left out.\<close>

definition part_payload :: "(gvars option \<Rightarrow> string) \<Rightarrow> Role \<Rightarrow> Part \<Rightarrow> (string \<times> string \<times> string) option" where
  "part_payload args_text role p = (case p_Type p of
     PartTypeText \<Rightarrow> Some (role_text role, ''text'', p_Text p)
   | PartTypeToolCall \<Rightarrow> Some (role_text role, ''tool_call'', case p_ToolCall p of None \<Rightarrow> []
       | Some tc \<Rightarrow> [CHR 0xE2, CHR 0x86, CHR 0x92] @ '' '' @ tc_ToolName tc @ ''('' @ args_text (tc_Arguments tc) @ '')'')
   | PartTypeToolResult \<Rightarrow> Some (role_text role, ''tool_result'', case p_ToolResult p of None \<Rightarrow> []
       | Some tr \<Rightarrow> [CHR 0xE2, CHR 0x86, CHR 0x90] @ '' '' @ tr_Result tr)
   | _ \<Rightarrow> None)"

definition snapshotOf ::
  "(gvars option \<Rightarrow> string) \<Rightarrow> AgentState option \<Rightarrow> ((string \<times> string \<times> string) list \<times> gvars \<times> string) option" where
  "snapshotOf args_text state = (case state of
     None \<Rightarrow> None
   | Some s \<Rightarrow> Some (concat (map (\<lambda>m. List.map_filter (part_payload args_text (m_Role m)) (m_Parts m)) (Messages s)),
       filter (\<lambda>x. \<not> HasPrefix (fst x) ''__'') (vars s), status_text (Status s)))"

definition hook_event :: "(gvars option \<Rightarrow> string) \<Rightarrow> AgentState option \<Rightarrow> HookMeta \<Rightarrow> demo_event" where
  "hook_event args_text state meta =
     (let ev = \<lparr>de_Type = [], de_NodeID = hm_NodeID meta, de_Step = hm_StepCount meta, de_Elapsed = [],
        de_Snapshot = snapshotOf args_text state, de_Error = []\<rparr> in
      case hm_Point meta of
        HookBeforeNode \<Rightarrow> ev\<lparr>de_Type := ''node_enter''\<rparr>
      | HookAfterNode \<Rightarrow> ev\<lparr>de_Type := ''node_exit'', de_Elapsed := dur_text (hm_Elapsed meta)\<rparr>
      | HookOnError \<Rightarrow> ev\<lparr>de_Type := ''node_error'', de_Error := (case hm_Err meta of None \<Rightarrow> [] | Some e \<Rightarrow> Error e)\<rparr>
      | _ \<Rightarrow> ev)"

definition vizHook :: "(gvars option \<Rightarrow> string) \<Rightarrow> string \<Rightarrow> demo_world LifecycleHook" where
  "vizHook args_text sessionID state meta w = (None, state, hub_publish sessionID (hook_event args_text state meta) w)"

section \<open>The graph\<close>

text \<open>\<open>strings.NewReplacer\<close>: the three separators become a space.\<close>

function replace_seps :: "string \<Rightarrow> string" where
  "replace_seps [] = []"
| "replace_seps (c # s) =
     (if HasPrefix (c # s) ([CHR 0xEF, CHR 0xBC, CHR 0x8C]) then CHR '' '' # replace_seps (drop 2 s)
      else if c = CHR '','' then CHR '' '' # replace_seps s
      else if HasPrefix (c # s) ([CHR 0xE3, CHR 0x80, CHR 0x82]) then CHR '' '' # replace_seps (drop 2 s)
      else c # replace_seps s)"
  by pat_completeness auto
termination by (relation "measure length") auto

definition extractOrderID :: "AgentState \<Rightarrow> string" where
  "extractOrderID s = (case find (\<lambda>v. HasPrefix v ''#'') (Fields (replace_seps (fst (GetStringVariable s userMessageKey)))) of
     None \<Rightarrow> ''UNKNOWN'' | Some v \<Rightarrow> TrimPrefix v ''#'')"

fun first_tool_result :: "Part list \<Rightarrow> string option" where
  "first_tool_result [] = None"
| "first_tool_result (p # ps) = (case (p_Type p, p_ToolResult p) of
     (PartTypeToolResult, Some tr) \<Rightarrow> Some (tr_Result tr) | _ \<Rightarrow> first_tool_result ps)"

fun newest_result :: "Message list \<Rightarrow> string" where
  "newest_result [] = []"
| "newest_result (m # ms) = (case first_tool_result (m_Parts m) of Some r \<Rightarrow> r | None \<Rightarrow> newest_result ms)"

definition lastToolResult :: "AgentState \<Rightarrow> string" where
  "lastToolResult s = newest_result (rev (Messages s))"

definition refund_args :: "AgentState \<Rightarrow> gvars" where
  "refund_args s = [(''message'', GString (''REFUND_OK | amount=99.00 | order='' @ extractOrderID s))]"

definition query_args :: "AgentState \<Rightarrow> gvars" where
  "query_args s = [(''message'', GString (''ORDER_STATUS | order='' @ extractOrderID s @ '' | status=SHIPPED | tracking=SF1234567''))]"

definition refund_reply :: "AgentState \<Rightarrow> string" where
  "refund_reply s = [CHR 0xE2, CHR 0x9C, CHR 0x85] @ '' '' @ [CHR 0xE5, CHR 0xB7, CHR 0xB2, CHR 0xE4, CHR 0xB8, CHR 0xBA, CHR 0xE6, CHR 0x82,
     CHR 0xA8, CHR 0xE5, CHR 0x8F, CHR 0x91, CHR 0xE8, CHR 0xB5, CHR 0xB7, CHR 0xE9, CHR 0x80, CHR 0x80, CHR 0xE6, CHR 0xAC, CHR 0xBE, CHR 0xEF,
     CHR 0xBC, CHR 0x8C, CHR 0xE6, CHR 0xAC, CHR 0xBE, CHR 0xE9, CHR 0xA1, CHR 0xB9, CHR 0xE5, CHR 0xB0, CHR 0x86, CHR 0xE5, CHR 0x9C,
     CHR 0xA8] @ '' 3'' @ [CHR 0xE2, CHR 0x80, CHR 0x93] @ ''5 '' @ [CHR 0xE4, CHR 0xB8, CHR 0xAA, CHR 0xE5, CHR 0xB7, CHR 0xA5, CHR 0xE4, CHR 0xBD,
     CHR 0x9C, CHR 0xE6, CHR 0x97, CHR 0xA5, CHR 0xE5, CHR 0x86, CHR 0x85, CHR 0xE5, CHR 0x8E, CHR 0x9F, CHR 0xE8, CHR 0xB7, CHR 0xAF, CHR 0xE8,
     CHR 0xBF, CHR 0x94, CHR 0xE5, CHR 0x9B, CHR 0x9E, CHR 0xE3, CHR 0x80, CHR 0x82, CHR 0x0A, CHR 0xE8, CHR 0xAF, CHR 0xA6, CHR 0xE6, CHR 0x83,
     CHR 0x85] @ '': '' @ lastToolResult s"

definition query_reply :: "AgentState \<Rightarrow> string" where
  "query_reply s = [CHR 0xF0, CHR 0x9F, CHR 0x93, CHR 0xA6] @ '' '' @ [CHR 0xE6, CHR 0x82, CHR 0xA8, CHR 0xE7, CHR 0x9A, CHR 0x84, CHR 0xE8,
     CHR 0xAE, CHR 0xA2, CHR 0xE5, CHR 0x8D, CHR 0x95, CHR 0xE7, CHR 0x8A, CHR 0xB6, CHR 0xE6, CHR 0x80, CHR 0x81, CHR 0xE5, CHR 0xA6, CHR 0x82,
     CHR 0xE4, CHR 0xB8, CHR 0x8B, CHR 0xEF, CHR 0xBC, CHR 0x9A, CHR 0x0A] @ lastToolResult s"

definition escalated_reply :: "AgentState \<Rightarrow> string" where
  "escalated_reply s = [CHR 0xF0, CHR 0x9F, CHR 0x91, CHR 0xA8, CHR 0xE2, CHR 0x80, CHR 0x8D, CHR 0xF0, CHR 0x9F, CHR 0x92,
     CHR 0xBC] @ '' '' @ [CHR 0xE5, CHR 0xB7, CHR 0xB2, CHR 0xE4, CHR 0xB8, CHR 0xBA, CHR 0xE6, CHR 0x82, CHR 0xA8, CHR 0xE8, CHR 0xBD, CHR 0xAC,
     CHR 0xE6, CHR 0x8E, CHR 0xA5, CHR 0xE5, CHR 0x88, CHR 0xB0, CHR 0xE4, CHR 0xBA, CHR 0xBA, CHR 0xE5, CHR 0xB7, CHR 0xA5, CHR 0xE5, CHR 0xAE,
     CHR 0xA2, CHR 0xE6, CHR 0x9C, CHR 0x8D, CHR 0xEF, CHR 0xBC, CHR 0x8C, CHR 0xE5, CHR 0xB7, CHR 0xA5, CHR 0xE5, CHR 0x8F,
     CHR 0xB7] @ '' #A042 '' @ [CHR 0xE5, CHR 0xB0, CHR 0x86, CHR 0xE5, CHR 0x9C, CHR 0xA8] @ '' 5 '' @ [CHR 0xE5, CHR 0x88, CHR 0x86, CHR 0xE9,
     CHR 0x92, CHR 0x9F, CHR 0xE5, CHR 0x86, CHR 0x85, CHR 0xE8, CHR 0x81, CHR 0x94, CHR 0xE7, CHR 0xB3, CHR 0xBB, CHR 0xE6, CHR 0x82, CHR 0xA8,
     CHR 0xE3, CHR 0x80, CHR 0x82]"

definition intent_router :: "demo_world RouterFunc" where
  "intent_router ctx s w =
     (Inr (case glookup (vars s) ''intent'' of
        Some (GString i) \<Rightarrow> if i = ''refund'' then ''refund_tool'' else if i = ''query'' then ''query_tool'' else ''human_review''
      | _ \<Rightarrow> ''human_review''), w)"

text \<open>\<open>must\<close> ends the program on an error: \<open>None\<close>.\<close>

fun must_add :: "'w Node list \<Rightarrow> 'w Builder \<Rightarrow> 'w Builder option" where
  "must_add [] b = Some b"
| "must_add (n # ns) b = (case AddNode b n of (None, b1) \<Rightarrow> must_add ns b1 | (Some _, _) \<Rightarrow> None)"

definition demo_nodes :: "(nat \<Rightarrow> string) \<Rightarrow> demo_world ConcreteToolRegistry \<Rightarrow> demo_world Node list" where
  "demo_nodes uuid reg =
     [\<lparr>n_ID = ''intake'', n_Process = intake_Process\<rparr>,
      \<lparr>n_ID = ''classify'', n_Process = classify_Process\<rparr>,
      \<lparr>n_ID = ''refund_tool'', n_Process = toolCall_Process uuid reg ''echo'' refund_args\<rparr>,
      \<lparr>n_ID = ''query_tool'', n_Process = toolCall_Process uuid reg ''echo'' query_args\<rparr>,
      \<lparr>n_ID = ''human_review'', n_Process = humanReview_Process\<rparr>,
      \<lparr>n_ID = ''respond_refund'', n_Process = respond_Process refund_reply\<rparr>,
      \<lparr>n_ID = ''respond_query'', n_Process = respond_Process query_reply\<rparr>,
      \<lparr>n_ID = ''respond_escalated'', n_Process = respond_Process escalated_reply\<rparr>]"

definition buildGraph :: "(nat \<Rightarrow> string) \<Rightarrow> demo_world ConcreteToolRegistry \<Rightarrow> demo_world Graph option" where
  "buildGraph uuid reg = (case must_add (demo_nodes uuid reg) NewBuilder of
     None \<Rightarrow> None
   | Some b \<Rightarrow>
       (let b1 = SetEntry b ''intake'';
            b2 = AddEdge b1 ''intake'' ''classify'';
            b3 = AddConditionalEdge b2 ''classify'' (Some intent_router);
            b4 = AddEdge b3 ''refund_tool'' ''respond_refund'';
            b5 = AddEdge b4 ''query_tool'' ''respond_query'';
            b6 = AddEdge b5 ''human_review'' ''respond_escalated'';
            b7 = SetTerminal b6 [''respond_refund'', ''respond_query'', ''respond_escalated'']
        in case fst (Build b7) of Inl err \<Rightarrow> None | Inr g \<Rightarrow> Some g))"

section \<open>The handlers\<close>

definition node_kinds :: "(string, string) gomap" where
  "node_kinds = [(''intake'', ''entry''), (''classify'', ''llm''), (''refund_tool'', ''tool''), (''query_tool'', ''tool''),
     (''human_review'', ''human''), (''respond_refund'', ''terminal''), (''respond_query'', ''terminal''), (''respond_escalated'', ''terminal'')]"

definition handleGraph :: "'w Graph \<Rightarrow> (string \<times> string \<times> string) list \<times> (string \<times> string \<times> string) list" where
  "handleGraph g = (map (\<lambda>i. (i, i, case glookup node_kinds i of Some k \<Rightarrow> k | None \<Rightarrow> [])) (gkeys (g_Nodes g)),
     map (\<lambda>ed. (ed_FromID ed, ed_ToID ed, [])) (filter (\<lambda>ed. \<not> ed_IsCond ed) (g_Edges g))
     @ [(''classify'', ''refund_tool'', ''intent=refund''), (''classify'', ''query_tool'', ''intent=query''),
        (''classify'', ''human_review'', ''intent=escalate'')])"

definition demo_engine ::
  "(nat \<Rightarrow> string) \<Rightarrow> (gvars option \<Rightarrow> string) \<Rightarrow> demo_world Graph \<Rightarrow> string \<Rightarrow> demo_world Engine" where
  "demo_engine uuid args_text g sessionID = NewEngine mem_runtime (Some g) (InMemoryStore_ops uuid) None
     [WithHooks [vizHook args_text sessionID]]"

definition final_event :: "(gvars option \<Rightarrow> string) \<Rightarrow> string \<Rightarrow> string \<Rightarrow> string \<Rightarrow> AgentState option \<Rightarrow> demo_event" where
  "final_event args_text ty node err final = \<lparr>de_Type = ty, de_NodeID = node, de_Step = 0, de_Elapsed = [],
     de_Snapshot = snapshotOf args_text final, de_Error = err\<rparr>"

text \<open>
  \<open>runEngine\<close>, with the call of the engine as its argument. \<open>None\<close>: the engine does not return;
  an outcome without error and without state is dereferenced.
\<close>

definition runEngine ::
  "(gvars option \<Rightarrow> string) \<Rightarrow> string \<Rightarrow> (Ctx \<Rightarrow> demo_world \<Rightarrow> demo_world outcome option) \<Rightarrow> demo_world
    \<Rightarrow> (gopanic option \<times> demo_world) option" where
  "runEngine args_text sessionID fn w =
     (case fn (Background\<lparr>ctx_deadline := Some (mw_clock w + 30000000000)\<rparr>) w of
        None \<Rightarrow> None
      | Some (Panicked p w1) \<Rightarrow> Some (Some p, w1)
      | Some (Returned final (Some err) w1) \<Rightarrow> Some (None, hub_close sessionID (demo_sleep 100
          (hub_publish sessionID (final_event args_text ''failed'' [] (Error err) final) w1)))
      | Some (Returned None None w1) \<Rightarrow> Some (Some NilDereference, w1)
      | Some (Returned (Some s) None w1) \<Rightarrow>
          if Status s = StatusPaused then
            Some (None, hub_publish sessionID (final_event args_text ''paused'' (LastNodeID s) [] (Some s)) w1)
          else if Status s = StatusCompleted then
            Some (None, hub_close sessionID (demo_sleep 200
              (hub_publish sessionID (final_event args_text ''completed'' (LastNodeID s) [] (Some s)) w1)))
          else Some (None, hub_close sessionID (hub_publish sessionID
              (final_event args_text ''failed'' [] (''unexpected status: '' @ status_text (Status s)) (Some s)) w1)))"

definition initial_demo :: "string \<Rightarrow> AgentState" where
  "initial_demo msg = WithVariable NewState userMessageKey (GString msg)"

text \<open>
  \<open>handleRun\<close> and \<open>handleResume\<close>: the status and the text of the reply, the goroutine that is started,
  and the world. \<open>None\<close> as the request: its body does not decode.
\<close>

type_synonym demo_job = "demo_world \<Rightarrow> (gopanic option \<times> demo_world) option"

definition handleRun ::
  "(nat \<Rightarrow> string) \<Rightarrow> (gvars option \<Rightarrow> string) \<Rightarrow> demo_world Graph \<Rightarrow> string option \<Rightarrow> demo_world
    \<Rightarrow> (int \<times> string) \<times> demo_job option \<times> demo_world" where
  "handleRun uuid args_text g req w = (case req of
     None \<Rightarrow> ((400, ''message required''), None, w)
   | Some msg \<Rightarrow>
       if list_all (\<lambda>r. r \<in> set white_runes) (utf8_spans msg) then ((400, ''message required''), None, w)
       else (let sessionID = uuid (mw_uuids w); w1 = hub_subscribe sessionID (w\<lparr>mw_uuids := Suc (mw_uuids w)\<rparr>) in
         ((200, sessionID),
          Some (runEngine args_text sessionID (\<lambda>ctx. Start (demo_engine uuid args_text g sessionID) ctx sessionID (Some (initial_demo msg)))),
          w1)))"

definition handleResume ::
  "(nat \<Rightarrow> string) \<Rightarrow> (gvars option \<Rightarrow> string) \<Rightarrow> demo_world Graph \<Rightarrow> (string \<times> bool) option \<Rightarrow> demo_world
    \<Rightarrow> (int \<times> string) \<times> demo_job option \<times> demo_world" where
  "handleResume uuid args_text g req w = (case req of
     None \<Rightarrow> ((400, ''sessionID required''), None, w)
   | Some (sessionID, approved) \<Rightarrow>
       if sessionID = [] then ((400, ''sessionID required''), None, w)
       else if hub_channel sessionID w = None then ((404, ''session not found''), None, w)
       else ((202, []),
         Some (runEngine args_text sessionID (\<lambda>ctx. Resume (demo_engine uuid args_text g sessionID) ctx sessionID [(''approved'', GBool approved)])),
         w))"

text \<open>What \<open>handleEvents\<close> writes for the events it receives until the channel is closed.\<close>

definition handleEvents ::
  "(demo_event \<Rightarrow> string) \<Rightarrow> bool \<Rightarrow> string \<Rightarrow> demo_event list \<Rightarrow> demo_world \<Rightarrow> int \<times> string" where
  "handleEvents event_json flusher sessionID received w =
     (if hub_channel sessionID w = None then (404, ''unknown session'')
      else if \<not> flusher then (500, ''streaming not supported'')
      else (200, concat (map (\<lambda>ev. ''data: '' @ event_json ev @ [CHR 0x0A, CHR 0x0A]) received)))"

text \<open>The graph of the server that \<open>main\<close> starts, with the one tool of its registry.\<close>

definition demo_main :: "(nat \<Rightarrow> string) \<Rightarrow> demo_world Graph option" where
  "demo_main uuid = (case Register NewConcreteToolRegistry EchoTool [] of (Some err, reg) \<Rightarrow> None | (None, reg) \<Rightarrow> buildGraph uuid reg)"

section \<open>Lemmas: the graph\<close>

definition demo_edges :: "demo_world Edge list" where
  "demo_edges = [\<lparr>ed_FromID = ''intake'', ed_ToID = ''classify'', ed_IsCond = False, ed_Router = None\<rparr>,
     \<lparr>ed_FromID = ''classify'', ed_ToID = [], ed_IsCond = True, ed_Router = Some intent_router\<rparr>,
     \<lparr>ed_FromID = ''refund_tool'', ed_ToID = ''respond_refund'', ed_IsCond = False, ed_Router = None\<rparr>,
     \<lparr>ed_FromID = ''query_tool'', ed_ToID = ''respond_query'', ed_IsCond = False, ed_Router = None\<rparr>,
     \<lparr>ed_FromID = ''human_review'', ed_ToID = ''respond_escalated'', ed_IsCond = False, ed_Router = None\<rparr>]"

definition demo_graph :: "(nat \<Rightarrow> string) \<Rightarrow> demo_world ConcreteToolRegistry \<Rightarrow> demo_world Graph" where
  "demo_graph uuid reg = \<lparr>g_Nodes = map (\<lambda>n. (n_ID n, n)) (demo_nodes uuid reg), g_Edges = demo_edges, g_Entry = ''intake'',
     g_Terminals = [(''respond_refund'', True), (''respond_query'', True), (''respond_escalated'', True)]\<rparr>"

lemma buildGraph_demo: "buildGraph uuid reg = Some (demo_graph uuid reg)"
  by (simp add: buildGraph_def demo_nodes_def AddNode_def NewBuilder_def SetEntry_def AddEdge_def AddConditionalEdge_def
      SetTerminal_def Build_def demo_graph_def demo_edges_def)

lemma demo_main_graph: "demo_main uuid = Some (demo_graph uuid (snd (Register NewConcreteToolRegistry EchoTool [])))"
  by (simp add: demo_main_def buildGraph_demo Register_def NewConcreteToolRegistry_def)

lemma demo_node [simp]:
  "Graph_Node (demo_graph uuid reg) ''intake'' = Some \<lparr>n_ID = ''intake'', n_Process = intake_Process\<rparr>"
  "Graph_Node (demo_graph uuid reg) ''classify'' = Some \<lparr>n_ID = ''classify'', n_Process = classify_Process\<rparr>"
  "Graph_Node (demo_graph uuid reg) ''refund_tool'' = Some \<lparr>n_ID = ''refund_tool'', n_Process = toolCall_Process uuid reg ''echo'' refund_args\<rparr>"
  "Graph_Node (demo_graph uuid reg) ''query_tool'' = Some \<lparr>n_ID = ''query_tool'', n_Process = toolCall_Process uuid reg ''echo'' query_args\<rparr>"
  "Graph_Node (demo_graph uuid reg) ''human_review'' = Some \<lparr>n_ID = ''human_review'', n_Process = humanReview_Process\<rparr>"
  "Graph_Node (demo_graph uuid reg) ''respond_refund'' = Some \<lparr>n_ID = ''respond_refund'', n_Process = respond_Process refund_reply\<rparr>"
  "Graph_Node (demo_graph uuid reg) ''respond_query'' = Some \<lparr>n_ID = ''respond_query'', n_Process = respond_Process query_reply\<rparr>"
  "Graph_Node (demo_graph uuid reg) ''respond_escalated'' = Some \<lparr>n_ID = ''respond_escalated'', n_Process = respond_Process escalated_reply\<rparr>"
  by (simp_all add: Graph_Node_def demo_graph_def demo_nodes_def)

lemma demo_first_edge [simp]:
  "first_edge (g_Edges (demo_graph uuid reg)) nid =
    (if nid = ''intake'' then Some (demo_edges ! 0) else if nid = ''classify'' then Some (demo_edges ! 1)
     else if nid = ''refund_tool'' then Some (demo_edges ! 2) else if nid = ''query_tool'' then Some (demo_edges ! 3)
     else if nid = ''human_review'' then Some (demo_edges ! 4) else None)"
  by (simp add: demo_graph_def demo_edges_def)

section \<open>Lemmas: the engine on the demo\<close>

lemma demo_engine_fields [simp]:
  "e_graph (demo_engine uuid js g sid) = Some g" "e_memoryStore (demo_engine uuid js g sid) = InMemoryStore_ops uuid"
  "e_taskStore (demo_engine uuid js g sid) = None" "e_eventBus (demo_engine uuid js g sid) = None"
  "e_hooks (demo_engine uuid js g sid) = [vizHook js sid]" "e_retry (demo_engine uuid js g sid) = DefaultRetryPolicy"
  "e_maxSteps (demo_engine uuid js g sid) = 100" "e_rt (demo_engine uuid js g sid) = mem_runtime"
  by (simp_all add: demo_engine_def NewEngine_def WithHooks_def)

lemma demo_hooks: "\<exists>w'. fireHooks (demo_engine uuid js g sid) st meta w = (st, w')"
  by (cases st) (simp_all add: fireHooks_def vizHook_def)

lemma demo_hooks_at: "\<exists>w'. fireHooks_at (demo_engine uuid js g sid) s meta w = (s, w')"
  using demo_hooks [of uuid js g sid "Some s" meta w] by (auto simp: fireHooks_at_def)

text \<open>A pass over a node that returns a new state.\<close>

lemma demo_at_node:
  "Status s = StatusRunning \<Longrightarrow> StepCount s < 100 \<Longrightarrow> Graph_Node g (LastNodeID s) = Some node
    \<Longrightarrow> at_node (demo_engine uuid js g sid) g s node"
  using demo_hooks_at by (auto simp: at_node_def)

lemma demo_pass:
  assumes "Status s = StatusRunning" and "StepCount s < 100" and "LastNodeID s = nid" and "Graph_Node g nid = Some node"
    and "\<And>v. \<exists>t v'. n_Process node ctx s v = (new_state s t, v') \<and> Q t"
  shows "\<exists>t w'. Q t \<and> run_step (demo_engine uuid js g sid) ctx sid s w
    = advance (demo_engine uuid js g sid) g ctx sid nid [] (t\<lparr>StepCount := StepCount s + 1, LastNodeID := nid\<rparr>) w'"
proof -
  have "\<And>v. \<exists>r v'. n_Process node ctx s v = (returned s r, v') \<and> (\<exists>t. r = RNew t \<and> Q t)" using assms(5) by blast
  from pass_returns [OF demo_at_node this, where R = Q] assms(1-4) demo_hooks show ?thesis by fastforce
qed

text \<open>The states of a run for a message, before any review.\<close>

definition serving :: "string \<Rightarrow> AgentState \<Rightarrow> bool" where
  "serving msg s \<longleftrightarrow> state_ok s \<and> state_json_ok s \<and> Status s = StatusRunning
     \<and> glookup (vars s) userMessageKey = Some (GString msg) \<and> glookup (vars s) ''approved'' = None"

lemma serving_message: "serving msg s \<Longrightarrow> message_json_ok m \<Longrightarrow> serving msg (WithMessage s m)"
  by (simp add: serving_def WithMessage_eq state_json_ok_def vars_json_ok_vars) (simp add: state_ok_def)

lemma serving_intent: "serving msg s \<Longrightarrow> serving msg (WithVariable s ''intent'' (GString i))"
  using vars_json_ok_gset [of "vars s" "GString i" "''intent''"]
  by (simp add: serving_def WithVariable_eq state_json_ok_def vars_json_ok_vars) (simp add: state_ok_def userMessageKey_def)

lemma serving_move [simp]: "serving msg (s\<lparr>StepCount := k, LastNodeID := n\<rparr>) = serving msg s"
  "serving msg (s\<lparr>StepCount := k\<rparr>) = serving msg s" "serving msg (s\<lparr>LastNodeID := n\<rparr>) = serving msg s"
  by (simp_all add: serving_def state_ok_def state_json_ok_def vars_def)

lemma serving_user_message: "serving msg s \<Longrightarrow> fst (GetStringVariable s userMessageKey) = msg"
  by (simp add: serving_def GetStringVariable_def)

abbreviation demo :: "(nat \<Rightarrow> string) \<Rightarrow> (gvars option \<Rightarrow> string) \<Rightarrow> string \<Rightarrow> demo_world Engine" where
  "demo uuid js sid \<equiv> demo_engine uuid js (demo_graph uuid (snd (Register NewConcreteToolRegistry EchoTool []))) sid"

lemma intake_step:
  assumes "serving msg s" and "LastNodeID s = ''intake''" and "StepCount s = 0"
  shows "\<exists>t w'. run_step (demo uuid js sid) ctx sid s w = Next t w' \<and> serving msg t \<and> LastNodeID t = ''classify''
    \<and> StepCount t = 1 \<and> m_Parts (LastMessage t) = [text_part msg]"
proof -
  let ?g = "demo_graph uuid (snd (Register NewConcreteToolRegistry EchoTool []))"
  have p: "\<exists>t v'. n_Process \<lparr>n_ID = ''intake'', n_Process = intake_Process\<rparr> ctx s v = (new_state s t, v')
      \<and> (\<exists>now. t = WithMessage s (text_message RoleUser msg now))" for v
    using serving_user_message [OF assms(1)] by (auto simp: intake_Process_def Let_def)
  obtain now w' where r: "run_step (demo uuid js sid) ctx sid s w = advance (demo uuid js sid) ?g ctx sid ''intake'' []
      ((WithMessage s (text_message RoleUser msg now))\<lparr>StepCount := StepCount s + 1, LastNodeID := ''intake''\<rparr>) w'"
    using demo_pass [of s "''intake''" ?g _ ctx, OF _ _ _ demo_node(1) p, of uuid js sid w] assms
    by (auto simp: serving_def)
  show ?thesis unfolding r using assms
    by (simp add: advance_def resolveNextNode_def demo_edges_def serving_message)
qed

lemma classify_step:
  assumes "serving msg s" and "LastNodeID s = ''classify''" and "StepCount s = 1" and "m_Parts (LastMessage s) = [text_part msg]"
  shows "\<exists>t w'. run_step (demo uuid js sid) ctx sid s w = Next t w' \<and> serving msg t \<and> StepCount t = 2
    \<and> LastNodeID t = (if demo_intent msg = ''refund'' then ''refund_tool'' else if demo_intent msg = ''query'' then ''query_tool'' else ''human_review'')"
proof -
  let ?g = "demo_graph uuid (snd (Register NewConcreteToolRegistry EchoTool []))"
  let ?t = "\<lambda>body now. WithMessage (WithVariable s ''intent'' (GString (demo_intent msg))) (text_message RoleAssistant body now)"
  have p: "\<exists>t v'. n_Process \<lparr>n_ID = ''classify'', n_Process = classify_Process\<rparr> ctx s v = (new_state s t, v')
      \<and> (\<exists>body now. t = ?t body now)" for v
    using assms(4) by (auto simp: classify_Process_def Let_def text_part_def)
  obtain body now w' where r: "run_step (demo uuid js sid) ctx sid s w = advance (demo uuid js sid) ?g ctx sid ''classify'' []
      ((?t body now)\<lparr>StepCount := StepCount s + 1, LastNodeID := ''classify''\<rparr>) w'"
    using demo_pass [of s "''classify''" ?g _ ctx, OF _ _ _ demo_node(2) p, of uuid js sid w] assms
    by (auto simp: serving_def)
  have ok: "state_ok s" using assms(1) by (simp add: serving_def)
  have i: "glookup (vars ((?t body now)\<lparr>StepCount := k, LastNodeID := n\<rparr>)) ''intent'' = Some (GString (demo_intent msg))" for k n
    using ok by (simp add: WithMessage_eq) (simp add: vars_def WithVariable_eq)
  define t where "t = ?t body now"
  have "serving msg t" using assms(1) by (simp add: t_def serving_message serving_intent)
  moreover note r [folded t_def] i [folded t_def]
  ultimately show ?thesis using assms(3)
    by (simp add: advance_def resolveNextNode_def demo_edges_def intent_router_def)
qed

text \<open>A tool node leaves the result of the echo as the newest tool result.\<close>

lemma tool_Process:
  assumes "serving msg s" and "ctx_tenantID ctx = None" and "argsFn s = [(''message'', GString out)]"
  shows "\<exists>t v'. toolCall_Process uuid (snd (Register NewConcreteToolRegistry EchoTool [])) ''echo'' argsFn ctx s v = (new_state s t, v')
    \<and> serving msg t \<and> lastToolResult t = out"
proof -
  have ok: "message_json_ok (zero_Message\<lparr>m_Role := RoleAssistant, m_Parts := [tool_call_part \<lparr>tc_CallID = c, tc_ToolName = ''echo'',
        tc_Arguments = Some [(''message'', GString out)]\<rparr>], m_Timestamp := now\<rparr>)"
    "message_json_ok (zero_Message\<lparr>m_Role := RoleTool, m_Parts := [zero_Part\<lparr>p_Type := PartTypeToolResult, p_ToolResult := Some r\<rparr>],
        m_Timestamp := now\<rparr>)" for c now r
    by (simp_all add: message_json_ok_def part_json_ok_def vars_json_ok_def zero_Message_def zero_Part_def tool_call_part_def)
  show ?thesis using assms(2,3)
    by (simp add: toolCall_Process_def Let_def run_call_def AuthorizeCall_def Register_def NewConcreteToolRegistry_def EchoTool_def
        Echo_Execute_def map_string_def returned_def serving_message assms(1) ok)
      (simp add: lastToolResult_def)
qed

lemma lastToolResult_move [simp]: "lastToolResult (s\<lparr>StepCount := k, LastNodeID := n\<rparr>) = lastToolResult s"
  "lastToolResult (s\<lparr>LastNodeID := n\<rparr>) = lastToolResult s" "lastToolResult (s\<lparr>StepCount := k\<rparr>) = lastToolResult s"
  by (simp_all add: lastToolResult_def)

lemma tool_step:
  assumes "serving msg s" and "StepCount s = 2" and "ctx_tenantID ctx = None"
    and "LastNodeID s = ''refund_tool'' \<and> nxt = ''respond_refund'' \<and> refund_args s = [(''message'', GString out)]
      \<or> LastNodeID s = ''query_tool'' \<and> nxt = ''respond_query'' \<and> query_args s = [(''message'', GString out)]"
  shows "\<exists>t w'. run_step (demo uuid js sid) ctx sid s w = Next t w' \<and> serving msg t \<and> StepCount t = 3
    \<and> LastNodeID t = nxt \<and> lastToolResult t = out"
proof -
  let ?g = "demo_graph uuid (snd (Register NewConcreteToolRegistry EchoTool []))"
  obtain argsFn where f: "Graph_Node ?g (LastNodeID s) = Some \<lparr>n_ID = LastNodeID s,
      n_Process = toolCall_Process uuid (snd (Register NewConcreteToolRegistry EchoTool [])) ''echo'' argsFn\<rparr>"
    "argsFn s = [(''message'', GString out)]" using assms(4) by auto
  have p: "\<exists>t v'. n_Process \<lparr>n_ID = LastNodeID s, n_Process = toolCall_Process uuid (snd (Register NewConcreteToolRegistry EchoTool [])) ''echo'' argsFn\<rparr> ctx s v
      = (new_state s t, v') \<and> (serving msg t \<and> lastToolResult t = out)" for v
    using tool_Process [of msg s ctx argsFn out uuid v, OF assms(1,3) f(2)] by simp
  obtain t w' where t: "serving msg t" "lastToolResult t = out" and r: "run_step (demo uuid js sid) ctx sid s w
      = advance (demo uuid js sid) ?g ctx sid (LastNodeID s) [] (t\<lparr>StepCount := StepCount s + 1, LastNodeID := LastNodeID s\<rparr>) w'"
    using demo_pass [of s "LastNodeID s" ?g _ ctx, OF _ _ _ f(1) p, of uuid js sid w] assms(1,2)
    by (auto simp: serving_def)
  show ?thesis unfolding r using assms(2,4) t by (auto simp: advance_def resolveNextNode_def demo_edges_def)
qed

text \<open>The three replies end the run.\<close>

lemma respond_step:
  assumes "Status s = StatusRunning" and "StepCount s < 100"
    and "LastNodeID s = ''respond_refund'' \<and> reply = refund_reply s \<or> LastNodeID s = ''respond_query'' \<and> reply = query_reply s
      \<or> LastNodeID s = ''respond_escalated'' \<and> reply = escalated_reply s"
  shows "\<exists>t w'. run_step (demo uuid js sid) ctx sid s w = Done t None w' \<and> Status t = StatusCompleted \<and> LastNodeID t = LastNodeID s
    \<and> (\<exists>now. LastMessage t = text_message RoleAssistant reply now)"
proof -
  let ?g = "demo_graph uuid (snd (Register NewConcreteToolRegistry EchoTool []))"
  obtain tmpl where f: "Graph_Node ?g (LastNodeID s) = Some \<lparr>n_ID = LastNodeID s, n_Process = respond_Process tmpl\<rparr>" "tmpl s = reply"
    using assms(3) by auto
  have p: "\<exists>t v'. n_Process \<lparr>n_ID = LastNodeID s, n_Process = respond_Process tmpl\<rparr> ctx s v
      = (new_state s t, v') \<and> (\<exists>now. t = WithMessage s (text_message RoleAssistant reply now))" for v
    using f(2) by (auto simp: respond_Process_def Let_def)
  obtain now w' where r: "run_step (demo uuid js sid) ctx sid s w = advance (demo uuid js sid) ?g ctx sid (LastNodeID s) []
      ((WithMessage s (text_message RoleAssistant reply now))\<lparr>StepCount := StepCount s + 1, LastNodeID := LastNodeID s\<rparr>) w'"
    using demo_pass [of s "LastNodeID s" ?g _ ctx, OF _ _ _ f(1) p, of uuid js sid w] assms(1,2) by auto
  have "is_terminal ?g (LastNodeID s)" using assms(3) by (auto simp: is_terminal_def demo_graph_def)
  moreover have "resolveNextNode ?g ctx (t\<lparr>StepCount := k, LastNodeID := LastNodeID s\<rparr>) v = (Inr (Inr []), v)" for t k v
    using assms(3) by (auto simp: resolveNextNode_def)
  ultimately show ?thesis unfolding r by (simp add: advance_def finish_Done) (auto simp: LastMessage_def)
qed

text \<open>The review node pauses the run, and the session is in the store.\<close>

lemma review_step:
  assumes "serving msg s" and "StepCount s < 100" and "LastNodeID s = ''human_review''"
  shows "\<exists>t w'. run_step (demo uuid js sid) ctx sid s w = Done t None w' \<and> Status t = StatusPaused \<and> LastNodeID t = ''human_review''
    \<and> StepCount t = StepCount s + 1 \<and> state_ok t \<and> glookup (im_states (mw_store w')) sid = Some (json_state t)"
proof -
  let ?e = "demo uuid js sid" and ?s = "s\<lparr>StepCount := StepCount s + 1\<rparr>"
  have na: "glookup (vars s) ''approved'' = None" using assms(1) by (simp add: serving_def)
  have "\<exists>el w1. run_step ?e ctx sid s w = node_failed ?e ctx sid (LastNodeID s) el approval_error ?s w1"
    using assms by (intro pass_fails [OF demo_at_node]) (auto simp: serving_def humanReview_Process_def na is_retriable_def approval_error_def)
  then obtain el w1 where r: "run_step ?e ctx sid s w = node_failed ?e ctx sid (LastNodeID s) el approval_error ?s w1" by blast
  obtain w2 where w2: "fireHooks_at ?e ?s \<lparr>hm_Point = HookOnError, hm_NodeID = LastNodeID s, hm_StepCount = StepCount s + 1,
        hm_Elapsed = el, hm_Err = Some approval_error\<rparr> w1 = (?s, w2)" using demo_hooks_at by blast
  have ok: "state_ok ?s" "state_json_ok ?s" using serving_move(2) [of msg "StepCount s + 1" s] assms(1) by (simp_all add: serving_def)
  then have "state_json_ok (WithStatus ?s StatusPaused)"
    by (simp add: WithStatus_eq) (simp add: state_json_ok_def vars_json_ok_vars vars_json_ok_vars [of ?s, simplified])
  then have "glookup (im_states (mw_store (snd (InMemory_Save uuid ctx sid (WithStatus ?s StatusPaused) w2)))) sid
      = Some (json_state (WithStatus ?s StatusPaused))"
    by (simp add: InMemory_Save_def marshal_state_def Let_def)
  moreover have "run_step ?e ctx sid s w = Done (WithStatus ?s StatusPaused) None (snd (InMemory_Save uuid ctx sid (WithStatus ?s StatusPaused) w2))"
    using r w2 by (simp add: node_failed_def pause_def Let_def case_prod_beta update_task_status_def approval_error_def)
  ultimately show ?thesis using assms(3) by auto
qed

section \<open>Properties\<close>

lemma initial_demo_eq: "initial_demo msg = NewState\<lparr>Variables := Some [(userMessageKey, GString msg)]\<rparr>"
  by (simp add: initial_demo_def WithVariable_eq state_ok_def)

lemma initial_running:
  "WithStatus (initial_demo msg) StatusRunning = NewState\<lparr>Variables := Some [(userMessageKey, GString msg)], Status := StatusRunning\<rparr>"
  by (simp add: initial_demo_eq WithStatus_eq state_ok_def)

lemma initial_serving:
  "serving msg ((WithStatus (initial_demo msg) StatusRunning)\<lparr>LastNodeID := n\<rparr>)"
  "StepCount ((WithStatus (initial_demo msg) StatusRunning)\<lparr>LastNodeID := n\<rparr>) = 0" "LastNodeID (WithStatus (initial_demo msg) StatusRunning) = []"
  unfolding initial_running
  by (simp_all add: serving_def state_json_ok_def vars_json_ok_def userMessageKey_def NewState_def state_ok_def vars_def)

lemma serving_order: "serving msg s \<Longrightarrow> extractOrderID s = extractOrderID (initial_demo msg)"
  by (simp add: extractOrderID_def serving_user_message) (simp add: initial_demo_eq GetStringVariable_def)

text \<open>The first two passes of a run leave it at the node that the classifier chose.\<close>

lemma demo_routed:
  "\<exists>s w'. Start (demo uuid js sid) ctx sid (Some (initial_demo msg)) w = loop (demo uuid js sid) (ctx\<lparr>ctx_session := Some sid\<rparr>) sid s w'
    \<and> serving msg s \<and> StepCount s = 2
    \<and> LastNodeID s = (if demo_intent msg = ''refund'' then ''refund_tool'' else if demo_intent msg = ''query'' then ''query_tool'' else ''human_review'')"
proof -
  let ?e = "demo uuid js sid" and ?c = "ctx\<lparr>ctx_session := Some sid\<rparr>"
  define s0 where "s0 = (WithStatus (initial_demo msg) StatusRunning)\<lparr>LastNodeID := ''intake''\<rparr>"
  have s0: "serving msg s0" "LastNodeID s0 = ''intake''" "StepCount s0 = 0"
    using initial_serving(1) [of msg "''intake''"] initial_serving(2) [of msg] by (simp_all add: s0_def)
  obtain s1 w1 where s1: "run_step ?e ?c sid s0 w = Next s1 w1" "serving msg s1" "LastNodeID s1 = ''classify''" "StepCount s1 = 1"
    "m_Parts (LastMessage s1) = [text_part msg]" using intake_step [OF s0] by blast
  obtain s2 w2 where s2: "run_step ?e ?c sid s1 w1 = Next s2 w2" "serving msg s2" "StepCount s2 = 2"
    "LastNodeID s2 = (if demo_intent msg = ''refund'' then ''refund_tool'' else if demo_intent msg = ''query'' then ''query_tool'' else ''human_review'')"
    using classify_step [OF s1(2-5)] by blast
  have "Start ?e ctx sid (Some (initial_demo msg)) w = loop ?e ?c sid s0 w"
    using initial_serving(3) [of msg] by (simp add: Start_def runLoop_def Let_def s0_def demo_graph_def)
  also have "\<dots> = loop ?e ?c sid s2 w2" using loop_Next [OF s1(1)] loop_Next [OF s2(1)] by simp
  finally show ?thesis using s2(2-4) by blast
qed

lemma demo_pauses:
  assumes "demo_intent msg \<notin> {''refund'', ''query''}"
  shows "\<exists>t w'. Start (demo uuid js sid) ctx sid (Some (initial_demo msg)) w = Some (Returned (Some t) None w')
    \<and> Status t = StatusPaused \<and> LastNodeID t = ''human_review'' \<and> StepCount t = 3 \<and> glookup (im_states (mw_store w')) sid = Some (json_state t)"
proof -
  let ?e = "demo uuid js sid" and ?c = "ctx\<lparr>ctx_session := Some sid\<rparr>"
  obtain s w1 where s: "Start ?e ctx sid (Some (initial_demo msg)) w = loop ?e ?c sid s w1" "serving msg s" "StepCount s = 2"
    "LastNodeID s = ''human_review''" using demo_routed [of uuid js sid ctx msg w] assms by auto
  have "StepCount s < 100" using s(3) by simp
  from review_step [OF s(2) this s(4), of uuid js sid ?c w1] s(1,3) show ?thesis by (fastforce dest: loop_Done)
qed

lemma demo_answers:
  assumes "ctx_tenantID ctx = None"
    and "demo_intent msg = ''refund'' \<and> reply = refund_reply \<and> args = refund_args \<or> demo_intent msg = ''query'' \<and> reply = query_reply \<and> args = query_args"
  shows "\<exists>t w' s now. Start (demo uuid js sid) ctx sid (Some (initial_demo msg)) w = Some (Returned (Some t) None w')
    \<and> Status t = StatusCompleted \<and> LastMessage t = text_message RoleAssistant (reply s) now
    \<and> [(''message'', GString (lastToolResult s))] = args (initial_demo msg)"
proof -
  let ?e = "demo uuid js sid" and ?c = "ctx\<lparr>ctx_session := Some sid\<rparr>"
  obtain s w1 where s: "Start ?e ctx sid (Some (initial_demo msg)) w = loop ?e ?c sid s w1" "serving msg s" "StepCount s = 2"
    "LastNodeID s = (if demo_intent msg = ''refund'' then ''refund_tool'' else if demo_intent msg = ''query'' then ''query_tool'' else ''human_review'')"
    using demo_routed [of uuid js sid ctx msg w] by blast
  obtain out where out: "args s = [(''message'', GString out)]" "args (initial_demo msg) = [(''message'', GString out)]"
    using assms(2) serving_order [OF s(2)] by (auto simp: refund_args_def query_args_def)
  obtain nxt where nxt: "LastNodeID s = ''refund_tool'' \<and> nxt = ''respond_refund'' \<and> refund_args s = [(''message'', GString out)]
      \<or> LastNodeID s = ''query_tool'' \<and> nxt = ''respond_query'' \<and> query_args s = [(''message'', GString out)]"
    and to: "nxt = ''respond_refund'' \<and> reply = refund_reply \<or> nxt = ''respond_query'' \<and> reply = query_reply"
    using assms(2) s(4) out(1) by fastforce
  obtain s3 w3 where s3: "run_step ?e ?c sid s w1 = Next s3 w3" "serving msg s3" "StepCount s3 = 3" "LastNodeID s3 = nxt" "lastToolResult s3 = out"
    using tool_step [OF s(2,3) _ nxt, of ?c uuid js sid w1] assms(1) by auto
  obtain t w4 now where t: "run_step ?e ?c sid s3 w3 = Done t None w4" "Status t = StatusCompleted"
    "LastMessage t = text_message RoleAssistant (reply s3) now"
    using respond_step [of s3 "reply s3" uuid js sid ?c w3] s3(2-4) to by (auto simp: serving_def)
  have "Start ?e ctx sid (Some (initial_demo msg)) w = Some (Returned (Some t) None w4)"
    using s(1) loop_Next [OF s3(1)] loop_Done [OF t(1)] by simp
  with t(2,3) s3(5) out(2) show ?thesis by metis
qed

text \<open>The goroutine of a request, given what the engine returns: it never panics, and a completed run closes the channel.\<close>

lemma runEngine_ends:
  assumes "fn (Background\<lparr>ctx_deadline := Some (mw_clock w + 30000000000)\<rparr>) w = Some (Returned (Some t) None w')"
  shows "\<exists>w2. runEngine args_text sid fn w = Some (None, w2) \<and> (Status t = StatusCompleted \<longrightarrow> hub_channel sid w2 = None)"
proof -
  have "hub_channel sid (hub_close sid v) = None" for v by (simp add: hub_close_def hub_channel_def split: option.split)
  with assms show ?thesis by (simp add: runEngine_def)
qed


definition demo_start :: demo_world where
  "demo_start = \<lparr>mw_store = NewInMemoryStore, mw_subs = [], mw_uuids = 0, mw_clock = 0, dw_chs = []\<rparr>"


text \<open>
  The reviewer's decision is not consulted. The comment of the review node says that the
  run flows downstream on a resume with an approval; \<open>Resume\<close> goes on at the node's successor, so
  that a run paused for review is completed with the message that the case was escalated whatever
  the answer is, a refusal included.
\<close>

theorem demo_review_not_consulted:
  assumes "demo_main uuid = Some g" and "demo_intent msg = ''escalate''"
  shows "\<exists>t w' t' w'' now. Start (demo_engine uuid js g sid) ctx sid (Some (initial_demo msg)) w = Some (Returned (Some t) None w')
    \<and> Status t = StatusPaused
    \<and> Resume (demo_engine uuid js g sid) ctx' sid [(''approved'', GBool approved)] w' = Some (Returned (Some t') None w'')
    \<and> Status t' = StatusCompleted \<and> LastNodeID t' = ''respond_escalated''
    \<and> LastMessage t' = text_message RoleAssistant (escalated_reply t) now"
proof -
  have g: "g = demo_graph uuid (snd (Register NewConcreteToolRegistry EchoTool []))" using assms(1) by (simp add: demo_main_graph)
  let ?e = "demo_engine uuid js g sid" and ?c = "ctx'\<lparr>ctx_session := Some sid\<rparr>"
  obtain t w' where t: "Start ?e ctx sid (Some (initial_demo msg)) w = Some (Returned (Some t) None w')" "Status t = StatusPaused"
    "LastNodeID t = ''human_review''" "StepCount t = 3" "glookup (im_states (mw_store w')) sid = Some (json_state t)"
    using demo_pauses [of msg uuid js sid ctx w] assms(2) by (auto simp: g)
  define s where "s = (WithStatus (WithVariable (json_state t) ''approved'' (GBool approved)) StatusRunning)\<lparr>LastNodeID := ''respond_escalated''\<rparr>"
  have "StepCount s < 100" using t(4) by (simp add: s_def)
  then obtain t' w'' now where t': "run_step ?e ?c sid s w' = Done t' None w''" "Status t' = StatusCompleted" "LastNodeID t' = ''respond_escalated''"
    "LastMessage t' = text_message RoleAssistant (escalated_reply s) now"
    using respond_step [of s "escalated_reply s" uuid js sid ?c w'] by (auto simp: g s_def)
  have "Resume ?e ctx' sid [(''approved'', GBool approved)] w' = loop ?e ?c sid s w'"
    using t(2-5) by (simp add: Resume_def InMemory_Load_def Let_def inject_def resolveNextNode_def demo_edges_def runLoop_def s_def g)
  with loop_Done [OF t'(1)] t(1,2) t'(2-4) show ?thesis by (auto simp: escalated_reply_def)
qed

theorem demo_review_not_consulted_witness:
  "\<exists>g t w' t' w'' now. demo_main (\<lambda>n. ''id'') = Some g
    \<and> Start (demo_engine (\<lambda>n. ''id'') (\<lambda>v. []) g ''s'') Background ''s'' (Some (initial_demo ''hello''))
        \<lparr>mw_store = NewInMemoryStore, mw_subs = [], mw_uuids = 0, mw_clock = 0, dw_chs = []\<rparr> = Some (Returned (Some t) None w')
    \<and> Resume (demo_engine (\<lambda>n. ''id'') (\<lambda>v. []) g ''s'') Background ''s'' [(''approved'', GBool False)] w' = Some (Returned (Some t') None w'')
    \<and> Status t' = StatusCompleted \<and> LastMessage t' = text_message RoleAssistant (escalated_reply t) now"
proof -
  have i: "demo_intent ''hello'' = ''escalate''" by code_simp
  show ?thesis using demo_review_not_consulted [OF demo_main_graph i, of "\<lambda>n. ''id''" "\<lambda>v. []" "''s''" Background
      "\<lparr>mw_store = NewInMemoryStore, mw_subs = [], mw_uuids = 0, mw_clock = 0, dw_chs = []\<rparr>" Background False]
    by (auto simp: demo_main_graph)
qed

end
