(* ===== verification/Task_Progress.thy ===== *)
theory Task_Progress
  imports Engine_Runs
begin

text \<open>
  What the engine tells the task store during a run. The state of the loop becomes completed or
  paused only behind the last call of the store, so that a run whose nodes leave the end of the
  run to the engine writes no other task states than \<open>working\<close> and \<open>failed\<close>.
\<close>

section \<open>Nodes and hooks that leave the end of a run to the engine\<close>

definition progressing :: "AgentState \<Rightarrow> bool" where
  "progressing s \<longleftrightarrow> MapAgentStatusToTaskState (Status s) \<in> {TaskStateWorking, TaskStateFailed}"

definition progressing_node :: "'w Node \<Rightarrow> bool" where
  "progressing_node n \<longleftrightarrow> (\<forall>ctx s w. progressing s \<longrightarrow> progressing (fst (fst (n_Process n ctx s w)))
     \<and> (case snd (fst (n_Process n ctx s w)) of Inr (Some r) \<Rightarrow> (\<forall>t. nr_State r = RNew t \<longrightarrow> progressing t) | _ \<Rightarrow> True))"

definition progressing_hook :: "'w LifecycleHook \<Rightarrow> bool" where
  "progressing_hook h \<longleftrightarrow> (\<forall>s meta w. progressing s \<longrightarrow> (case h (Some s) meta w of (_, Some s', _) \<Rightarrow> progressing s' | _ \<Rightarrow> True))"

definition progressing_engine :: "'w Engine \<Rightarrow> bool" where
  "progressing_engine e \<longleftrightarrow> (\<forall>h \<in> set (e_hooks e). progressing_hook h)
     \<and> (\<forall>g. e_graph e = Some g \<longrightarrow> (\<forall>n \<in> set (map snd (g_Nodes g)). progressing_node n))"

lemma progressing_simps [simp]:
  "progressing (s\<lparr>StepCount := k\<rparr>) = progressing s" "progressing (s\<lparr>LastNodeID := n\<rparr>) = progressing s"
  "progressing (s\<lparr>StepCount := k, LastNodeID := n\<rparr>) = progressing s"
  "progressing (WithStatus s StatusRunning)" "progressing (WithMessage s m) = progressing s"
  by (simp_all add: progressing_def)

lemma progressing_hookD:
  assumes "progressing_hook h" and "h (Some s) meta w = (p, Some s', w')" and "progressing s"
  shows "progressing s'"
proof -
  from assms(1) have "progressing s \<longrightarrow> (case h (Some s) meta w of (_, Some s', _) \<Rightarrow> progressing s' | _ \<Rightarrow> True)"
    unfolding progressing_hook_def by (elim allE)
  with assms(2,3) show ?thesis by simp
qed

lemma fire_hooks_progressing:
  assumes "\<forall>h \<in> set hs. progressing_hook h" and "fire_hooks hs (Some s) meta w = (Some s', w')" and "progressing s"
  shows "progressing s'"
  using assms
proof (induction hs arbitrary: s w)
  case (Cons h hs)
  obtain p st1 w1 where h: "h (Some s) meta w = (p, st1, w1)" by (metis surj_pair)
  then obtain u where u: "fire_hooks hs (Some u) meta w1 = (Some s', w')" "u = s \<or> st1 = Some u"
    using Cons.prems(2) by (cases st1) auto
  have "progressing u" using u(2) Cons.prems(1,3) progressing_hookD [of h s meta w p u w1] h by auto
  with u(1) Cons show ?case by auto
qed simp

lemma fireHooks_progressing:
  "progressing_engine e \<Longrightarrow> progressing s \<Longrightarrow> fireHooks e (Some s) meta w = (Some s', w') \<Longrightarrow> progressing s'"
  by (auto simp: progressing_engine_def fireHooks_def intro: fire_hooks_progressing)

lemma fireHooks_at_progressing:
  "progressing_engine e \<Longrightarrow> progressing s \<Longrightarrow> fireHooks_at e s meta w = (s', w') \<Longrightarrow> progressing s'"
  by (auto simp: fireHooks_at_def split: prod.splits option.splits intro: fireHooks_progressing)

text \<open>The state behind the pointer and the captured result, over all attempts.\<close>

lemma process_progressing:
  assumes "progressing_node node" and "progressing s" and "processNodeWithRetry e ctx node s w = (err, s', res, w')"
  shows "progressing s' \<and> (\<forall>r t. res = Some r \<longrightarrow> nr_State r = RNew t \<longrightarrow> progressing t)"
proof -
  let ?I = "\<lambda>c. progressing (fst c) \<and> (\<forall>r t. fst (snd c) = Some r \<longrightarrow> nr_State r = RNew t \<longrightarrow> progressing t)"
  have "?I (snd (processNodeWithRetry e ctx node s w))"
    unfolding processNodeWithRetry_def Execute_def
  proof (rule Execute_loop_keeps [where I = ?I])
    fix c :: "AgentState \<times> NodeResult option \<times> 'a"
    assume c: "?I c"
    with assms(1) have "progressing (fst (fst (n_Process node ctx (fst c) (snd (snd c)))))"
      "case snd (fst (n_Process node ctx (fst c) (snd (snd c)))) of
         Inr (Some r) \<Rightarrow> (\<forall>t. nr_State r = RNew t \<longrightarrow> progressing t) | _ \<Rightarrow> True"
      unfolding progressing_node_def by blast+
    with c show "?I (snd (process_call ctx node c))"
      by (auto simp: process_call_def split: prod.splits sum.splits option.splits)
  qed (use assms(2) in \<open>auto split: prod.splits\<close>)
  with assms(3) show ?thesis by simp
qed

section \<open>A task store that hears of progress only\<close>

definition progress_tasks :: "'w TaskStore \<Rightarrow> 'w TaskStore" where
  "progress_tasks ts = ts\<lparr>tk_UpdateStatus := \<lambda>ctx tid st w.
     if ts_State st \<in> {TaskStateWorking, TaskStateFailed} then tk_UpdateStatus ts ctx tid st w else (None, w)\<rparr>"

definition progress_engine :: "'w Engine \<Rightarrow> 'w Engine" where
  "progress_engine e = e\<lparr>e_taskStore := map_option progress_tasks (e_taskStore e)\<rparr>"

lemma progress_engine_simps [simp]:
  "e_graph (progress_engine e) = e_graph e" "e_memoryStore (progress_engine e) = e_memoryStore e" "e_eventBus (progress_engine e) = e_eventBus e"
  "e_hooks (progress_engine e) = e_hooks e" "e_retry (progress_engine e) = e_retry e" "e_maxSteps (progress_engine e) = e_maxSteps e"
  "e_rt (progress_engine e) = e_rt e"
  "fireHooks (progress_engine e) = fireHooks e" "fireHooks_at (progress_engine e) = fireHooks_at e" "finish (progress_engine e) = finish e"
  "pause (progress_engine e) = pause e" "processNodeWithRetry (progress_engine e) = processNodeWithRetry e" "advance (progress_engine e) = advance e"
proof -
  show f: "e_graph (progress_engine e) = e_graph e" "e_memoryStore (progress_engine e) = e_memoryStore e" "e_eventBus (progress_engine e) = e_eventBus e"
    "e_hooks (progress_engine e) = e_hooks e" "e_retry (progress_engine e) = e_retry e" "e_maxSteps (progress_engine e) = e_maxSteps e"
    "e_rt (progress_engine e) = e_rt e" by (simp_all add: progress_engine_def)
  show "fireHooks (progress_engine e) = fireHooks e" "finish (progress_engine e) = finish e"
    "pause (progress_engine e) = pause e" "processNodeWithRetry (progress_engine e) = processNodeWithRetry e"
    by (simp_all add: f fun_eq_iff fireHooks_def finish_def pause_def processNodeWithRetry_def)
  then show "fireHooks_at (progress_engine e) = fireHooks_at e" "advance (progress_engine e) = advance e"
    by (auto simp: fireHooks_at_def advance_def intro!: ext split: prod.split list.split sum.split)
qed

lemma progress_engine_tasks [simp]: "e_taskStore (progress_engine e) = map_option progress_tasks (e_taskStore e)"
  by (simp add: progress_engine_def)

lemma update_task_status_progress:
  "st \<in> {TaskStateWorking, TaskStateFailed} \<Longrightarrow> update_task_status (progress_engine e) ctx tid st msg w = update_task_status e ctx tid st msg w"
  by (auto simp: update_task_status_def progress_tasks_def split: option.split prod.split)

lemma sync_task_progress:
  assumes "progressing t"
  shows "sync_task (progress_engine e) ctx nid old t w = sync_task e ctx nid old t w"
proof -
  have "append_artifacts (progress_tasks ts) = append_artifacts ts" for ts :: "'a TaskStore"
    by (simp add: fun_eq_iff append_artifacts_def progress_tasks_def)
  with assms show ?thesis
    by (auto simp: sync_task_def progressing_def update_task_status_progress split: option.split)
qed

lemma node_failed_progress: "node_failed (progress_engine e) = node_failed e"
  by (simp add: fun_eq_iff node_failed_def update_task_status_progress Let_def split: prod.split option.split ErrorCategory.split)

lemma result_state_progress:
  assumes "progressing_engine e" and "progressing s" and "\<And>t. nr_State r = RNew t \<Longrightarrow> progressing t"
  shows "result_state (progress_engine e) ctx nid d r s w = result_state e ctx nid d r s w
    \<and> progressing (fst (snd (result_state e ctx nid d r s w)))"
proof -
  let ?ptr = "case nr_State r of RNil \<Rightarrow> None | RSame \<Rightarrow> Some s | RNew t \<Rightarrow> Some t"
  let ?m = "\<lparr>hm_Point = HookAfterNode, hm_NodeID = nid, hm_StepCount = StepCount s, hm_Elapsed = d, hm_Err = None\<rparr>"
  obtain ptr1 w1 where f: "fireHooks e ?ptr ?m w = (ptr1, w1)" by fastforce
  have "progressing t" if "ptr1 = Some t" for t
  proof (cases ?ptr)
    case None
    with f that fire_hooks_nil [of "e_hooks e" ?m w] show ?thesis by (simp add: fireHooks_def)
  next
    case (Some u)
    with assms(2,3) have "progressing u" by (auto split: state_ref.splits)
    with f Some that assms(1) show ?thesis by (auto intro: fireHooks_progressing)
  qed
  with f assms(2) show ?thesis
    by (auto simp: result_state_def Let_def sync_task_progress split: option.split prod.split state_ref.split)
qed

text \<open>One pass cannot tell the two stores apart, and goes on with a state that makes progress.\<close>

definition goes_on :: "'w step \<Rightarrow> bool" where
  "goes_on r \<longleftrightarrow> (\<forall>s w. r = Next s w \<longrightarrow> progressing s)"

lemma node_succeeded_progress:
  assumes "progressing_engine e" and "progressing s" and "\<And>t. nr_State r = RNew t \<Longrightarrow> progressing t"
  shows "node_succeeded (progress_engine e) g ctx sid nid d r s w = node_succeeded e g ctx sid nid d r s w
    \<and> goes_on (node_succeeded e g ctx sid nid d r s w)"
  using result_state_progress [OF assms, of r ctx nid d w]
  by (auto simp: node_succeeded_eq goes_on_def advance_Next split: prod.splits option.splits)

lemma run_step_progress:
  assumes e: "progressing_engine e" and s: "progressing s"
  shows "run_step (progress_engine e) ctx sid s w = run_step e ctx sid s w \<and> goes_on (run_step e ctx sid s w)"
proof -
  have "process_step (progress_engine e) g ctx sid node s w = process_step e g ctx sid node s w
      \<and> goes_on (process_step e g ctx sid node s w)"
    if g: "e_graph e = Some g" "Graph_Node g (LastNodeID s) = Some node" for g node
  proof -
    obtain s1 w1 where s1: "fireHooks_at e s (before_node s) w = (s1, w1)" by fastforce
    obtain t0 w2 where t0: "rt_Now (e_rt e) w1 = (t0, w2)" by fastforce
    obtain err s2 res w3 where p: "processNodeWithRetry e ctx node s1 w2 = (err, s2, res, w3)" by (metis surj_pair)
    obtain t1 w4 where t1: "rt_Now (e_rt e) w3 = (t1, w4)" by fastforce
    have "progressing_node node" using e g Graph_Node_in [OF g(2)] by (auto simp: progressing_engine_def)
    from process_progressing [OF this fireHooks_at_progressing [OF e s s1] p]
    have s2: "progressing s2" and res: "\<And>r t. res = Some r \<Longrightarrow> nr_State r = RNew t \<Longrightarrow> progressing t" by blast+
    let ?s = "s2\<lparr>StepCount := StepCount s2 + 1\<rparr>"
    have ps: "process_step e' g ctx sid node s w = (case err of
        Some er \<Rightarrow> node_failed e' ctx sid (LastNodeID s) (t1 - t0) er ?s w4
      | None \<Rightarrow> (case res of None \<Rightarrow> Crash NilDereference w4 | Some r \<Rightarrow> node_succeeded e' g ctx sid (LastNodeID s) (t1 - t0) r ?s w4))"
      if "e' \<in> {e, progress_engine e}" for e'
      using that s1 t0 p t1 by (auto simp: process_step_def Let_def)
    show ?thesis
    proof (cases "err = None \<and> res \<noteq> None")
      case True
      then obtain r where "res = Some r" by blast
      with True ps node_succeeded_progress [OF e, of ?s r g ctx sid "LastNodeID s" "t1 - t0" w4] s2 res show ?thesis by simp
    next
      case False
      then show ?thesis by (auto simp: ps node_failed_progress goes_on_def split: option.splits)
    qed
  qed
  then show ?thesis
    by (simp add: run_step_def goes_on_def case_prod_beta split: option.split sum.split)
qed

lemma reach_progress:
  assumes "engine_reach e ctx sid c d" and "progressing_engine e" and "progressing (fst c)"
  shows "engine_reach (progress_engine e) ctx sid c d \<and> progressing (fst d)"
  using assms(1,3)
proof (induction rule: engine_reach.induct)
  case (step c d f)
  obtain s w s' w' where d: "d = (s, w)" "f = (s', w')" by (metis surj_pair)
  with step.hyps(2) have n: "run_step e ctx sid s w = Next s' w'" by (simp add: engine_step_iff)
  from step.IH [OF step.prems] d(1) have r: "engine_reach (progress_engine e) ctx sid c d" "progressing s" by simp_all
  from run_step_progress [OF assms(2) r(2), of ctx sid w] n d
  have "engine_step (progress_engine e) ctx sid d f" "progressing s'" by (simp_all add: engine_step_iff goes_on_def)
  with r(1) d show ?case by (auto intro: engine_reach.step)
qed (simp add: engine_reach.start)

text \<open>What the operations keep, status updates taken only with \<open>working\<close> and \<open>failed\<close>, a run keeps.\<close>

lemma run_keeps_progress:
  assumes "progressing_engine e" and "inv_kept I (progress_engine e)" and "I w" and "progressing s"
    and "loop e ctx sid s w = Some (Returned so err v)"
  shows "I v"
proof -
  obtain s' w' where r: "engine_reach e ctx sid (s, w) (s', w')" "case run_step e ctx sid s' w' of Next _ _ \<Rightarrow> False
      | Done t er u \<Rightarrow> Returned so err v = Returned (Some t) er u | Crash p u \<Rightarrow> Returned so err v = Panicked p u"
    using loop_reaches [OF assms(5)] by blast
  with reach_progress [OF r(1) assms(1)] assms(4)
  have p: "engine_reach (progress_engine e) ctx sid (s, w) (s', w')" "progressing s'" by simp_all
  have "I w'" using reach_keep [OF p(1) assms(2)] assms(3) by simp
  from run_step_ok [OF assms(2) this, of ctx sid s'] run_step_progress [OF assms(1) p(2), of ctx sid w'] r(2)
  show ?thesis by (auto simp: step_ok_def split: step.splits)
qed

lemma Start_keeps_progress:
  assumes "progressing_engine e" and "inv_kept I (progress_engine e)" and "I w"
    and "Start e ctx sid st w = Some (Returned so err v)"
  shows "I v"
  using assms(4) unfolding Start_def runLoop_def Let_def
  by (auto split: if_splits option.splits intro!: run_keeps_progress [OF assms(1-3)])

end
