(* ===== verification/Server_Runs.thy ===== *)
theory Server_Runs
  imports A2A_Server Task_Progress
begin

text \<open>
  Invariants of a server over whole executions: what the operations of its stores, its clock and
  its audit log keep is kept by every request and by every background run, in any order of the
  two. Status updates count only with the task states that the server and the engine write.
\<close>

section \<open>What the handlers keep\<close>

definition server_keeps :: "('w \<Rightarrow> bool) \<Rightarrow> 'w Server \<Rightarrow> bool" where
  "server_keeps I S \<longleftrightarrow> (\<forall>w. I w \<longrightarrow>
     I (snd (sv_now S w)) \<and> I (snd (sv_uuid S w))
     \<and> (\<forall>ctx t. ts_State (t_Status t) \<in> {TaskStateSubmitted, TaskStateWorking} \<longrightarrow> I (snd (tk_Create (sv_taskStore S) ctx t w)))
     \<and> (\<forall>ctx tid. I (snd (tk_GetByID (sv_taskStore S) ctx tid w)))
     \<and> (\<forall>ctx tid st. ts_State st = TaskStateWorking \<longrightarrow> I (snd (tk_UpdateStatus (sv_taskStore S) ctx tid st w)))
     \<and> (\<forall>ctx tid m. I (snd (tk_AppendMessage (sv_taskStore S) ctx tid m w)))
     \<and> (\<forall>ctx tid c. I (snd (tk_AddWebhook (sv_taskStore S) ctx tid c w)))
     \<and> (\<forall>ctx cid. I (snd (tk_ListByContextID (sv_taskStore S) ctx cid w)))
     \<and> (\<forall>ctx ck. I (snd (ms_LoadCheckpoint (sv_memory S) ctx ck w)))
     \<and> (\<forall>ctx sid. I (snd (ms_ListCheckpoints (sv_memory S) ctx sid w)))
     \<and> (\<forall>get put h msg. sv_audit S = Some (get, put) \<longrightarrow> audit_log msg (get w) = Some h \<longrightarrow> I (put h w)))"

lemma server_keepsD:
  assumes "server_keeps I S" and "I w"
  shows "I (snd (sv_now S w))" and "I (snd (sv_uuid S w))"
    and "ts_State (t_Status t) \<in> {TaskStateSubmitted, TaskStateWorking} \<Longrightarrow> I (snd (tk_Create (sv_taskStore S) ctx t w))"
    and "I (snd (tk_GetByID (sv_taskStore S) ctx tid w))"
    and "ts_State st = TaskStateWorking \<Longrightarrow> I (snd (tk_UpdateStatus (sv_taskStore S) ctx tid st w))"
    and "I (snd (tk_AppendMessage (sv_taskStore S) ctx tid m w))"
    and "I (snd (tk_AddWebhook (sv_taskStore S) ctx tid c w))"
    and "I (snd (tk_ListByContextID (sv_taskStore S) ctx cid w))"
    and "I (snd (ms_LoadCheckpoint (sv_memory S) ctx ck w))"
    and "I (snd (ms_ListCheckpoints (sv_memory S) ctx sid w))"
    and "sv_audit S = Some (get, put) \<Longrightarrow> audit_log msg (get w) = Some h \<Longrightarrow> I (put h w)"
proof -
  note k = mp [OF spec [OF assms(1) [unfolded server_keeps_def], of w] assms(2)]
  show "I (snd (sv_now S w))" "I (snd (sv_uuid S w))"
    "ts_State (t_Status t) \<in> {TaskStateSubmitted, TaskStateWorking} \<Longrightarrow> I (snd (tk_Create (sv_taskStore S) ctx t w))"
    "I (snd (tk_GetByID (sv_taskStore S) ctx tid w))"
    "ts_State st = TaskStateWorking \<Longrightarrow> I (snd (tk_UpdateStatus (sv_taskStore S) ctx tid st w))"
    "I (snd (tk_AppendMessage (sv_taskStore S) ctx tid m w))" "I (snd (tk_AddWebhook (sv_taskStore S) ctx tid c w))"
    "I (snd (tk_ListByContextID (sv_taskStore S) ctx cid w))" "I (snd (ms_LoadCheckpoint (sv_memory S) ctx ck w))"
    "I (snd (ms_ListCheckpoints (sv_memory S) ctx sid w))"
    "sv_audit S = Some (get, put) \<Longrightarrow> audit_log msg (get w) = Some h \<Longrightarrow> I (put h w)"
    using k by (elim conjE; auto)+
qed

lemma log_rejected_keeps:
  "server_keeps I S \<Longrightarrow> I w \<Longrightarrow> I (snd (log_rejected S tid cid err w))"
  by (auto simp: log_rejected_def LogViolation_def server_keepsD split: option.split)

lemma continue_task_keeps:
  "server_keeps I S \<Longrightarrow> I w \<Longrightarrow> I (snd (snd (continue_task S ctx rid params t w)))"
  by (simp add: continue_task_def case_prod_beta Let_def server_keepsD)

lemma create_task_keeps:
  assumes "server_keeps I S" and "I w"
  shows "I (snd (snd (create_task S ctx rid tenant params w)))"
proof -
  have "I (snd (or_uuid S i v))" if "I v" for i v using that server_keepsD(2) [OF assms(1)] by (simp add: or_uuid_def)
  moreover have "I (snd (inherited_history S ctx cid v))" if "I v" for cid v
    using that server_keepsD(8) [OF assms(1)] by (simp add: inherited_history_def case_prod_beta split: sum.split)
  ultimately show ?thesis using assms
    by (simp add: create_task_def case_prod_beta Let_def server_keepsD split: option.split)
qed

lemma handleSendMessage_keeps:
  assumes "server_keeps I S" and "I w"
  shows "I (snd (snd (handleSendMessage S ctx req w)))"
  using assms
  by (simp add: handleSendMessage_def case_prod_beta Let_def server_keepsD log_rejected_keeps continue_task_keeps create_task_keeps
      split: option.split sum.split)

lemma handleJSONRPC_keeps:
  assumes "server_keeps I S" and "I w"
  shows "I (snd (snd (handleJSONRPC S ctx body w)))"
proof -
  have "I (snd (snd (handleGetTaskRPC S ctx req w)))" "I (snd (snd (handleCreatePushConfig S ctx req w)))" for req
    using assms by (simp_all add: handleGetTaskRPC_def handleCreatePushConfig_def case_prod_beta Let_def server_keepsD split: option.split sum.split)
  with handleSendMessage_keeps [OF assms] assms(2) show ?thesis by (simp add: handleJSONRPC_def split: option.split)
qed

lemma debug_handlers_keep:
  assumes "server_keeps I S" and "I w"
  shows "I (snd (snd (handleGetTimeline S ctx sid w)))" and "I (snd (snd (handleDiffCheckpoints S ctx a b w)))"
    and "I (snd (snd (handleReplayFrom S ctx ck w)))" and "I (snd (snd (handleGetTask S ctx tid w)))"
proof -
  have l: "I (snd (load_snapshots (sv_memory S) ctx ms v))" if "I v" for ms v
    using that by (induction ms arbitrary: v) (simp_all add: case_prod_beta server_keepsD [OF assms(1)] split: sum.split)
  show "I (snd (snd (handleGetTimeline S ctx sid w)))" "I (snd (snd (handleDiffCheckpoints S ctx a b w)))"
    "I (snd (snd (handleReplayFrom S ctx ck w)))" "I (snd (snd (handleGetTask S ctx tid w)))"
    using assms by (simp_all add: handleGetTimeline_def handleDiffCheckpoints_def handleReplayFrom_def handleGetTask_def GetTimeline_def
        DiffCheckpoints_def ReplayFrom_def case_prod_beta Let_def server_keepsD l split: sum.split option.split)
qed

lemma ServeHTTP_keeps:
  assumes "server_keeps I S" and "I w"
  shows "I (snd (snd (ServeHTTP S auth ctx route w)))"
proof -
  have "I (snd (Middleware (sv_jwt S) (e_rt (sv_engine S)) (sv_secret S) auth ctx w))"
    using assms by (auto simp: Middleware_def case_prod_beta server_keepsD split: list.split option.split)
  moreover have "I (snd (snd (handle_authenticated S c route v)))" if "I v" for c v
    using that handleJSONRPC_keeps [OF assms(1)] debug_handlers_keep [OF assms(1)] by (cases route) simp_all
  ultimately show ?thesis using assms(2)
    by (simp add: ServeHTTP_def case_prod_beta split: Route.split sum.split)
qed

section \<open>What an execution keeps\<close>

definition serving_keeps :: "('w \<Rightarrow> bool) \<Rightarrow> 'w Server \<Rightarrow> bool" where
  "serving_keeps I S \<longleftrightarrow> server_keeps I S \<and> progressing_engine (sv_engine S) \<and> inv_kept I (progress_engine (sv_engine S))"

lemma server_step_keeps:
  assumes "server_step S c d" and "serving_keeps I S" and "I (snd c)"
  shows "I (snd d)"
  using assms(1)
proof (cases rule: server_step.cases)
  case (request auth ctx route w rep js w' jobs)
  with assms(2,3) ServeHTTP_keeps [of I S w auth ctx route] show ?thesis by (simp add: serving_keeps_def)
next
  case (background jobs as j bs w so err w')
  with assms(2,3) show ?thesis by (auto simp: serving_keeps_def run_job_def intro: Start_keeps_progress)
qed

lemma server_run_keeps:
  assumes "(server_step S)\<^sup>*\<^sup>* c d" and "serving_keeps I S" and "I (snd c)"
  shows "I (snd d)"
  using assms(1,3) by (induction rule: rtranclp_induct) (auto intro: server_step_keeps [OF _ assms(2)])

text \<open>The runs that an accepted message starts begin at the entry of the graph.\<close>

lemma initial_state_fresh [simp]:
  "LastNodeID (initial_state tid cid h m) = []" "StepCount (initial_state tid cid h m) = 0" "Artifacts (initial_state tid cid h m) = []"
  by (simp_all add: initial_state_def WithMessage_def clone_def Let_def NewState_def)

definition fresh_job :: "job \<Rightarrow> bool" where
  "fresh_job j \<longleftrightarrow> (\<forall>s. snd j = Some s \<longrightarrow> LastNodeID s = [] \<and> StepCount s = 0 \<and> Artifacts s = [])"

lemma send_fresh:
  assumes "handleSendMessage S ctx req w = (rep, js, w')" and "j \<in> set js"
  shows "fresh_job j"
proof -
  have "fresh_job j" if "create_task S ctx rid tenant params u = (rep, js, w')" for rid tenant params u
    using that assms(2) unfolding create_task_def Let_def by (auto simp: fresh_job_def split: prod.splits option.splits)
  with assms show ?thesis unfolding handleSendMessage_def Let_def continue_task_def
    by (auto simp: fresh_job_def split: option.splits prod.splits if_splits sum.splits)
qed

end
