(* ===== verification/Redis_Driver.thy ===== *)
theory Redis_Driver
  imports Redis_Store Task_Store
begin

text \<open>
  The driver of \<open>storage/redis_driver.go\<close>, which the server binary hands to the Redis stores. The
  go-redis client it wraps is a record of operations, a parameter of the driver; what the driver
  relies on is the locale \<open>go_redis\<close>, the documented behaviour of the client: a command that
  fails changes nothing, and a pipeline is a batch of commands each of which runs by itself. A
  batch that is accepted or refused as a whole (\<open>go_redis_whole\<close>) makes the driver a
  \<open>redis_client\<close>, so that the stores keep their contracts on it. The section on a full server
  shows what the stores do when only a part of a batch runs.
\<close>

section \<open>The client of go-redis\<close>

text \<open>The commands that write.\<close>

datatype redis_op =
    OSet string redis_value duration
  | ORPush string "redis_value list"
  | OLTrim string int int
  | OZAdd string int redis_value
  | OZRemRangeByRank string int int

text \<open>
  \<open>uc_Do\<close> runs one writing command. \<open>uc_Pipelined\<close> takes a closure that adds to the queue of a new
  pipeline. \<open>uc_Nil\<close> is the error value \<open>redis.Nil\<close>.
\<close>

record 'w UniversalClient =
  uc_Get :: "Ctx \<Rightarrow> string \<Rightarrow> 'w \<Rightarrow> (go_error + redis_value) \<times> 'w"
  uc_LRange :: "Ctx \<Rightarrow> string \<Rightarrow> int \<Rightarrow> int \<Rightarrow> 'w \<Rightarrow> (go_error + redis_value list) \<times> 'w"
  uc_ZRange :: "Ctx \<Rightarrow> string \<Rightarrow> int \<Rightarrow> int \<Rightarrow> 'w \<Rightarrow> (go_error + redis_value list) \<times> 'w"
  uc_Do :: "Ctx \<Rightarrow> redis_op \<Rightarrow> 'w \<Rightarrow> go_error option \<times> 'w"
  uc_Pipelined :: "Ctx \<Rightarrow> (redis_op list \<Rightarrow> go_error option \<times> redis_op list) \<Rightarrow> 'w \<Rightarrow> go_error option \<times> 'w"
  uc_Nil :: go_error

section \<open>The driver (storage/redis\_driver.go)\<close>

text \<open>\<open>parse\<close>, \<open>client\<close> and \<open>ping\<close> are \<open>redis.ParseURL\<close>, \<open>redis.NewClient\<close> and the client's \<open>Ping\<close>.\<close>

definition NewRedisDriver ::
  "(string \<Rightarrow> go_error + 'o) \<Rightarrow> ('o \<Rightarrow> int \<Rightarrow> 'w UniversalClient) \<Rightarrow> ('w UniversalClient \<Rightarrow> Ctx \<Rightarrow> 'w \<Rightarrow> go_error option \<times> 'w)
    \<Rightarrow> string \<Rightarrow> int \<Rightarrow> 'w \<Rightarrow> (go_error + 'w UniversalClient) \<times> 'w" where
  "NewRedisDriver parse client ping url poolSize w = (case parse url of
     Inl err \<Rightarrow> (Inl err, w)
   | Inr opts \<Rightarrow> (let c = client opts poolSize in
       case ping c Background w of (Some err, w1) \<Rightarrow> (Inl err, w1) | (None, w1) \<Rightarrow> (Inr c, w1)))"

definition Driver_Get :: "'w UniversalClient \<Rightarrow> Ctx \<Rightarrow> string \<Rightarrow> 'w \<Rightarrow> (go_error + redis_value) \<times> 'w" where
  "Driver_Get C ctx key w = (case uc_Get C ctx key w of
     (Inl err, w1) \<Rightarrow> if err = uc_Nil C then (Inl (Sentinel ErrRedisKeyNotFound), w1) else (Inl err, w1)
   | (Inr val, w1) \<Rightarrow> (Inr val, w1))"

text \<open>
  The adapter that a transaction's closure sees. A writing command only enters the queue and has
  no error yet; a reading command answers with nothing.
\<close>

definition adapter_Get :: "string \<Rightarrow> redis_op list \<Rightarrow> (go_error + redis_value) \<times> redis_op list" where
  "adapter_Get key q = (Inr (DText []), q)"

definition adapter_Range :: "string \<Rightarrow> int \<Rightarrow> int \<Rightarrow> redis_op list \<Rightarrow> (go_error + redis_value list) \<times> redis_op list" where
  "adapter_Range key start stop q = (Inr [], q)"

definition adapter_Do :: "redis_op \<Rightarrow> redis_op list \<Rightarrow> go_error option \<times> redis_op list" where
  "adapter_Do c q = (None, q @ [c])"

definition adapter_TxExec :: "redis_cmd list \<Rightarrow> redis_op list \<Rightarrow> go_error option \<times> redis_op list" where
  "adapter_TxExec cmds q = (None, q)"

text \<open>A closure that issues a list of commands and returns on the first error.\<close>

fun op_of :: "redis_cmd \<Rightarrow> redis_op" where
  "op_of (CSet key value ttl) = OSet key value ttl"
| "op_of (CRPush key values) = ORPush key values"
| "op_of (CZAdd key score member) = OZAdd key score member"

fun run_closure :: "redis_cmd list \<Rightarrow> redis_op list \<Rightarrow> go_error option \<times> redis_op list" where
  "run_closure [] q = (None, q)"
| "run_closure (c # cs) q = (case adapter_Do (op_of c) q of
     (Some err, q1) \<Rightarrow> (Some err, q1) | (None, q1) \<Rightarrow> run_closure cs q1)"

definition Driver_TxExec :: "'w UniversalClient \<Rightarrow> Ctx \<Rightarrow> redis_cmd list \<Rightarrow> 'w \<Rightarrow> go_error option \<times> 'w" where
  "Driver_TxExec C ctx cmds w = uc_Pipelined C ctx (run_closure cmds) w"

text \<open>\<open>Set\<close> and \<open>ZAdd\<close> outside a transaction, which no store calls.\<close>

definition Driver_Set :: "'w UniversalClient \<Rightarrow> Ctx \<Rightarrow> string \<Rightarrow> redis_value \<Rightarrow> duration \<Rightarrow> 'w \<Rightarrow> go_error option \<times> 'w" where
  "Driver_Set C ctx key value ttl = uc_Do C ctx (OSet key value ttl)"

definition Driver_ZAdd :: "'w UniversalClient \<Rightarrow> Ctx \<Rightarrow> string \<Rightarrow> int \<Rightarrow> redis_value \<Rightarrow> 'w \<Rightarrow> go_error option \<times> 'w" where
  "Driver_ZAdd C ctx key score member = uc_Do C ctx (OZAdd key score member)"

definition GoRedisDriver :: "'w UniversalClient \<Rightarrow> 'w RedisClient" where
  "GoRedisDriver C = \<lparr>
     rc_Get = Driver_Get C,
     rc_RPush = (\<lambda>ctx key values. uc_Do C ctx (ORPush key values)),
     rc_LRange = uc_LRange C,
     rc_LTrim = (\<lambda>ctx key start stop. uc_Do C ctx (OLTrim key start stop)),
     rc_ZRange = uc_ZRange C,
     rc_ZRemRangeByRank = (\<lambda>ctx key start stop. uc_Do C ctx (OZRemRangeByRank key start stop)),
     rc_TxExec = Driver_TxExec C\<rparr>"

lemma GoRedisDriver_simps [simp]:
  "rc_Get (GoRedisDriver C) = Driver_Get C" "rc_LRange (GoRedisDriver C) = uc_LRange C" "rc_ZRange (GoRedisDriver C) = uc_ZRange C"
  "rc_RPush (GoRedisDriver C) ctx k vs = uc_Do C ctx (ORPush k vs)"
  "rc_LTrim (GoRedisDriver C) ctx k i j = uc_Do C ctx (OLTrim k i j)"
  "rc_ZRemRangeByRank (GoRedisDriver C) ctx k i j = uc_Do C ctx (OZRemRangeByRank k i j)"
  "rc_TxExec (GoRedisDriver C) = Driver_TxExec C"
  by (simp_all add: GoRedisDriver_def)

text \<open>A closure of a store never fails and queues its commands in order.\<close>

lemma run_closure_eq [simp]: "run_closure cmds q = (None, q @ map op_of cmds)"
  by (induction cmds arbitrary: q) (simp_all add: adapter_Do_def)

section \<open>What go-redis promises\<close>

text \<open>The strings, lists and sorted sets of a database, and what a command does to them.\<close>

type_synonym redis_views =
  "(string \<Rightarrow> redis_value option) \<times> (string \<Rightarrow> redis_value list) \<times> (string \<Rightarrow> (int \<times> redis_value) list)"

fun op_effect :: "redis_op \<Rightarrow> redis_views \<Rightarrow> redis_views \<Rightarrow> bool" where
  "op_effect (OSet k v ttl) (s, l, z) v' \<longleftrightarrow> v' = (s(k \<mapsto> v), l, z)"
| "op_effect (ORPush k vs) (s, l, z) v' \<longleftrightarrow> v' = (s, l(k := l k @ vs), z)"
| "op_effect (OLTrim k i j) (s, l, z) v' \<longleftrightarrow> v' = (s, l(k := redis_range i j (l k)), z)"
| "op_effect (OZAdd k score x) (s, l, z) v' \<longleftrightarrow> (\<exists>z'. v' = (s, l, z') \<and> cmd_zsets (CZAdd k score x) z z')"
| "op_effect (OZRemRangeByRank k i j) (s, l, z) v' \<longleftrightarrow> v' = (s, l, z(k := redis_remove_range i j (z k)))"

fun ops_effect :: "redis_op list \<Rightarrow> redis_views \<Rightarrow> redis_views \<Rightarrow> bool" where
  "ops_effect [] v v' \<longleftrightarrow> v' = v"
| "ops_effect (c # cs) v v' \<longleftrightarrow> (\<exists>u. op_effect c v u \<and> ops_effect cs u v')"

text \<open>
  The healthy connection of \<open>redis_client\<close>, one level lower. A pipeline whose closure fails is not
  sent. One that is sent and reports no error has run every command in order; one that reports an
  error has run some of them.
\<close>

locale go_redis =
  fixes C :: "'w UniversalClient"
    and inv :: "'w \<Rightarrow> bool"
    and str :: "'w \<Rightarrow> string \<Rightarrow> redis_value option"
    and lst :: "'w \<Rightarrow> string \<Rightarrow> redis_value list"
    and zst :: "'w \<Rightarrow> string \<Rightarrow> (int \<times> redis_value) list"
  assumes get: "inv w \<Longrightarrow> uc_Get C ctx k w = ((case str w k of None \<Rightarrow> Inl (uc_Nil C) | Some v \<Rightarrow> Inr v), w)"
    and lrange: "inv w \<Longrightarrow> uc_LRange C ctx k i j w = (Inr (redis_range i j (lst w k)), w)"
    and zrange: "inv w \<Longrightarrow> uc_ZRange C ctx k i j w = (Inr (map snd (redis_range i j (zst w k))), w)"
    and do_ok: "inv w \<Longrightarrow> uc_Do C ctx c w = (None, w') \<Longrightarrow> inv w' \<and> op_effect c (str w, lst w, zst w) (str w', lst w', zst w')"
    and do_failed: "inv w \<Longrightarrow> uc_Do C ctx c w = (Some e, w') \<Longrightarrow> inv w' \<and> (str w', lst w', zst w') = (str w, lst w, zst w)"
    and pipe_refused: "inv w \<Longrightarrow> fn [] = (Some e, q) \<Longrightarrow> uc_Pipelined C ctx fn w = (Some e, w)"
    and pipe_ok: "inv w \<Longrightarrow> fn [] = (None, q) \<Longrightarrow> uc_Pipelined C ctx fn w = (None, w')
      \<Longrightarrow> inv w' \<and> ops_effect q (str w, lst w, zst w) (str w', lst w', zst w')"
    and pipe_failed: "inv w \<Longrightarrow> fn [] = (None, q) \<Longrightarrow> uc_Pipelined C ctx fn w = (Some e, w')
      \<Longrightarrow> inv w' \<and> (\<exists>q' \<in> set (subseqs q). ops_effect q' (str w, lst w, zst w) (str w', lst w', zst w'))"

text \<open>A connection on which a batch that fails has not run at all; \<open>gen\<close> and \<open>clock\<close> as in \<open>redis_client\<close>.\<close>

locale go_redis_whole = go_redis C inv str lst zst
  for C :: "'w UniversalClient" and inv str lst zst +
  fixes gen :: "'w \<Rightarrow> string \<times> 'w"
    and clock :: "'w \<Rightarrow> time \<times> 'w"
  assumes pipe_whole: "inv w \<Longrightarrow> fn [] = (None, q) \<Longrightarrow> uc_Pipelined C ctx fn w = (Some e, w')
      \<Longrightarrow> (str w', lst w', zst w') = (str w, lst w, zst w)"
    and gen: "inv w \<Longrightarrow> gen w = (u, w') \<Longrightarrow> inv w' \<and> str w' = str w \<and> lst w' = lst w \<and> zst w' = zst w"
    and gen_format: "inv w \<Longrightarrow> gen w = (u, w') \<Longrightarrow> CHR '':'' \<notin> set u"
    and clock: "inv w \<Longrightarrow> clock w = (t, w') \<Longrightarrow> inv w' \<and> str w' = str w \<and> lst w' = lst w \<and> zst w' = zst w"

lemma op_of_effect: "op_effect (op_of c) (s, l, z) (s', l', z') \<longleftrightarrow> s' = cmd_strings c s \<and> l' = cmd_lists c l \<and> cmd_zsets c z z'"
  by (cases c) auto

lemma cmds_effect:
  "ops_effect (map op_of cmds) (s, l, z) (s', l', z')
    \<Longrightarrow> s' = fold cmd_strings cmds s \<and> l' = fold cmd_lists cmds l \<and> cmds_zsets cmds z z'"
proof (induction cmds arbitrary: s l z)
  case (Cons c cmds)
  then obtain s1 l1 z1 where "op_effect (op_of c) (s, l, z) (s1, l1, z1)" "ops_effect (map op_of cmds) (s1, l1, z1) (s', l', z')"
    by auto
  with Cons.IH [of s1 l1 z1] show ?case by (auto simp: op_of_effect)
qed simp

context go_redis
begin

lemma driver_get:
  "inv w \<Longrightarrow> Driver_Get C ctx k w = ((case str w k of None \<Rightarrow> Inl (Sentinel ErrRedisKeyNotFound) | Some v \<Rightarrow> Inr v), w)"
  by (simp add: Driver_Get_def get split: option.split)

lemma driver_tx:
  assumes "inv w" and "Driver_TxExec C ctx cmds w = (None, w')"
  shows "inv w' \<and> str w' = fold cmd_strings cmds (str w) \<and> lst w' = fold cmd_lists cmds (lst w) \<and> cmds_zsets cmds (zst w) (zst w')"
  using pipe_ok [of w "run_closure cmds" "map op_of cmds" ctx w'] assms cmds_effect
  unfolding Driver_TxExec_def by (metis append_Nil run_closure_eq)

text \<open>A transaction that fails has run some of its commands, in their order.\<close>

lemma driver_tx_failed:
  assumes "inv w" and "Driver_TxExec C ctx cmds w = (Some e, w')"
  shows "inv w' \<and> (\<exists>q \<in> set (subseqs (map op_of cmds)). ops_effect q (str w, lst w, zst w) (str w', lst w', zst w'))"
  using pipe_failed [of w "run_closure cmds" "map op_of cmds" ctx e w'] assms by (simp add: Driver_TxExec_def)

end

sublocale go_redis_whole \<subseteq> driver: redis_client "GoRedisDriver C" gen clock inv str lst zst
proof (unfold_locales, unfold GoRedisDriver_simps)
  fix w ctx cmds e w'
  assume "inv w" "Driver_TxExec C ctx cmds w = (Some e, w')"
  then show "inv w' \<and> str w' = str w \<and> lst w' = lst w \<and> zst w' = zst w"
    using driver_tx_failed [of w ctx cmds e w'] pipe_whole [of w "run_closure cmds" "map op_of cmds" ctx e w']
    by (simp add: Driver_TxExec_def)
next
  fix w ctx k i j res w'
  assume "inv w" "uc_Do C ctx (OZRemRangeByRank k i j) w = (res, w')"
  then show "inv w' \<and> str w' = str w \<and> lst w' = lst w
      \<and> zst w' = (if res = None then (zst w)(k := redis_remove_range i j (zst w k)) else zst w)"
    using do_ok [of w ctx "OZRemRangeByRank k i j" w'] do_failed [of w ctx "OZRemRangeByRank k i j" _ w'] by (cases res) auto
next
  fix w ctx k vs w'
  assume "inv w" "uc_Do C ctx (ORPush k vs) w = (None, w')"
  then show "inv w' \<and> str w' = str w \<and> lst w' = (lst w)(k := lst w k @ vs) \<and> zst w' = zst w"
    using do_ok [of w ctx "ORPush k vs" w'] by simp
next
  fix w ctx k vs e w'
  assume "inv w" "uc_Do C ctx (ORPush k vs) w = (Some e, w')"
  then show "inv w' \<and> str w' = str w \<and> lst w' = lst w \<and> zst w' = zst w"
    using do_failed [of w ctx "ORPush k vs" e w'] by simp
next
  fix w ctx k i j w'
  assume "inv w" "uc_Do C ctx (OLTrim k i j) w = (None, w')"
  then show "inv w' \<and> str w' = str w \<and> lst w' = (lst w)(k := redis_range i j (lst w k)) \<and> zst w' = zst w"
    using do_ok [of w ctx "OLTrim k i j" w'] by simp
qed (rule driver_get lrange zrange driver_tx gen gen_format clock; assumption)+

context go_redis_whole
begin

lemma driver_contract: "redis_client (GoRedisDriver C) gen clock inv str lst zst"
  by (rule driver.redis_client_axioms)

end

section \<open>A server with a limit\<close>

text \<open>
  A Redis server that accepts a number of further writing commands and answers the others with an
  error, as one does that has reached its \<open>maxmemory\<close>; \<open>None\<close>: there is no limit. A pipeline hands
  it every queued command and returns the first error.
\<close>

record limited_world = redis_world +
  lw_limit :: "nat option"

definition oom_error :: go_error where
  "oom_error = ErrorText ''OOM command not allowed when used memory > 'maxmemory'.''"

fun run_op :: "redis_op \<Rightarrow> limited_world \<Rightarrow> limited_world" where
  "run_op (OSet k v ttl) w = run_cmd (CSet k v ttl) w"
| "run_op (ORPush k vs) w = run_cmd (CRPush k vs) w"
| "run_op (OLTrim k i j) w = w\<lparr>rw_lists := (rw_lists w)(k := redis_range i j (rw_lists w k))\<rparr>"
| "run_op (OZAdd k score x) w = run_cmd (CZAdd k score x) w"
| "run_op (OZRemRangeByRank k i j) w = w\<lparr>rw_zsets := (rw_zsets w)(k := redis_remove_range i j (rw_zsets w k))\<rparr>"

definition limited_do :: "redis_op \<Rightarrow> limited_world \<Rightarrow> go_error option \<times> limited_world" where
  "limited_do c w = (if lw_limit w = Some 0 then (Some oom_error, w)
     else (None, (run_op c w)\<lparr>lw_limit := map_option (\<lambda>n. n - 1) (lw_limit w)\<rparr>))"

fun limited_batch :: "redis_op list \<Rightarrow> limited_world \<Rightarrow> go_error option \<times> limited_world" where
  "limited_batch [] w = (None, w)"
| "limited_batch (c # cs) w = (case limited_do c w of (e1, w1) \<Rightarrow> case limited_batch cs w1 of (e2, w2) \<Rightarrow>
     (if e1 \<noteq> None then e1 else e2, w2))"

definition limited_redis :: "limited_world UniversalClient" where
  "limited_redis = \<lparr>
     uc_Get = (\<lambda>ctx k w. (case glookup (rw_strings w) k of None \<Rightarrow> Inl (ErrorText ''redis: nil'') | Some v \<Rightarrow> Inr v, w)),
     uc_LRange = (\<lambda>ctx k i j w. (Inr (redis_range i j (rw_lists w k)), w)),
     uc_ZRange = (\<lambda>ctx k i j w. (Inr (map snd (redis_range i j (rw_zsets w k))), w)),
     uc_Do = (\<lambda>ctx. limited_do),
     uc_Pipelined = (\<lambda>ctx fn w. case fn [] of (Some e, q) \<Rightarrow> (Some e, w) | (None, q) \<Rightarrow> limited_batch q w),
     uc_Nil = ErrorText ''redis: nil''\<rparr>"

lemma limited_redis_simps [simp]:
  "uc_Nil limited_redis = ErrorText ''redis: nil''" "uc_Do limited_redis ctx = limited_do"
  "uc_Get limited_redis ctx k w = (case glookup (rw_strings w) k of None \<Rightarrow> Inl (ErrorText ''redis: nil'') | Some v \<Rightarrow> Inr v, w)"
  "uc_LRange limited_redis ctx k i j w = (Inr (redis_range i j (rw_lists w k)), w)"
  "uc_ZRange limited_redis ctx k i j w = (Inr (map snd (redis_range i j (rw_zsets w k))), w)"
  "uc_Pipelined limited_redis ctx fn w = (case fn [] of (Some e, q) \<Rightarrow> (Some e, w) | (None, q) \<Rightarrow> limited_batch q w)"
  by (simp_all add: limited_redis_def)

abbreviation limited_views :: "limited_world \<Rightarrow> redis_views" where
  "limited_views w \<equiv> (glookup (rw_strings w), rw_lists w, rw_zsets w)"

lemma run_op_effect:
  assumes "redis_ok w"
  shows "redis_ok (run_op c w) \<and> op_effect c (limited_views w) (limited_views (run_op c w))"
proof (cases c)
  case (OZAdd k score x)
  with run_cmd_views [OF assms, of "CZAdd k score x"] show ?thesis by auto
qed (use assms in \<open>auto simp: redis_ok_def zset_ok_remove_range\<close>)

lemma limited_do_effect:
  assumes "redis_ok w" and "limited_do c w = (e, w')"
  shows "redis_ok w' \<and> (if e = None then op_effect c (limited_views w) (limited_views w') else w' = w)"
  using run_op_effect [OF assms(1), of c] assms by (auto simp: limited_do_def redis_ok_def split: if_splits)

lemma limited_batch_effect:
  assumes "redis_ok w" and "limited_batch q w = (e, w')"
  shows "redis_ok w' \<and> (e = None \<longrightarrow> ops_effect q (limited_views w) (limited_views w'))
    \<and> (\<exists>q' \<in> set (subseqs q). ops_effect q' (limited_views w) (limited_views w'))"
  using assms
proof (induction q arbitrary: w e)
  case (Cons c q)
  obtain e1 w1 where c: "limited_do c w = (e1, w1)" by fastforce
  obtain e2 where q: "limited_batch q w1 = (e2, w')" "e = (if e1 \<noteq> None then e1 else e2)"
    using Cons.prems(2) c by (auto split: prod.splits)
  note d = limited_do_effect [OF Cons.prems(1) c]
  then have IH: "redis_ok w'" "e2 = None \<longrightarrow> ops_effect q (limited_views w1) (limited_views w')"
    "\<exists>q' \<in> set (subseqs q). ops_effect q' (limited_views w1) (limited_views w')"
    using Cons.IH [OF _ q(1)] by auto
  show ?case
  proof (cases e1)
    case None
    then have c1: "op_effect c (limited_views w) (limited_views w1)" using d by simp
    obtain q' where q': "q' \<in> set (subseqs q)" "ops_effect q' (limited_views w1) (limited_views w')" using IH(3) by blast
    have "c # q' \<in> set (subseqs (c # q))" using q'(1) by (simp add: Let_def)
    moreover have "ops_effect (c # q') (limited_views w) (limited_views w')" using c1 q'(2) by (simp only: ops_effect.simps) blast
    ultimately have "\<exists>q' \<in> set (subseqs (c # q)). ops_effect q' (limited_views w) (limited_views w')" by blast
    moreover have "e = None \<longrightarrow> ops_effect (c # q) (limited_views w) (limited_views w')"
      using None q(2) c1 IH(2) by (simp only: ops_effect.simps) auto
    ultimately show ?thesis using IH(1) by blast
  next
    case (Some x)
    then have "w1 = w" "e \<noteq> None" using d q(2) by simp_all
    with IH(1,3) show ?thesis by (auto simp: Let_def)
  qed
qed simp

interpretation limited: go_redis limited_redis redis_ok "\<lambda>w. glookup (rw_strings w)" rw_lists rw_zsets
proof unfold_locales
  fix w :: limited_world and fn :: "redis_op list \<Rightarrow> go_error option \<times> redis_op list" and q ctx w'
  assume "redis_ok w" "fn [] = (None, q)" "uc_Pipelined limited_redis ctx fn w = (None, w')"
  then show "redis_ok w' \<and> ops_effect q (limited_views w) (limited_views w')"
    using limited_batch_effect [of w q None w'] by simp
next
  fix w :: limited_world and fn :: "redis_op list \<Rightarrow> go_error option \<times> redis_op list" and q ctx e w'
  assume "redis_ok w" "fn [] = (None, q)" "uc_Pipelined limited_redis ctx fn w = (Some e, w')"
  then show "redis_ok w' \<and> (\<exists>q' \<in> set (subseqs q). ops_effect q' (limited_views w) (limited_views w'))"
    using limited_batch_effect [of w q "Some e" w'] by simp
next
  fix w :: limited_world and ctx c w'
  assume "redis_ok w" "uc_Do limited_redis ctx c w = (None, w')"
  then show "redis_ok w' \<and> op_effect c (limited_views w) (limited_views w')"
    using limited_do_effect [of w c None w'] by simp
next
  fix w :: limited_world and ctx c e w'
  assume "redis_ok w" "uc_Do limited_redis ctx c w = (Some e, w')"
  then show "redis_ok w' \<and> limited_views w' = limited_views w"
    using limited_do_effect [of w c "Some e" w'] by simp
qed (auto split: option.split)

lemma unlimited_batch: "lw_limit w = None \<Longrightarrow> limited_batch q w = (e, w') \<Longrightarrow> e = None \<and> lw_limit w' = None"
proof (induction q arbitrary: w e)
  case (Cons c q)
  then have "lw_limit (snd (limited_do c w)) = None" "fst (limited_do c w) = None" by (simp_all add: limited_do_def)
  with Cons show ?case by (auto split: prod.splits)
qed simp

text \<open>Without a limit no batch fails, and the driver has the contract of the stores' client.\<close>

interpretation unlimited: go_redis_whole limited_redis "\<lambda>w. redis_ok w \<and> lw_limit w = None"
  "\<lambda>w. glookup (rw_strings w)" rw_lists rw_zsets redis_gen redis_clock
proof unfold_locales
  fix w :: limited_world and fn :: "redis_op list \<Rightarrow> go_error option \<times> redis_op list" and q ctx w'
  assume "redis_ok w \<and> lw_limit w = None" "fn [] = (None, q)" "uc_Pipelined limited_redis ctx fn w = (None, w')"
  then show "(redis_ok w' \<and> lw_limit w' = None) \<and> ops_effect q (limited_views w) (limited_views w')"
    using limited.pipe_ok [of w fn q ctx w'] unlimited_batch [of w q None w'] by simp
next
  fix w :: limited_world and fn :: "redis_op list \<Rightarrow> go_error option \<times> redis_op list" and q ctx e w'
  assume "redis_ok w \<and> lw_limit w = None" "fn [] = (None, q)" "uc_Pipelined limited_redis ctx fn w = (Some e, w')"
  then have False using unlimited_batch [of w q "Some e" w'] by simp
  then show "(redis_ok w' \<and> lw_limit w' = None) \<and> (\<exists>q' \<in> set (subseqs q). ops_effect q' (limited_views w) (limited_views w'))"
    "limited_views w' = limited_views w" by simp_all
next
  fix w :: limited_world and ctx c w'
  assume "redis_ok w \<and> lw_limit w = None" "uc_Do limited_redis ctx c w = (None, w')"
  then show "(redis_ok w' \<and> lw_limit w' = None) \<and> op_effect c (limited_views w) (limited_views w')"
    using limited.do_ok [of w ctx c w'] by (auto simp: limited_do_def)
qed (auto simp: limited_do_def redis_gen_def redis_clock_def redis_ok_def split: option.split)

section \<open>Properties\<close>

lemma limited_Save:
  assumes "state_json_ok st"
  shows "Redis_Save (GoRedisDriver limited_redis) redis_gen redis_clock s ctx sid st w =
    (let u = replicate (rw_uuids w) (CHR ''x''); k1 = stateKey s (tenantFromCtx ctx) sid; k2 = ckptDataKey s u; k3 = ckptIndexKey s (tenantFromCtx ctx) sid;
         c = DMeta \<lparr>ck_CheckpointID = u, ck_SessionID = sid, ck_CreatedAt = rw_clock w\<rparr>;
         (e, w') = limited_batch [OSet k1 (DState (json_state st)) (rs_stateTTL s), OSet k2 (DState (json_state st)) (rs_stateTTL s * 2),
           OZAdd k3 (UnixMilli (rw_clock w)) c] (w\<lparr>rw_uuids := Suc (rw_uuids w)\<rparr>)
     in (case e of None \<Rightarrow> Inr u | Some err \<Rightarrow> Inl err, w'))"
  using assms by (simp add: Redis_Save_def redis_gen_def redis_clock_def marshal_state_def Driver_TxExec_def Let_def
      split: prod.splits option.splits)

text \<open>
  C10: a save through the driver is not all or nothing. On a server that accepts \<open>n\<close> more
  writing commands, a save of three commands is reported as failed when \<open>n < 3\<close>. The interface
  says that the commands of a transaction execute atomically; the driver sends them as a pipeline,
  so that after a failed save with \<open>0 < n < 3\<close> the session reads as the new state although the
  checkpoint is in no list. With \<open>3 \<le> n\<close> the save succeeds, and session and checkpoint read back.
\<close>

theorem redis_driver_save_torn:
  assumes "redis_ok w" and "lw_limit w = Some n" and "state_json_ok st"
    and "Redis_Save (GoRedisDriver limited_redis) redis_gen redis_clock s ctx sid st w = (res, w')"
  shows "if 3 \<le> n
    then \<exists>ck. res = Inr ck \<and> fst (Redis_Load (GoRedisDriver limited_redis) s ctx sid w') = Inr (json_state st)
      \<and> fst (Redis_LoadCheckpoint (GoRedisDriver limited_redis) s ctx ck w') = Inr (json_state st)
    else res = Inl oom_error
      \<and> fst (Redis_Load (GoRedisDriver limited_redis) s ctx sid w')
          = (if n = 0 then fst (Redis_Load (GoRedisDriver limited_redis) s ctx sid w) else Inr (json_state st))
      \<and> fst (Redis_ListCheckpoints (GoRedisDriver limited_redis) s ctx sid w')
          = fst (Redis_ListCheckpoints (GoRedisDriver limited_redis) s ctx sid w)"
proof -
  let ?k = "stateKey s (tenantFromCtx ctx) sid" and ?u = "replicate (rw_uuids w) (CHR ''x'')"
  have k: "?k \<noteq> ckptDataKey s ?u" using ckptDataKey_stateKey [of ?u s "tenantFromCtx ctx" sid] by (simp add: no_colon_def)
  have load: "fst (Redis_Load (GoRedisDriver limited_redis) s ctx sid v) = (case glookup (rw_strings v) ?k of
      None \<Rightarrow> Inl (ErrorText (''session '' @ sid @ '' not found''))
    | Some (DState st) \<Rightarrow> Inr st | Some _ \<Rightarrow> Inl (ErrorText ''json: cannot unmarshal''))" for v
    by (simp add: Redis_Load_def Driver_Get_def  split: option.split redis_value.split)
  have index: "fst (Redis_ListCheckpoints (GoRedisDriver limited_redis) s ctx sid v)
      = Inr (rev (decode_metas (map snd (rw_zsets v (ckptIndexKey s (tenantFromCtx ctx) sid)))))" for v
    by (simp add: Redis_ListCheckpoints_def  redis_range_all)
  have ckpt: "fst (Redis_LoadCheckpoint (GoRedisDriver limited_redis) s ctx ck v) = Inr d"
    if "glookup (rw_strings v) (ckptDataKey s ck) = Some (DState d)" for ck v d
    using that by (simp add: Redis_LoadCheckpoint_def Driver_Get_def )
  consider "n = 0" | "n = 1" | "n = 2" | m where "n = Suc (Suc (Suc m))" by (metis One_nat_def numeral_2_eq_2 not0_implies_Suc)
  then show ?thesis
    using assms(2-4) k by cases (auto simp: limited_Save limited_do_def Let_def load index intro!: ckpt)
qed

theorem redis_driver_save_torn_witness:
  "\<exists>w'. Redis_Save (GoRedisDriver limited_redis) redis_gen redis_clock \<lparr>rs_keyPrefix = ''p'', rs_stateTTL = 0, rs_maxCheckpoints = 50, rs_maxMessages = 200\<rparr>
      Background ''s'' NewState (redis_world.extend new_redis \<lparr>lw_limit = Some 1\<rparr>) = (Inl oom_error, w')
    \<and> fst (Redis_Load (GoRedisDriver limited_redis) \<lparr>rs_keyPrefix = ''p'', rs_stateTTL = 0, rs_maxCheckpoints = 50, rs_maxMessages = 200\<rparr>
        Background ''s'' w') = Inr (json_state NewState)"
proof -
  let ?s = "\<lparr>rs_keyPrefix = ''p'', rs_stateTTL = 0, rs_maxCheckpoints = 50, rs_maxMessages = 200\<rparr>"
    and ?w = "redis_world.extend new_redis \<lparr>lw_limit = Some 1\<rparr>"
  obtain res w' where r: "Redis_Save (GoRedisDriver limited_redis) redis_gen redis_clock ?s Background ''s'' NewState ?w = (res, w')" by fastforce
  have "redis_ok ?w" "lw_limit ?w = Some 1" "state_json_ok NewState"
    by (simp_all add: redis_ok_def zset_ok_def new_redis_def redis_world.defs state_json_ok_def NewState_def vars_json_ok_def)
  from redis_driver_save_torn [OF this r] r show ?thesis by auto
qed

end
