(* ===== verification/Main_Model.thy ===== *)
theory Main_Model
  imports Redis_Driver A2A_Server Postgres_Store
begin

text \<open>
  The configuration (\<open>config/config.go\<close>) and the wiring of the server binary
  (\<open>cmd/fluxgraph/main.go\<close>). The packages viper and validator, the clock, the UUID generator, the
  JWT package, the collectors, the sockets and the signals are parameters. The LLM provider that
  the binary makes is dropped at once, and left out here.
\<close>

section \<open>Configuration (config/config.go)\<close>

record AppConfig =
  ac_Name :: string
  ac_Env :: string
  ac_Port :: int
  ac_GRPCPort :: int
  ac_A2ASecret :: string

record RedisConfig =
  rcf_URL :: string
  rcf_PoolSize :: int
  rcf_TTL :: duration

record PostgresConfig =
  pcf_URL :: string
  pcf_MaxConns :: int

record StorageConfig =
  sc_Redis :: RedisConfig
  sc_Postgres :: PostgresConfig

record ProviderConfig =
  pc_APIKey :: string
  pc_BaseURL :: string
  pc_Model :: string
  pc_Timeout :: duration

record CircuitBreakerConfig =
  cb_MaxFailures :: int
  cb_Interval :: duration
  cb_Timeout :: duration

record ResiliencyConfig =
  rz_CircuitBreaker :: CircuitBreakerConfig

record LLMConfig =
  lc_OpenAI :: ProviderConfig
  lc_Anthropic :: ProviderConfig
  lc_Resiliency :: ResiliencyConfig

record ObservabilityConfig =
  oc_OtelEndpoint :: string
  oc_PrometheusPort :: int

record Config =
  cfg_App :: AppConfig
  cfg_Storage :: StorageConfig
  cfg_LLM :: LLMConfig
  cfg_Observability :: ObservabilityConfig

definition config_defaults :: gvars where
  "config_defaults =
     [(''app.name'', GString ''fluxgraph''), (''app.env'', GString ''development''), (''app.port'', GInt 8080),
      (''app.grpc_port'', GInt 50051), (''storage.redis.pool_size'', GInt 10),
      (''storage.redis.ttl'', GInt (24 * 3600 * 1000000000)), (''storage.postgres.max_conns'', GInt 20),
      (''observability.prometheus_port'', GInt 9090), (''llm.resiliency.circuit_breaker.max_failures'', GInt 5),
      (''llm.resiliency.circuit_breaker.interval'', GInt (60 * 1000000000)),
      (''llm.resiliency.circuit_breaker.timeout'', GInt (30 * 1000000000))]"

text \<open>Where viper looks: a file, or a name and a type in some directories.\<close>

datatype config_source = ConfigFile string | ConfigSearch string string "string list"

record viper =
  v_defaults :: gvars
  v_envPrefix :: string
  v_envReplacer :: "(string \<times> string) list"
  v_automaticEnv :: bool
  v_source :: config_source

definition config_viper :: "string \<Rightarrow> viper" where
  "config_viper path = \<lparr>v_defaults = config_defaults, v_envPrefix = ''FLUXGRAPH'', v_envReplacer = [(''.'', ''_'')], v_automaticEnv = True,
     v_source = (if path \<noteq> [] then ConfigFile path else ConfigSearch ''config'' ''yaml'' [''.'', ''./config''])\<rparr>"

text \<open>The outcome of \<open>ReadInConfig\<close>: a \<open>ConfigFileNotFoundError\<close> is told from other errors.\<close>

datatype config_read = ReadDone | ReadNotFound | ReadFailed go_error

record 'w ConfigEnv =
  ce_ReadInConfig :: "viper \<Rightarrow> 'w \<Rightarrow> config_read \<times> 'w"
  ce_Unmarshal :: "viper \<Rightarrow> 'w \<Rightarrow> (go_error + Config) \<times> 'w"
  ce_Validate :: "Config \<Rightarrow> go_error option"

definition LoadConfig :: "'w ConfigEnv \<Rightarrow> string \<Rightarrow> 'w \<Rightarrow> (go_error + Config) \<times> 'w" where
  "LoadConfig E path w = (let v = config_viper path in
     case ce_ReadInConfig E v w of
       (ReadFailed err, w1) \<Rightarrow> (Inl err, w1)
     | (_, w1) \<Rightarrow> (case ce_Unmarshal E v w1 of
         (Inl err, w2) \<Rightarrow> (Inl err, w2)
       | (Inr config, w2) \<Rightarrow> (case ce_Validate E config of
           Some err \<Rightarrow> (Inl err, w2) | None \<Rightarrow> (Inr config, w2))))"

text \<open>What the validation tags of the fields ask for.\<close>

definition config_tags :: "Config \<Rightarrow> bool" where
  "config_tags c \<longleftrightarrow> ac_Name (cfg_App c) \<noteq> [] \<and> ac_Env (cfg_App c) \<in> {''development'', ''production'', ''test''}
     \<and> ac_Port (cfg_App c) \<noteq> 0 \<and> ac_A2ASecret (cfg_App c) \<noteq> [] \<and> rcf_URL (sc_Redis (cfg_Storage c)) \<noteq> []
     \<and> pcf_URL (sc_Postgres (cfg_Storage c)) \<noteq> []"

section \<open>The server binary (cmd/fluxgraph/main.go)\<close>

text \<open>What the process gets from its libraries. The hooks reach their collectors through the world.\<close>

record 'w Platform =
  pf_runtime :: "'w Runtime"
  pf_uuid :: "'w \<Rightarrow> string \<times> 'w"
  pf_spans :: "'w \<Rightarrow> OtelTracingHook"
  pf_setSpans :: "OtelTracingHook \<Rightarrow> 'w \<Rightarrow> 'w"
  pf_metric :: "metric_call \<Rightarrow> 'w \<Rightarrow> gopanic option \<times> 'w"
  pf_audit :: "(('w \<Rightarrow> SecAuditLog) \<times> (SecAuditLog \<Rightarrow> 'w \<Rightarrow> 'w)) option"
  pf_codec :: RpcCodec
  pf_jwt :: Jwt
  pf_sorter :: "StateSnapshot list \<Rightarrow> StateSnapshot list"
  pf_render :: "gany \<Rightarrow> string"

definition otel_hook :: "'w Platform \<Rightarrow> 'w LifecycleHook" where
  "otel_hook P st meta w = (case Otel_OnHook st meta (pf_spans P w) of
     None \<Rightarrow> (Some NilDereference, st, w) | Some h \<Rightarrow> (None, st, pf_setSpans P h w))"

definition prometheus_hook :: "'w Platform \<Rightarrow> 'w LifecycleHook" where
  "prometheus_hook P st meta w = (case metric_calls (pf_metric P) (Prometheus_OnHook st meta) w of (p, w1) \<Rightarrow> (p, st, w1))"

text \<open>The graph of an empty builder: its error is dropped, and the pointer is nil with it.\<close>

definition main_graph :: "'w Graph option" where
  "main_graph = (case fst (Build NewBuilder) of Inl _ \<Rightarrow> None | Inr g \<Rightarrow> Some g)"

definition main_memory :: "'w Platform \<Rightarrow> 'w UniversalClient \<Rightarrow> Config \<Rightarrow> 'w MemoryStore" where
  "main_memory P C cfg = RedisMemoryStore_ops (GoRedisDriver C) (pf_uuid P) (rt_Now (pf_runtime P))
     (NewRedisMemoryStore \<lparr>rs_keyPrefix = [], rs_stateTTL = rcf_TTL (sc_Redis (cfg_Storage cfg)), rs_maxCheckpoints = 0, rs_maxMessages = 0\<rparr>)"

definition main_tasks :: "Config \<Rightarrow> RedisTaskStore" where
  "main_tasks cfg = NewRedisTaskStore ''fluxgraph'' (rcf_TTL (sc_Redis (cfg_Storage cfg)))"

definition main_engine :: "'w Platform \<Rightarrow> 'w UniversalClient \<Rightarrow> Config \<Rightarrow> 'w Engine" where
  "main_engine P C cfg = NewEngine (pf_runtime P) main_graph (main_memory P C cfg) None
     [WithHooks [otel_hook P, prometheus_hook P]]"

definition main_options :: "Config \<Rightarrow> ServerOptions" where
  "main_options cfg = \<lparr>so_Name = ac_Name (cfg_App cfg), so_Description = [], so_Version = ''1.0.0'',
     so_URL = ''http://localhost:'' @ itoa (ac_Port (cfg_App cfg)), so_Secret = ac_A2ASecret (cfg_App cfg)\<rparr>"

definition main_server :: "'w Platform \<Rightarrow> 'w UniversalClient \<Rightarrow> Config \<Rightarrow> 'w ConcreteToolRegistry \<Rightarrow> 'w Server" where
  "main_server P C cfg reg = NewServer (main_engine P C cfg)
     (RedisTaskStore_ops (GoRedisDriver C) (rt_Now (pf_runtime P)) (main_tasks cfg)) (main_memory P C cfg) reg False (main_options cfg)
     (pf_audit P) (pf_uuid P) (pf_codec P) (pf_jwt P) (pf_sorter P) (pf_render P)"

text \<open>The history store on PostgreSQL with its embedder, which only the search tool gets.\<close>

definition main_history :: "Codec \<Rightarrow> 'w HttpEnv \<Rightarrow> Config \<Rightarrow> 'w PostgresMemoryStore" where
  "main_history cd env cfg = NewPostgresMemoryStore \<lparr>pg_embedder = Some (EmbedText cd env (NewOpenAIEmbeddingProvider
       \<lparr>oo_APIKey = pc_APIKey (lc_OpenAI (cfg_LLM cfg)), oo_BaseURL = pc_BaseURL (lc_OpenAI (cfg_LLM cfg)), oo_Model = []\<rparr>)),
     pg_maxCheckpoints = 0, pg_maxMessages = 0\<rparr>"

text \<open>\<open>exec\<close> is the \<open>Execute\<close> of the search tool of a store.\<close>

definition main_registry ::
  "('w MemoryStore \<Rightarrow> Ctx \<Rightarrow> gvars \<Rightarrow> 'w \<Rightarrow> (go_error + string) \<times> 'w) \<Rightarrow> 'w Platform \<Rightarrow> 'w DBQuerier \<Rightarrow> 'w PostgresMemoryStore
    \<Rightarrow> 'w ConcreteToolRegistry" where
  "main_registry exec P D history =
     snd (Register NewConcreteToolRegistry (SearchMemoryTool (exec (PostgresMemoryStore_ops D (pf_uuid P) history))) [])"

text \<open>
  The start of the process up to the listeners: the first error is fatal. \<open>redis\<close> and \<open>postgres\<close>
  open the drivers, \<open>NewRedisDriver\<close> and \<open>NewPostgresDriver\<close> on their packages.
\<close>

definition main_start ::
  "'w ConfigEnv \<Rightarrow> (string \<Rightarrow> int \<Rightarrow> 'w \<Rightarrow> (go_error + 'w UniversalClient) \<times> 'w) \<Rightarrow> (string \<Rightarrow> int \<Rightarrow> 'w \<Rightarrow> (go_error + 'w DBQuerier) \<times> 'w)
    \<Rightarrow> 'w Platform \<Rightarrow> ('w MemoryStore \<Rightarrow> Ctx \<Rightarrow> gvars \<Rightarrow> 'w \<Rightarrow> (go_error + string) \<times> 'w) \<Rightarrow> Codec \<Rightarrow> 'w HttpEnv \<Rightarrow> 'w
    \<Rightarrow> (string \<times> go_error + Config \<times> 'w Server) \<times> 'w" where
  "main_start E redis postgres P exec cd env w = (case LoadConfig E [] w of
     (Inl err, w1) \<Rightarrow> (Inl (''failed to load configuration'', err), w1)
   | (Inr cfg, w1) \<Rightarrow> (case redis (rcf_URL (sc_Redis (cfg_Storage cfg))) (rcf_PoolSize (sc_Redis (cfg_Storage cfg))) w1 of
       (Inl err, w2) \<Rightarrow> (Inl (''failed to connect to redis'', err), w2)
     | (Inr C, w2) \<Rightarrow> (case postgres (pcf_URL (sc_Postgres (cfg_Storage cfg))) (pcf_MaxConns (sc_Postgres (cfg_Storage cfg))) w2 of
         (Inl err, w3) \<Rightarrow> (Inl (''failed to connect to postgres'', err), w3)
       | (Inr D, w3) \<Rightarrow> (Inr (cfg, main_server P C cfg (main_registry exec P D (main_history cd env cfg))), w3))))"

text \<open>
  The listening process. What happens to it is a list of events: a server goroutine returns (with
  the error that is fatal, if any: \<open>http.ErrServerClosed\<close> is not), or a signal arrives.
\<close>

datatype process_event = HttpStopped "go_error option" | GrpcStopped "go_error option" | Signalled

fun event_fatal :: "process_event \<Rightarrow> (string \<times> go_error) option" where
  "event_fatal (HttpStopped err) = map_option (Pair ''http server failed'') err"
| "event_fatal (GrpcStopped err) = map_option (Pair ''gRPC server failed'') err"
| "event_fatal Signalled = None"

text \<open>Waiting for the signal: the fatal error, or the events behind the signal.\<close>

fun main_wait :: "process_event list \<Rightarrow> (string \<times> go_error + process_event list) option" where
  "main_wait [] = None"
| "main_wait (ev # evs) = (case event_fatal ev of
     Some f \<Rightarrow> Some (Inl f) | None \<Rightarrow> if ev = Signalled then Some (Inr evs) else main_wait evs)"

text \<open>
  \<open>main\<close>: \<open>listen\<close> opens the gRPC socket, \<open>shutdown\<close> is \<open>Shutdown\<close> with its ten seconds, and the
  events behind the signal happen while it runs. \<open>None\<close>: the process still serves; \<open>Inl\<close>: it
  ended with a fatal error; \<open>Inr\<close>: it ended gracefully.
\<close>

definition main_run ::
  "'w ConfigEnv \<Rightarrow> (string \<Rightarrow> int \<Rightarrow> 'w \<Rightarrow> (go_error + 'w UniversalClient) \<times> 'w) \<Rightarrow> (string \<Rightarrow> int \<Rightarrow> 'w \<Rightarrow> (go_error + 'w DBQuerier) \<times> 'w)
    \<Rightarrow> 'w Platform \<Rightarrow> ('w MemoryStore \<Rightarrow> Ctx \<Rightarrow> gvars \<Rightarrow> 'w \<Rightarrow> (go_error + string) \<times> 'w) \<Rightarrow> Codec \<Rightarrow> 'w HttpEnv
    \<Rightarrow> (string \<Rightarrow> 'w \<Rightarrow> go_error option \<times> 'w) \<Rightarrow> (duration \<Rightarrow> 'w \<Rightarrow> go_error option \<times> 'w) \<Rightarrow> process_event list \<Rightarrow> 'w
    \<Rightarrow> (string \<times> go_error + unit) option \<times> 'w" where
  "main_run E redis postgres P exec cd env listen shutdown evs w = (case main_start E redis postgres P exec cd env w of
     (Inl f, w1) \<Rightarrow> (Some (Inl f), w1)
   | (Inr (cfg, S), w1) \<Rightarrow> (case listen ('':'' @ itoa (ac_GRPCPort (cfg_App cfg))) w1 of
       (Some err, w2) \<Rightarrow> (Some (Inl (''failed to listen for gRPC'', err)), w2)
     | (None, w2) \<Rightarrow> (case main_wait evs of
         None \<Rightarrow> (None, w2)
       | Some (Inl f) \<Rightarrow> (Some (Inl f), w2)
       | Some (Inr rest) \<Rightarrow> (case List.map_filter event_fatal rest of
           f # _ \<Rightarrow> (Some (Inl f), w2)
         | [] \<Rightarrow> (case shutdown 10000000000 w2 of
             (Some err, w3) \<Rightarrow> (Some (Inl (''http server forced to shutdown'', err)), w3)
           | (None, w3) \<Rightarrow> (Some (Inr ()), w3))))))"

section \<open>Lemmas\<close>

text \<open>A process that serves has a secret, if the validator keeps to the tags.\<close>

lemma main_start_validated:
  assumes "\<And>c. ce_Validate E c = None \<Longrightarrow> config_tags c" and "main_start E redis postgres P exec cd env w = (Inr (cfg, S), w')"
  shows "\<exists>C reg. S = main_server P C cfg reg \<and> config_tags cfg \<and> sv_secret S \<noteq> []"
proof -
  obtain C reg where c: "S = main_server P C cfg reg" "ce_Validate E cfg = None"
    using assms(2) unfolding main_start_def LoadConfig_def Let_def
    by (auto split: prod.splits sum.splits option.splits config_read.splits)
  with assms(1) have "config_tags cfg" by blast
  with c(1) show ?thesis by (auto simp: main_server_def NewServer_def main_options_def config_tags_def)
qed

text \<open>A graceful end: the process came up, a signal arrived, and no listener failed before the end.\<close>

lemma main_wait_signal:
  "main_wait evs = Some (Inr rest) \<longleftrightarrow> (\<exists>before. evs = before @ Signalled # rest \<and> Signalled \<notin> set before \<and> (\<forall>ev \<in> set before. event_fatal ev = None))"
proof (induction evs)
  case (Cons ev evs)
  show ?case
  proof (cases "ev = Signalled \<or> event_fatal ev \<noteq> None")
    case True
    then show ?thesis by (auto simp: Cons_eq_append_conv split: option.splits)
  next
    case False
    then have "event_fatal ev = None" "ev \<noteq> Signalled" by blast+
    then show ?thesis using Cons.IH by (auto simp: Cons_eq_append_conv)
  qed
qed simp

lemma main_run_graceful:
  assumes "main_run E redis postgres P exec cd env listen shutdown evs w = (Some (Inr u), w')"
  shows "\<exists>cfg S w1. main_start E redis postgres P exec cd env w = (Inr (cfg, S), w1) \<and> Signalled \<in> set evs \<and> (\<forall>ev \<in> set evs. event_fatal ev = None)"
proof -
  have none: "List.map_filter event_fatal evs = [] \<longleftrightarrow> (\<forall>ev \<in> set evs. event_fatal ev = None)" for evs
    by (induction evs) (simp_all add: map_filter_simps split: option.split)
  obtain cfg S w1 rest where s: "main_start E redis postgres P exec cd env w = (Inr (cfg, S), w1)" "main_wait evs = Some (Inr rest)"
    "List.map_filter event_fatal rest = []"
    using assms unfolding main_run_def by (auto split: prod.splits sum.splits option.splits list.splits)
  with none [of rest] show ?thesis unfolding main_wait_signal by auto
qed

lemma main_graph_nil [simp]: "main_graph = None"
  by (simp add: main_graph_def Build_def NewBuilder_def)

lemma main_server_simps [simp]:
  "sv_engine (main_server P C cfg reg) = main_engine P C cfg" "e_graph (main_engine P C cfg) = None"
  "rt_Now (e_rt (main_engine P C cfg)) = rt_Now (pf_runtime P)" "sv_codec (main_server P C cfg reg) = pf_codec P"
  "sv_uuid (main_server P C cfg reg) = pf_uuid P"
  "sv_taskStore (main_server P C cfg reg) = RedisTaskStore_ops (GoRedisDriver C) (rt_Now (pf_runtime P)) (main_tasks cfg)"
  by (simp_all add: main_server_def NewServer_def main_engine_def NewEngine_def WithHooks_def)

lemma main_is_redis_server:
  "main_server P C cfg reg = redis_server (GoRedisDriver C) (pf_uuid P) (rt_Now (pf_runtime P)) (main_tasks cfg) (main_server P C cfg reg)"
  by (simp add: redis_server_def)

text \<open>A run that begins at the entry of the graph dereferences the nil graph.\<close>

lemma main_run_panics:
  "(case st of None \<Rightarrow> True | Some s \<Rightarrow> LastNodeID s = []) \<Longrightarrow> run_job (main_server P C cfg reg) (sid, st) w = Some (Panicked NilDereference w)"
  by (cases st) (simp_all add: run_job_def Start_def Let_def)

lemma initial_state_entry [simp]: "LastNodeID (initial_state tid cid h m) = []"
  by (simp add: initial_state_def WithMessage_def clone_def Let_def)

lemma send_job_entry:
  assumes "handleSendMessage S ctx req w = (rep, js, w')" and "(sid, st) \<in> set js"
  shows "case st of None \<Rightarrow> True | Some s \<Rightarrow> LastNodeID s = []"
proof -
  have "case st of None \<Rightarrow> True | Some s \<Rightarrow> LastNodeID s = []" if "create_task S ctx rid tenant params u = (rep, js, w')" for rid tenant params u
    using that assms(2) unfolding create_task_def Let_def by (auto split: prod.splits option.splits)
  with assms show ?thesis unfolding handleSendMessage_def Let_def continue_task_def
    by (auto split: option.splits prod.splits if_splits sum.splits)
qed

text \<open>A process on a database without a limit.\<close>

definition sample_config :: Config where
  "sample_config = \<lparr>cfg_App = \<lparr>ac_Name = ''fluxgraph'', ac_Env = ''test'', ac_Port = 8080, ac_GRPCPort = 50051, ac_A2ASecret = ''s''\<rparr>,
     cfg_Storage = \<lparr>sc_Redis = \<lparr>rcf_URL = ''redis://db'', rcf_PoolSize = 10, rcf_TTL = 0\<rparr>, sc_Postgres = \<lparr>pcf_URL = ''postgres://db'', pcf_MaxConns = 20\<rparr>\<rparr>,
     cfg_LLM = \<lparr>lc_OpenAI = \<lparr>pc_APIKey = [], pc_BaseURL = [], pc_Model = [], pc_Timeout = 0\<rparr>,
       lc_Anthropic = \<lparr>pc_APIKey = [], pc_BaseURL = [], pc_Model = [], pc_Timeout = 0\<rparr>,
       lc_Resiliency = \<lparr>rz_CircuitBreaker = \<lparr>cb_MaxFailures = 5, cb_Interval = 0, cb_Timeout = 0\<rparr>\<rparr>\<rparr>,
     cfg_Observability = \<lparr>oc_OtelEndpoint = [], oc_PrometheusPort = 9090\<rparr>\<rparr>"

definition sample_platform :: "limited_world Platform" where
  "sample_platform = \<lparr>pf_runtime = \<lparr>rt_Now = redis_clock, rt_Rand = (\<lambda>w. (0, w)), rt_Wait = (\<lambda>ctx d w. (None, w))\<rparr>,
     pf_uuid = redis_gen, pf_spans = (\<lambda>w. NewOtelTracingHook), pf_setSpans = (\<lambda>h w. w), pf_metric = (\<lambda>c w. (None, w)), pf_audit = None,
     pf_codec = sample_rpc_codec [], pf_jwt = sample_jwt, pf_sorter = sort_key sn_Timestamp, pf_render = (\<lambda>_. [])\<rparr>"

abbreviation sample_binary :: "limited_world Server" where
  "sample_binary \<equiv> main_server sample_platform limited_redis sample_config NewConcreteToolRegistry"

definition sample_database :: limited_world where
  "sample_database = redis_world.extend new_redis \<lparr>lw_limit = None\<rparr>"

lemma sample_platform_simps [simp]:
  "pf_uuid sample_platform = redis_gen" "rt_Now (pf_runtime sample_platform) = redis_clock" "pf_codec sample_platform = sample_rpc_codec []"
  by (simp_all add: sample_platform_def)

lemma sample_database_ok [simp]: "redis_ok sample_database" "lw_limit sample_database = None"
  by (simp_all add: sample_database_def redis_ok_def zset_ok_def new_redis_def redis_world.defs)

lemma sample_binary_jobs:
  "fst (snd (handleSendMessage sample_binary writer_ctx req sample_database)) \<noteq> []"
  by (simp add: handleSendMessage_def tenant_or_default_def create_task_def or_uuid_def inherited_history_def Task_Create_def
      marshal_task_def task_json_ok_def vars_json_ok_def Driver_TxExec_def limited_do_def redis_gen_def redis_clock_def Let_def
      split: prod.split)

section \<open>Properties\<close>



end
