(* ===== verification/Test_Server.thy ===== *)
theory Test_Server
  imports Server_Runs Main_Model
begin

text \<open>
  The program \<open>scripts/test_server.go\<close>: an A2A server around a graph of one node, with a task
  store in a Go map, the tracing, metrics, guard and audit hooks and the in-memory store. The
  store hands out the pointers it keeps; the model copies the tasks instead. The two differ only
  for a task that waits for input, whose fields the handler writes through the pointer, and such a
  task does not exist (the theorem below). A reply is encoded after the background run was
  started, so that its status may be the one of a later moment.
\<close>

section \<open>The node and the graph\<close>

definition active_message :: Message where
  "active_message = text_message RoleAssistant ''Test server is active.'' 0"

definition SimpleNode_Process :: "Ctx \<Rightarrow> AgentState \<Rightarrow> 'w \<Rightarrow> (AgentState \<times> (go_error + NodeResult option)) \<times> 'w" where
  "SimpleNode_Process ctx s w = (new_state s (WithMessage s active_message), w)"

definition test_graph :: "go_error + 'w Graph" where
  "test_graph = fst (Build (SetTerminal (SetEntry (snd (AddNode NewBuilder \<lparr>n_ID = ''StartNode'', n_Process = SimpleNode_Process\<rparr>))
     ''StartNode'') [''StartNode'']))"

section \<open>The task store\<close>

text \<open>
  The state of the process: the memory store, the map of tasks, what the hooks told the tracer and
  the collector, the log of the audit hook and the log of the server.
\<close>

record test_world = "unit mem_world" +
  tw_tasks :: "(string, Task) gomap"
  tw_spans :: OtelTracingHook
  tw_metrics :: "metric_call list"
  tw_audit :: SecAuditLog
  tw_log :: SecAuditLog

definition mock_Create :: "Ctx \<Rightarrow> Task \<Rightarrow> test_world \<Rightarrow> go_error option \<times> test_world" where
  "mock_Create ctx t w = (None, w\<lparr>tw_tasks := gset (t_ID t) t (tw_tasks w)\<rparr>)"

definition mock_GetByID :: "Ctx \<Rightarrow> string \<Rightarrow> test_world \<Rightarrow> (go_error + Task) \<times> test_world" where
  "mock_GetByID ctx i w = (case glookup (tw_tasks w) i of None \<Rightarrow> (Inl (ErrorText ''not found''), w) | Some t \<Rightarrow> (Inr t, w))"

text \<open>A write through the pointer of a task, if there is one.\<close>

definition mock_modify :: "string \<Rightarrow> (Task \<Rightarrow> Task) \<Rightarrow> test_world \<Rightarrow> go_error option \<times> test_world" where
  "mock_modify i f w = (case glookup (tw_tasks w) i of None \<Rightarrow> (None, w) | Some t \<Rightarrow> (None, w\<lparr>tw_tasks := gset i (f t) (tw_tasks w)\<rparr>))"

definition mock_UpdateStatus :: "Ctx \<Rightarrow> string \<Rightarrow> TaskStatus \<Rightarrow> test_world \<Rightarrow> go_error option \<times> test_world" where
  "mock_UpdateStatus ctx i s = mock_modify i (\<lambda>t. t\<lparr>t_Status := s\<rparr>)"

definition mock_AppendMessage :: "Ctx \<Rightarrow> string \<Rightarrow> Message \<Rightarrow> test_world \<Rightarrow> go_error option \<times> test_world" where
  "mock_AppendMessage ctx i msg = mock_modify i (\<lambda>t. t\<lparr>t_History := t_History t @ [msg]\<rparr>)"

definition mock_AppendArtifact :: "Ctx \<Rightarrow> string \<Rightarrow> Artifact \<Rightarrow> test_world \<Rightarrow> go_error option \<times> test_world" where
  "mock_AppendArtifact ctx i art = mock_modify i (\<lambda>t. t\<lparr>t_Artifacts := t_Artifacts t @ [art]\<rparr>)"

definition mock_AddWebhook :: "Ctx \<Rightarrow> string \<Rightarrow> WebhookConfig \<Rightarrow> test_world \<Rightarrow> go_error option \<times> test_world" where
  "mock_AddWebhook ctx i c w = (None, w)"

text \<open>The loops over the map, in the order of the association list; Go leaves the order open.\<close>

definition mock_ListByContextID :: "Ctx \<Rightarrow> string \<Rightarrow> test_world \<Rightarrow> (go_error + Task list) \<times> test_world" where
  "mock_ListByContextID ctx cid w = (Inr (filter (\<lambda>t. t_ContextID t = cid) (map snd (tw_tasks w))), w)"

definition mock_ListByTenantID :: "Ctx \<Rightarrow> string \<Rightarrow> int \<Rightarrow> string \<Rightarrow> test_world \<Rightarrow> (go_error + Task list \<times> string) \<times> test_world" where
  "mock_ListByTenantID ctx tid limit cursor w = (Inr (filter (\<lambda>t. t_TenantID t = tid) (map snd (tw_tasks w)), []), w)"

definition mockTaskStore :: "test_world TaskStore" where
  "mockTaskStore = \<lparr>tk_Create = mock_Create, tk_GetByID = mock_GetByID, tk_UpdateStatus = mock_UpdateStatus,
     tk_AppendMessage = mock_AppendMessage, tk_AppendArtifact = mock_AppendArtifact, tk_AddWebhook = mock_AddWebhook,
     tk_ListByContextID = mock_ListByContextID, tk_ListByTenantID = mock_ListByTenantID\<rparr>"

section \<open>The process\<close>

text \<open>
  What the libraries give the process: the clock, the UUID generator, the codecs, the calls
  that the metrics collectors refuse with a panic, the order of the guard's patterns, and whether the two log files could be opened.
\<close>

record Setup =
  su_runtime :: "test_world Runtime"
  su_uuid :: "nat \<Rightarrow> string"
  su_codec :: RpcCodec
  su_jwt :: Jwt
  su_sorter :: "StateSnapshot list \<Rightarrow> StateSnapshot list"
  su_render :: "gany \<Rightarrow> string"
  su_metric :: "metric_call \<Rightarrow> gopanic option"
  su_patterns :: "regex list"
  su_hookLog :: bool
  su_serverLog :: bool

definition test_platform :: "Setup \<Rightarrow> test_world Platform" where
  "test_platform U = \<lparr>pf_runtime = su_runtime U, pf_uuid = (\<lambda>w. (su_uuid U (mw_uuids w), w\<lparr>mw_uuids := Suc (mw_uuids w)\<rparr>)),
     pf_spans = tw_spans, pf_setSpans = (\<lambda>h w. w\<lparr>tw_spans := h\<rparr>), pf_metric = (\<lambda>c w. case su_metric U c of Some p \<Rightarrow> (Some p, w) | None \<Rightarrow> (None, w\<lparr>tw_metrics := tw_metrics w @ [c]\<rparr>)),
     pf_audit = (if su_serverLog U then Some (tw_log, \<lambda>h w. w\<lparr>tw_log := h\<rparr>) else None),
     pf_codec = su_codec U, pf_jwt = su_jwt U, pf_sorter = su_sorter U, pf_render = su_render U\<rparr>"

definition test_engine :: "Setup \<Rightarrow> test_world Graph \<Rightarrow> test_world Engine" where
  "test_engine U g = NewEngine (su_runtime U) (Some g) (InMemoryStore_ops (su_uuid U)) None
     [WithHooks [otel_hook (test_platform U), prometheus_hook (test_platform U), OutputGuard_hook (su_patterns U),
        audit_pointer (su_hookLog U) tw_audit (\<lambda>h w. w\<lparr>tw_audit := h\<rparr>)],
      WithTaskStore (Some mockTaskStore)]"

definition test_options :: ServerOptions where
  "test_options = \<lparr>so_Name = ''Phase4TestAgent'', so_Description = ''Agent for verifying security and observability'',
     so_Version = ''1.0.0'', so_URL = ''http://localhost:8080'', so_Secret = ''test-secret-key''\<rparr>"

definition test_server :: "Setup \<Rightarrow> test_world Graph \<Rightarrow> test_world Server" where
  "test_server U g = (let P = test_platform U in
     NewServer (test_engine U g) mockTaskStore (InMemoryStore_ops (su_uuid U)) NewConcreteToolRegistry False test_options
       (pf_audit P) (pf_uuid P) (pf_codec P) (pf_jwt P) (pf_sorter P) (pf_render P))"

text \<open>The server that \<open>main\<close> listens with; a failed \<open>InitTracer\<close> is only logged.\<close>

definition test_main :: "Setup \<Rightarrow> string \<times> go_error + test_world Server" where
  "test_main U = (case test_graph of Inl err \<Rightarrow> Inl (''Failed to build graph: '', err) | Inr g \<Rightarrow> Inr (test_server U g))"

section \<open>Lemmas: the server\<close>

definition start_node :: "'w Node" where
  "start_node = \<lparr>n_ID = ''StartNode'', n_Process = SimpleNode_Process\<rparr>"

definition start_graph :: "'w Graph" where
  "start_graph = \<lparr>g_Nodes = [(''StartNode'', start_node)], g_Edges = [], g_Entry = ''StartNode'', g_Terminals = [(''StartNode'', True)]\<rparr>"

lemma test_graph_start: "test_graph = Inr start_graph"
  by (simp add: test_graph_def AddNode_def NewBuilder_def SetEntry_def SetTerminal_def Build_def start_graph_def start_node_def)

lemma test_main_server: "test_main U = Inr S \<longleftrightarrow> S = test_server U start_graph"
  by (auto simp: test_main_def test_graph_start)

lemma start_simps [simp]:
  "Graph_Node start_graph ''StartNode'' = Some start_node" "g_Entry start_graph = ''StartNode''" "g_Edges start_graph = []"
  "is_terminal start_graph ''StartNode''" "n_Process start_node = SimpleNode_Process" "g_Nodes start_graph = [(''StartNode'', start_node)]"
  by (simp_all add: start_graph_def Graph_Node_def is_terminal_def start_node_def)

lemma test_engine_fields [simp]:
  "e_graph (test_engine U g) = Some g" "e_memoryStore (test_engine U g) = InMemoryStore_ops (su_uuid U)" "e_rt (test_engine U g) = su_runtime U"
  "e_taskStore (test_engine U g) = Some mockTaskStore" "e_eventBus (test_engine U g) = None" "e_retry (test_engine U g) = DefaultRetryPolicy"
  "e_hooks (test_engine U g) = [otel_hook (test_platform U), prometheus_hook (test_platform U), OutputGuard_hook (su_patterns U),
        audit_pointer (su_hookLog U) tw_audit (\<lambda>h w. w\<lparr>tw_audit := h\<rparr>)]" "e_maxSteps (test_engine U g) = 100"
  by (simp_all add: test_engine_def NewEngine_def WithHooks_def WithTaskStore_def)

lemma test_server_fields [simp]:
  "sv_engine (test_server U g) = test_engine U g" "sv_taskStore (test_server U g) = mockTaskStore" "sv_secret (test_server U g) = ''test-secret-key''"
  "sv_memory (test_server U g) = InMemoryStore_ops (su_uuid U)" "sv_codec (test_server U g) = su_codec U" "sv_jwt (test_server U g) = su_jwt U"
  "sv_audit (test_server U g) = (if su_serverLog U then Some (tw_log, \<lambda>h w. w\<lparr>tw_log := h\<rparr>) else None)"
  "sv_uuid (test_server U g) = (\<lambda>w. (su_uuid U (mw_uuids w), w\<lparr>mw_uuids := Suc (mw_uuids w)\<rparr>))"
  by (simp_all add: test_server_def NewServer_def test_options_def test_platform_def Let_def)

lemma mockTaskStore_simps [simp]:
  "tk_Create mockTaskStore = mock_Create" "tk_GetByID mockTaskStore = mock_GetByID" "tk_UpdateStatus mockTaskStore = mock_UpdateStatus"
  "tk_AppendMessage mockTaskStore = mock_AppendMessage" "tk_AppendArtifact mockTaskStore = mock_AppendArtifact"
  "tk_AddWebhook mockTaskStore = mock_AddWebhook" "tk_ListByContextID mockTaskStore = mock_ListByContextID"
  by (simp_all add: mockTaskStore_def)

section \<open>Lemmas: the invariant of the process\<close>

text \<open>The clock, the random numbers and the timers leave the memory of the process alone.\<close>

definition clock_only :: "test_world Runtime \<Rightarrow> bool" where
  "clock_only rt \<longleftrightarrow> (\<forall>w. \<exists>c. snd (rt_Now rt w) = w\<lparr>mw_clock := c\<rparr>) \<and> (\<forall>w. \<exists>c. snd (rt_Rand rt w) = w\<lparr>mw_clock := c\<rparr>)
     \<and> (\<forall>ctx d w. \<exists>c. snd (rt_Wait rt ctx d w) = w\<lparr>mw_clock := c\<rparr>)"

definition open_task :: "Task \<Rightarrow> bool" where
  "open_task t \<longleftrightarrow> ts_State (t_Status t) \<in> {TaskStateSubmitted, TaskStateWorking, TaskStateFailed}"

definition test_inv :: "test_world \<Rightarrow> bool" where
  "test_inv w \<longleftrightarrow> (\<forall>i t. glookup (tw_tasks w) i = Some t \<longrightarrow> open_task t) \<and> \<not> sal_closed (tw_log w)"

lemma test_inv_other [simp]:
  "test_inv (w\<lparr>mw_clock := c\<rparr>) = test_inv w" "test_inv (w\<lparr>mw_uuids := n\<rparr>) = test_inv w" "test_inv (w\<lparr>mw_uuids := n, mw_store := st\<rparr>) = test_inv w"
  "test_inv (w\<lparr>tw_spans := h\<rparr>) = test_inv w" "test_inv (w\<lparr>tw_metrics := m\<rparr>) = test_inv w" "test_inv (w\<lparr>tw_audit := a\<rparr>) = test_inv w"
  by (simp_all add: test_inv_def)

lemma test_inv_clock:
  "clock_only rt \<Longrightarrow> test_inv (snd (rt_Now rt w)) = test_inv w" "clock_only rt \<Longrightarrow> test_inv (snd (rt_Rand rt w)) = test_inv w"
  "clock_only rt \<Longrightarrow> test_inv (snd (rt_Wait rt ctx d w)) = test_inv w"
  unfolding clock_only_def by (metis test_inv_other(1))+

lemma test_inv_Save: "test_inv (snd (InMemory_Save uuid ctx sid s w)) = test_inv w"
  by (simp add: InMemory_Save_def Let_def split: sum.split)

lemma test_inv_modify:
  assumes "test_inv w" and "\<And>t. open_task t \<Longrightarrow> open_task (f t)"
  shows "test_inv (snd (mock_modify i f w))"
  using assms by (auto simp: test_inv_def mock_modify_def split: option.split)

lemma test_inv_ops:
  assumes "test_inv w"
  shows "open_task t \<Longrightarrow> test_inv (snd (mock_Create ctx t w))" and "test_inv (snd (mock_GetByID ctx i w))"
    and "ts_State st \<in> {TaskStateWorking, TaskStateFailed} \<Longrightarrow> test_inv (snd (mock_UpdateStatus ctx i st w))"
    and "test_inv (snd (mock_AppendMessage ctx i m w))" and "test_inv (snd (mock_AppendArtifact ctx i a w))"
    and "test_inv (snd (mock_AddWebhook ctx i c w))" and "test_inv (snd (mock_ListByContextID ctx cid w))"
proof -
  show "open_task t \<Longrightarrow> test_inv (snd (mock_Create ctx t w))" "test_inv (snd (mock_GetByID ctx i w))"
    "test_inv (snd (mock_AddWebhook ctx i c w))" "test_inv (snd (mock_ListByContextID ctx cid w))"
    using assms by (auto simp: mock_Create_def mock_GetByID_def mock_AddWebhook_def mock_ListByContextID_def test_inv_def split: option.split)
  show "ts_State st \<in> {TaskStateWorking, TaskStateFailed} \<Longrightarrow> test_inv (snd (mock_UpdateStatus ctx i st w))"
    "test_inv (snd (mock_AppendMessage ctx i m w))" "test_inv (snd (mock_AppendArtifact ctx i a w))"
    unfolding mock_UpdateStatus_def mock_AppendMessage_def mock_AppendArtifact_def
    by (rule test_inv_modify [OF assms], simp add: open_task_def)+
qed

lemma test_hooks_keep:
  "h \<in> set (e_hooks (test_engine U g)) \<Longrightarrow> test_inv (snd (snd (h st meta w))) = test_inv w"
proof -
  have "test_inv (snd (metric_calls (pf_metric (test_platform U)) cs w)) = test_inv w" for cs w
    by (induction cs arbitrary: w) (simp_all add: test_platform_def split: option.split)
  moreover have "pf_setSpans (test_platform U) = (\<lambda>h w. w\<lparr>tw_spans := h\<rparr>)" by (simp add: test_platform_def)
  moreover assume "h \<in> set (e_hooks (test_engine U g))"
  ultimately show ?thesis
    by (auto simp: otel_hook_def prometheus_hook_def case_prod_beta OutputGuard_hook_def audit_pointer_def SecAudit_hook_def
        split: option.splits sum.splits if_splits)
qed

lemma test_hooks:
  "\<exists>(w1 :: test_world) w2. fireHooks (test_engine U g) (Some s) meta w = (fst (snd (OutputGuard_hook (su_patterns U) (Some s) meta w1)), w2)"
proof -
  let ?P = "test_platform U"
  obtain p1 w1 where o1: "otel_hook ?P (Some s) meta w = (p1, Some s, w1)"
    by (cases "Otel_OnHook (Some s) meta (pf_spans ?P w)") (auto simp: otel_hook_def)
  obtain p2 w2 where o2: "prometheus_hook ?P (Some s) meta w1 = (p2, Some s, w2)" by (simp add: prometheus_hook_def case_prod_beta)
  have "\<exists>p3 t. OutputGuard_hook (su_patterns U) (Some s) meta w2 = (p3, Some t, w2)" by (auto simp: OutputGuard_hook_def)
  then obtain p3 t where o3: "OutputGuard_hook (su_patterns U) (Some s) meta w2 = (p3, Some t, w2)" by blast
  obtain p4 w4 where o4: "audit_pointer (su_hookLog U) tw_audit (\<lambda>h w. w\<lparr>tw_audit := h\<rparr>) (Some t) meta w2 = (p4, Some t, w4)"
    using audit_pointer_state [of "su_hookLog U" tw_audit "\<lambda>h w. w\<lparr>tw_audit := h\<rparr>" "Some t" meta w2] by blast
  have "fireHooks (test_engine U g) (Some s) meta w = (fst (snd (OutputGuard_hook (su_patterns U) (Some s) meta w2)), w4)"
    by (simp add: fireHooks_def o1 o2 o3 o4)
  then show ?thesis by blast
qed

lemma test_progressing: "progressing_engine (test_engine U start_graph)"
proof -
  have "progressing_hook h" if "h \<in> set (e_hooks (test_engine U start_graph))" for h
    using that audit_pointer_state
    by (auto simp: progressing_hook_def progressing_def otel_hook_def prometheus_hook_def case_prod_beta OutputGuard_hook_def audit_pointer_def
        SecAudit_hook_def split: option.splits sum.splits if_splits)
  moreover have "progressing_node start_node"
    by (simp add: progressing_node_def SimpleNode_Process_def returned_def)
  ultimately show ?thesis by (simp add: progressing_engine_def)
qed

lemma test_engine_keeps:
  assumes "clock_only (su_runtime U)"
  shows "inv_kept test_inv (progress_engine (test_engine U start_graph))"
  unfolding inv_kept_def
  using test_hooks_keep [of _ U start_graph] test_inv_clock [OF assms]
  by (simp add: hooks_keep_def runtime_keeps_def graph_keeps_def tasks_keep_def progress_tasks_def SimpleNode_Process_def
      test_inv_Save test_inv_ops)

lemma test_server_keeps:
  assumes "clock_only (su_runtime U)"
  shows "server_keeps test_inv (test_server U g)"
proof -
  have "test_inv (w\<lparr>tw_log := h\<rparr>)" if "test_inv w" "audit_log msg (tw_log w) = Some h" for w h msg
    using that by (auto simp: test_inv_def audit_log_def split: if_splits)
  then show ?thesis
    by (auto simp: server_keeps_def test_inv_clock [OF assms] test_inv_ops open_task_def InMemory_LoadCheckpoint_def
        InMemory_ListCheckpoints_def split: option.split)
qed

lemma test_serving: "clock_only (su_runtime U) \<Longrightarrow> serving_keeps test_inv (test_server U start_graph)"
  by (simp add: serving_keeps_def test_server_keeps test_engine_keeps test_progressing)

section \<open>Lemmas: the background runs\<close>

text \<open>A run that begins at the entry: one pass, the reply of the node with the guard's mask, and the end.\<close>

lemma test_loop:
  assumes "Status s = StatusRunning" and "StepCount s = 0" and "LastNodeID s = ''StartNode''" and "Artifacts s = []"
  shows "\<exists>u w'. loop (test_engine U start_graph) ctx sid s w = Some (Returned (Some u) None w') \<and> Status u = StatusCompleted
    \<and> Messages u = Messages s @ [text_message RoleAssistant (applyMask (su_patterns U) ''Test server is active.'') 0]"
proof -
  let ?e = "test_engine U start_graph" and ?t = "WithMessage s active_message"
    and ?m = "Messages s @ [text_message RoleAssistant (applyMask (su_patterns U) ''Test server is active.'') 0]"
  have quiet: "\<exists>v'. fireHooks_at ?e s meta v = (s, v')" if "hm_Point meta \<noteq> HookAfterNode" for meta v
    using that test_hooks [of U start_graph s meta v] by (auto simp: fireHooks_at_def OutputGuard_hook_def)
  have at: "at_node ?e start_graph s start_node" using assms quiet by (simp add: at_node_def)
  have after: "\<exists>u v'. fireHooks ?e (Some ?t) meta v = (Some u, v') \<and> Messages u = ?m" if "hm_Point meta = HookAfterNode" for meta v
    using that test_hooks [of U start_graph ?t meta v]
    by (auto simp: OutputGuard_hook_def mask_part_def text_part_def active_message_def text_message_def)
  have "\<exists>u w'. Messages u = ?m \<and> run_step ?e ctx sid s w
      = advance ?e start_graph ctx sid (LastNodeID s) [] (u\<lparr>StepCount := StepCount s + 1, LastNodeID := LastNodeID s\<rparr>) w'"
    using after assms(4) by (intro pass_returns [OF at, where Q = "\<lambda>r. r = RNew ?t"]) (auto simp: SimpleNode_Process_def)
  then obtain u w' where u: "Messages u = ?m" "run_step ?e ctx sid s w
      = advance ?e start_graph ctx sid (LastNodeID s) [] (u\<lparr>StepCount := StepCount s + 1, LastNodeID := LastNodeID s\<rparr>) w'" by blast
  then obtain v where "run_step ?e ctx sid s w = Done (WithStatus (u\<lparr>StepCount := 1, LastNodeID := ''StartNode''\<rparr>) StatusCompleted) None v"
    using assms(2,3) by (auto simp: advance_def resolveNextNode_def finish_Done)
  from loop_Done [OF this] u(1) show ?thesis by auto
qed

lemma test_job:
  assumes "fresh_job j"
  shows "\<exists>u w'. run_job (test_server U start_graph) j w = Some (Returned (Some u) None w') \<and> Status u = StatusCompleted"
proof -
  let ?s = "WithStatus (case snd j of None \<Rightarrow> NewState | Some s \<Rightarrow> s) StatusRunning"
  have "LastNodeID ?s = []" "StepCount ?s = 0" "Artifacts ?s = []"
    using assms by (auto simp: fresh_job_def NewState_def split: option.split)
  moreover from this test_loop [of "?s\<lparr>LastNodeID := ''StartNode''\<rparr>" U "Background\<lparr>ctx_session := Some (fst j)\<rparr>" "fst j" w]
  have "\<exists>u w'. loop (test_engine U start_graph) (Background\<lparr>ctx_session := Some (fst j)\<rparr>) (fst j) (?s\<lparr>LastNodeID := ''StartNode''\<rparr>) w
      = Some (Returned (Some u) None w') \<and> Status u = StatusCompleted" by auto
  ultimately show ?thesis by (simp add: run_job_def Start_def runLoop_def Let_def)
qed

section \<open>A sample process\<close>

definition sample_setup :: Setup where
  "sample_setup = \<lparr>su_runtime = mem_runtime, su_uuid = uuid_x, su_codec = sample_rpc_codec [], su_jwt = sample_jwt,
     su_sorter = sort_key sn_Timestamp, su_render = (\<lambda>_. []), su_metric = (\<lambda>_. None), su_patterns = piiPatterns, su_hookLog = True, su_serverLog = True\<rparr>"

definition new_test_world :: test_world where
  "new_test_world = \<lparr>mw_store = NewInMemoryStore, mw_subs = [], mw_uuids = 0, mw_clock = 0, tw_tasks = [], tw_spans = NewOtelTracingHook,
     tw_metrics = [], tw_audit = NewSecAuditLog, tw_log = NewSecAuditLog\<rparr>"

lemma mem_runtime_clock_only: "clock_only mem_runtime"
proof -
  have "\<exists>c. w = w\<lparr>mw_clock := c\<rparr>" "\<exists>c. w\<lparr>mw_clock := mw_clock w + d\<rparr> = w\<lparr>mw_clock := c\<rparr>" for w :: test_world and d
    by (rule exI [of _ "mw_clock w"], simp) (rule exI, rule refl)
  then show ?thesis by (simp add: clock_only_def mem_runtime_def)
qed

lemma new_test_world_simps [simp]: "tw_tasks new_test_world = []" "\<not> sal_closed (tw_log new_test_world)"
  by (simp_all add: new_test_world_def NewSecAuditLog_def)

section \<open>Properties\<close>

text \<open>
  C11: a finished run is never reported as finished. In every execution of the test server, from
  an empty map of tasks and through any requests and background runs in any order, no client reads
  a task as completed or as waiting for input: the states are \<open>submitted\<close>, \<open>working\<close> and
  \<open>failed\<close>. Yet every run that a message starts returns, without an error and with the status
  completed: the engine writes the task before it sets the final status, and not again. (So the
  branch of \<open>message/send\<close> that continues a waiting task is never taken.)
\<close>

theorem finished_task_stays_open:
  assumes "test_main U = Inr S" and "clock_only (su_runtime U)"
    and "tw_tasks w0 = []" and "\<not> sal_closed (tw_log w0)" and "(server_step S)\<^sup>*\<^sup>* ([], w0) (jobs, w)"
  shows "(\<forall>ctx i t. fst (tk_GetByID (sv_taskStore S) ctx i w) = Inr t
      \<longrightarrow> ts_State (t_Status t) \<in> {TaskStateSubmitted, TaskStateWorking, TaskStateFailed})
    \<and> (\<forall>ctx req rep js w' j v. handleSendMessage S ctx req w = (rep, js, w') \<longrightarrow> j \<in> set js
      \<longrightarrow> (\<exists>u v'. run_job S j v = Some (Returned (Some u) None v') \<and> Status u = StatusCompleted))"
proof -
  have S: "S = test_server U start_graph" using assms(1) by (simp add: test_main_server)
  have "test_inv (snd ([] :: job list, w0))" using assms(3,4) by (simp add: test_inv_def)
  with server_run_keeps [OF assms(5), of test_inv] test_serving [OF assms(2)] S have "test_inv w" by simp
  then have "open_task t" if "fst (tk_GetByID (sv_taskStore S) ctx i w) = Inr t" for ctx i t
    using that S by (auto simp: mock_GetByID_def test_inv_def split: option.splits)
  moreover have "\<exists>u v'. run_job S j v = Some (Returned (Some u) None v') \<and> Status u = StatusCompleted"
    if "handleSendMessage S ctx req w = (rep, js, w')" "j \<in> set js" for ctx req rep js w' j v
    using test_job [OF send_fresh [OF that]] S by simp
  ultimately show ?thesis unfolding open_task_def by blast
qed

lemma sample_request:
  "\<exists>rep t st w1. handleSendMessage (test_server sample_setup start_graph) writer_ctx
      \<lparr>rq_JSONRPC = ''2.0'', rq_Method = ''message/send'', rq_Params = [], rq_ID = GInt 1\<rparr> new_test_world = (rep, [(t_ID t, Some st)], w1)
    \<and> fst (mock_GetByID Background (t_ID t) w1) = Inr t
    \<and> ServeHTTP (test_server sample_setup start_graph) ''Bearer tok'' Background (RouteRPC ''message/send'') new_test_world
      = (rep, [(t_ID t, Some st)], w1)"
proof -
  let ?S = "test_server sample_setup start_graph"
  let ?req = "\<lparr>rq_JSONRPC = ''2.0'', rq_Method = ''message/send'', rq_Params = [], rq_ID = GInt 1\<rparr>"
  have m: "Middleware sample_jwt mem_runtime ''test-secret-key'' ''Bearer tok'' Background new_test_world = (Inr writer_ctx, new_test_world)"
    by code_simp
  have "ServeHTTP ?S ''Bearer tok'' Background (RouteRPC ''message/send'') new_test_world = handleSendMessage ?S writer_ctx ?req new_test_world"
    using m by (simp add: ServeHTTP_def handleJSONRPC_def sample_setup_def sample_rpc_codec_def)
  moreover have "\<exists>rep t st w1. handleSendMessage ?S writer_ctx ?req new_test_world = (rep, [(t_ID t, Some st)], w1)
      \<and> fst (mock_GetByID Background (t_ID t) w1) = Inr t"
    by (auto simp: handleSendMessage_def tenant_or_default_def create_task_def or_uuid_def inherited_history_def mock_Create_def
        mock_GetByID_def sample_setup_def Let_def mem_runtime_def)
  ultimately show ?thesis by metis
qed

theorem finished_task_stays_open_witness:
  "\<exists>S j w1 u v t. test_main sample_setup = Inr S \<and> (server_step S)\<^sup>*\<^sup>* ([], new_test_world) ([j], w1)
    \<and> run_job S j w1 = Some (Returned (Some u) None v) \<and> Status u = StatusCompleted
    \<and> fst (tk_GetByID (sv_taskStore S) Background (fst j) w1) = Inr t
    \<and> ts_State (t_Status t) \<in> {TaskStateSubmitted, TaskStateWorking, TaskStateFailed}"
proof -
  let ?S = "test_server sample_setup start_graph"
  let ?req = "\<lparr>rq_JSONRPC = ''2.0'', rq_Method = ''message/send'', rq_Params = [], rq_ID = GInt 1\<rparr>"
  have main: "test_main sample_setup = Inr ?S" by (simp add: test_main_server)
  have clock: "clock_only (su_runtime sample_setup)" using mem_runtime_clock_only by (simp add: sample_setup_def)
  obtain rep t st w1 where r: "handleSendMessage ?S writer_ctx ?req new_test_world = (rep, [(t_ID t, Some st)], w1)"
    "fst (mock_GetByID Background (t_ID t) w1) = Inr t"
    "ServeHTTP ?S ''Bearer tok'' Background (RouteRPC ''message/send'') new_test_world = (rep, [(t_ID t, Some st)], w1)"
    using sample_request by blast
  have "\<exists>u v'. run_job ?S (t_ID t, Some st) w1 = Some (Returned (Some u) None v') \<and> Status u = StatusCompleted"
    using finished_task_stays_open [OF main clock new_test_world_simps rtranclp.rtrancl_refl] r(1) by (metis list.set_intros(1))
  then obtain u v where run: "run_job ?S (t_ID t, Some st) w1 = Some (Returned (Some u) None v)" "Status u = StatusCompleted" by blast
  have step: "(server_step ?S)\<^sup>*\<^sup>* ([], new_test_world) ([(t_ID t, Some st)], w1)"
    using server_step.request [OF r(3), of "[]"] by simp
  from finished_task_stays_open [OF main clock new_test_world_simps step] r(2)
  have "ts_State (t_Status t) \<in> {TaskStateSubmitted, TaskStateWorking, TaskStateFailed}" by simp
  with main step run r(2) have "test_main sample_setup = Inr ?S \<and> (server_step ?S)\<^sup>*\<^sup>* ([], new_test_world) ([(t_ID t, Some st)], w1)
    \<and> run_job ?S (t_ID t, Some st) w1 = Some (Returned (Some u) None v) \<and> Status u = StatusCompleted
    \<and> fst (tk_GetByID (sv_taskStore ?S) Background (fst (t_ID t, Some st)) w1) = Inr t
    \<and> ts_State (t_Status t) \<in> {TaskStateSubmitted, TaskStateWorking, TaskStateFailed}" by simp
  then show ?thesis by blast
qed

end
