(* ===== verification/Spec2Isabelle.thy ===== *)
theory Spec2Isabelle
  imports Planner_Model A2A_Events Postgres_Store Eval_Model Mock_Model Demo_Model Regression_Model Pentest_Model
begin

text \<open>
  \<^bold>\<open>A verification development of FluxGraph.\<close>

  FluxGraph runs agents as graphs of nodes. An \<^emph>\<open>engine\<close> walks a validated graph over an
  \<^emph>\<open>agent state\<close>, retries failing nodes, calls lifecycle hooks, mirrors the progress to a task
  store, saves checkpoints to a memory store and pauses for humans. Around it stand tool
  registries, stores on Redis and PostgreSQL, a planner, LLM providers, security filters,
  observability hooks, an agent-to-agent server with its client, an evaluation harness, a demo
  and the server binary that puts the parts together.

  \<^bold>\<open>Theories and the code they model\<close> (paths under \<^verbatim>\<open>src/\<close>):

  \<^item> \<open>Prelude\<close>: Go maps, strings, UTF-8 runes, numeric conversions; shared lemmas.
  \<^item> \<open>Core_Model\<close>: \<^verbatim>\<open>core/\<close>. Errors, messages, agent state, tasks, contexts.
  \<^item> \<open>Json_Model\<close>: what a round trip through \<^verbatim>\<open>encoding/json\<close> does to these values.
  \<^item> \<open>Interfaces\<close>: \<^verbatim>\<open>interfaces/\<close>. Interfaces as records of operations over a world type,
    and the contracts \<open>memory_store\<close> and \<open>task_store\<close> as locales.
  \<^item> \<open>Graph_Model\<close>: \<^verbatim>\<open>graph/\<close>. Builder, validation, reachability scan.
  \<^item> \<open>Resilience\<close>: \<^verbatim>\<open>engine/resilience.go\<close>. Retry policy and circuit breaker.
  \<^item> \<open>Engine_Model\<close>, \<open>Engine_Props\<close>: \<^verbatim>\<open>engine/engine.go\<close>. One pass of the loop is
    \<open>run_step\<close>; \<open>loop\<close> is a partial function whose totality is proved. \<open>Engine_Runs\<close> has the
    lemmas for runs of concrete agents, \<open>Task_Progress\<close> what a run writes to the task store.
  \<^item> \<open>Hooks_Model\<close>: \<^verbatim>\<open>engine/hooks.go\<close>.
  \<^item> \<open>Memory_Model\<close>: \<^verbatim>\<open>memory/\<close>. In-process store (an interpretation of \<open>memory_store\<close>) and
    event bus.
  \<^item> \<open>Tools_Model\<close>: \<^verbatim>\<open>tools/\<close>. Registry, permissions, concurrent dispatch, built-in tools.
  \<^item> \<open>Redis_Model\<close>, \<open>Redis_Store\<close>, \<open>Task_Store\<close>: \<^verbatim>\<open>storage/redis_store.go\<close> and
    \<^verbatim>\<open>storage/task_store.go\<close> over the locale \<open>redis_client\<close>, which is a sublocale of
    \<open>memory_store\<close> and \<open>task_store\<close> and is interpreted on a key-value model of Redis.
  \<^item> \<open>Planner_Model\<close>: \<^verbatim>\<open>planner/react.go\<close>.
  \<^item> \<open>Providers_Model\<close>: \<^verbatim>\<open>providers/\<close> and \<^verbatim>\<open>interfaces/llm.go\<close>. The locale
    \<open>llm_provider\<close> is interpreted on the OpenAI and the Anthropic provider.
  \<^item> \<open>Security_Model\<close>: \<^verbatim>\<open>security/\<close>. Sanitizer, output guard, audit log.

  \<^item> \<open>Observability_Model\<close>: \<^verbatim>\<open>observability/\<close>. State inspector, metrics collectors, metrics and
    tracing hooks, with the calls they make.
  \<^item> \<open>A2A_Server\<close>: \<^verbatim>\<open>a2a/server.go\<close>, \<^verbatim>\<open>a2a/auth.go\<close> and the request models. Routes, handlers and
    background runs; the locale \<open>task_server\<close> has the server as a client of its task store.
    \<open>Server_Runs\<close> has the invariants of whole executions, requests and background runs interleaved.
  \<^item> \<open>A2A_Client\<close>, \<open>A2A_Events\<close>: the client, the delegating node, webhooks, the gRPC front end and
    the event streams of \<^verbatim>\<open>a2a/\<close> with the subscriptions they hold.
  \<^item> \<open>Postgres_Store\<close>: \<^verbatim>\<open>storage/postgres_store.go\<close> and \<^verbatim>\<open>storage/pgx_driver.go\<close>. The locale
    \<open>sql_db\<close> is what the statements do to the tables; it is a sublocale of \<open>memory_store\<close> and is
    interpreted on tables kept as lists.
  \<^item> \<open>Redis_Driver\<close>: \<^verbatim>\<open>storage/redis_driver.go\<close> over the locale \<open>go_redis\<close>; its extension
    \<open>go_redis_whole\<close> is a sublocale of \<open>redis_client\<close>, so that the stores keep their contracts on
    the driver.
  \<^item> \<open>Eval_Model\<close>: \<^verbatim>\<open>eval/harness.go\<close>; \<open>Mock_Model\<close>: \<^verbatim>\<open>mock/\<close>.
  \<^item> \<open>Demo_Model\<close>: \<^verbatim>\<open>examples/visual-demo/main.go\<close>, the support agent on the engine.
  \<^item> \<open>Main_Model\<close>: \<^verbatim>\<open>config/config.go\<close> and the wiring of \<^verbatim>\<open>cmd/fluxgraph/main.go\<close>, from its start to
    its shut-down.
  \<^item> \<open>Regression_Model\<close>: \<^verbatim>\<open>scripts/regression.go\<close> with the cases of
    \<^verbatim>\<open>eval/scenarios/security_bench.yaml\<close>.
  \<^item> \<open>Test_Server\<close>, \<open>Pentest_Model\<close>: \<^verbatim>\<open>scripts/test_server.go\<close> and \<^verbatim>\<open>scripts/pentest.go\<close>. Client and
    server meet in the locale \<open>a2a_wire\<close>, the contract of the packages between them.

  \<^bold>\<open>What is shown.\<close> The engine returns on every graph, never panics on a validated one, follows
  the static edges, persists what it returns and goes on at the successor when resumed; graphs
  are validated and scanned exactly; retries are bounded and the breaker keeps its invariant. The
  stores refine the contract of their interface, in-process, on Redis and on PostgreSQL, keep
  sessions apart and keep their windows; the driver is shown to do so as long as a batch is not
  split, and what a split one leaves behind is computed. Tools are authorised exactly and answer in
  the order of the calls. Providers classify errors, decode what they encode and end their streams.
  Filters accept exactly what their patterns say. The server starts runs only for authorised
  requests and its tasks are readable by their sender; the composition with the binary's
  configuration shows that no run of it gets past its nil graph. A task of the test server is never
  reported as completed, whatever its requests and runs do, although every run completes. The
  security regression and the penetration tests pass, the latter against the server over any
  connection that keeps the contract. The demo ends every run as its routing says.

  \<^bold>\<open>Modelling conventions.\<close> Effects are explicit: an operation takes and returns a world. Errors
  are values of \<open>go_error\<close>, run-time panics values of \<open>gopanic\<close>. What is outside the repository
  (Redis, HTTP, UUIDs, JSON texts, the clock) is a parameter, with what the code relies on as
  named hypotheses or as a locale.

  \<^bold>\<open>Loops.\<close> Loops over data are structural recursions; the graph scan, the scanner of UTF-8 and
  the search for pattern matches have a measure; the retry loop ends with its attempts; the loop
  of the engine is a partial function that is proved to return.

  \<^bold>\<open>Not modelled.\<close> The code under \<^verbatim>\<open>api/proto/\<close> is generated; \<^verbatim>\<open>scripts/test_rag.go\<close> prints what
  a running database ranks first, with operations that are modelled. Left out of modelled parts:
  logging; the static files and the listener of the demo; \<open>InitTracer\<close> and \<open>MetricsHandler\<close>,
  which only call third-party packages; and the trace headers of HTTP requests. Interleavings
  of requests are the step relation of the server; data races inside an operation, which the code
  excludes by locks, are not modelled.
\<close>

end
